(* ===== verification/Prelude.thy ===== *)
theory Prelude
  imports Main "HOL-Library.Word" "HOL-Library.AList"
begin

text \<open>
  Shared vocabulary of the development: the Go types every component uses (64-bit
  integers, durations, byte strings, error values), the decimal formatting verb of
  \<open>fmt\<close>, and the small library of list and string facts the component theories share.

  Two collections are maintained across the development: \<open>go_simps\<close> unfolds the thin
  wrappers of the Go runtime (error texts, formatting, constants) and \<open>log_simps\<close> holds
  what each operation adds to the event log of the world.
\<close>

named_theorems go_simps \<open>unfolding of thin Go runtime wrappers\<close>
named_theorems log_simps \<open>effect of each operation on the event log\<close>

section \<open>Go values\<close>

text \<open>
  Go's \<open>int\<close> and \<open>int64\<close> are 64 bits wide on every platform the Dockerfile builds
  for; arithmetic wraps around and comparison is signed. A \<open>time.Duration\<close> is an
  \<open>int64\<close> count of nanoseconds. Strings and byte slices are lists of bytes. Instants
  are integers, counted from Go's zero time.
\<close>

type_synonym go_int = "64 word"
type_synonym duration = "64 word"
type_synonym instant = int

definition time_Second :: duration where
  "time_Second = 1000000000"

definition time_Minute :: duration where
  "time_Minute = 60 * time_Second"

text \<open>
  Errors are values. \<open>Foreign\<close> is an error made outside this repository (the
  Kubernetes client, the HTTP transport, a parser), known by an identity tag and its
  \<open>Error()\<close> text; \<open>Errorf\<close> is one built by \<open>fmt.Errorf\<close>: its formatted text and the error
  its \<open>%w\<close> verb wraps, if the format has one.
\<close>

datatype go_error =
    Foreign nat string
  | Errorf string "go_error option"

primrec error_text :: "go_error \<Rightarrow> string" where
  "error_text (Foreign i t) = t"
| "error_text (Errorf t e) = t"

text \<open>\<open>fmt.Errorf(pre + "%w", err)\<close> and \<open>fmt.Errorf\<close> of a text with nothing wrapped.\<close>

definition errorf_w :: "string \<Rightarrow> go_error \<Rightarrow> go_error" where
  "errorf_w pre e = Errorf (pre @ error_text e) (Some e)"

definition errorf :: "string \<Rightarrow> go_error" where
  "errorf t = Errorf t None"

lemma error_text_errorf [simp]:
  "error_text (errorf_w pre e) = pre @ error_text e"
  "error_text (errorf t) = t"
  by (simp_all add: errorf_w_def errorf_def)

section \<open>Decimal numbers\<close>

text \<open>The \<open>%d\<close> verb on an \<open>int\<close>, and the digits it prints.\<close>

definition digit_char :: "nat \<Rightarrow> char" where
  "digit_char n = char_of (48 + n)"

fun show_nat :: "nat \<Rightarrow> string" where
  "show_nat n = (if n < 10 then [digit_char n] else show_nat (n div 10) @ [digit_char (n mod 10)])"

declare show_nat.simps [simp del]

definition show_int :: "int \<Rightarrow> string" where
  "show_int i = (if i < 0 then CHR ''-'' # show_nat (nat (- i)) else show_nat (nat i))"

definition fmt_d :: "go_int \<Rightarrow> string" where
  "fmt_d w = show_int (sint w)"

text \<open>Reading decimal digits back, as \<open>strconv.ParseInt(s, 10, 64)\<close> does.\<close>

definition is_digit :: "char \<Rightarrow> bool" where
  "is_digit c \<longleftrightarrow> 48 \<le> (of_char c :: nat) \<and> (of_char c :: nat) \<le> 57"

definition digit_val :: "char \<Rightarrow> nat" where
  "digit_val c = of_char c - 48"

fun read_digits :: "nat \<Rightarrow> string \<Rightarrow> nat option" where
  "read_digits acc [] = Some acc"
| "read_digits acc (c # cs) =
     (if is_digit c then read_digits (10 * acc + digit_val c) cs else None)"

definition read_nat :: "string \<Rightarrow> nat option" where
  "read_nat s = (if s = [] then None else read_digits 0 s)"

definition in_int64 :: "int \<Rightarrow> bool" where
  "in_int64 i \<longleftrightarrow> - (2 ^ 63) \<le> i \<and> i < 2 ^ 63"

definition parse_int64 :: "string \<Rightarrow> go_int option" where
  "parse_int64 s =
     (case s of
        [] \<Rightarrow> None
      | c # cs \<Rightarrow>
          (if c = CHR ''-''
           then (case read_nat cs of
                   None \<Rightarrow> None
                 | Some n \<Rightarrow> if in_int64 (- int n) then Some (word_of_int (- int n)) else None)
           else (case read_nat s of
                   None \<Rightarrow> None
                 | Some n \<Rightarrow> if in_int64 (int n) then Some (word_of_int (int n)) else None)))"

lemma of_char_digit_char [simp]: "n < 10 \<Longrightarrow> of_char (digit_char n) = (48 + n :: nat)"
  by (simp add: digit_char_def)

lemma is_digit_digit_char [simp]: "n < 10 \<Longrightarrow> is_digit (digit_char n)"
  by (simp add: is_digit_def)

lemma digit_val_digit_char [simp]: "n < 10 \<Longrightarrow> digit_val (digit_char n) = n"
  by (simp add: digit_val_def)

lemma show_nat_nonempty [simp]: "show_nat n \<noteq> []"
  by (subst show_nat.simps) simp

lemma show_nat_digits: "list_all is_digit (show_nat n)"
proof (induction n rule: show_nat.induct)
  case (1 n)
  then show ?case by (subst show_nat.simps) auto
qed

lemma read_digits_append:
  "read_digits a (xs @ ys) = (case read_digits a xs of None \<Rightarrow> None | Some b \<Rightarrow> read_digits b ys)"
  by (induction xs arbitrary: a) auto

lemma read_digits_show_nat: "read_digits 0 (show_nat n) = Some n"
proof (induction n rule: show_nat.induct)
  case (1 n)
  show ?case
  proof (cases "n < 10")
    case True
    then show ?thesis by (subst show_nat.simps) simp
  next
    case False
    with 1 have "read_digits 0 (show_nat (n div 10)) = Some (n div 10)" by simp
    with False show ?thesis
      by (subst show_nat.simps) (simp add: read_digits_append)
  qed
qed

lemma read_nat_show_nat [simp]: "read_nat (show_nat n) = Some n"
  by (simp add: read_nat_def read_digits_show_nat)

lemma hd_show_nat_not_minus: "show_nat n = c # cs \<Longrightarrow> c \<noteq> CHR ''-''"
  using show_nat_digits [of n] by (auto simp: is_digit_def)

lemma sint_in_int64: "in_int64 (sint (w :: go_int))"
  using sint_ge [of w] sint_lt [of w] by (simp add: in_int64_def)

text \<open>Printing and parsing an \<open>int\<close> is the identity.\<close>

lemma parse_int64_fmt_d: "parse_int64 (fmt_d w) = Some w"
proof (cases "sint w < 0")
  case True
  then have "- int (nat (- sint w)) = sint w" by simp
  with True show ?thesis
    using sint_in_int64 [of w]
    by (simp add: fmt_d_def show_int_def parse_int64_def)
next
  case False
  obtain c cs where s: "show_nat (nat (sint w)) = c # cs"
    by (cases "show_nat (nat (sint w))") auto
  have "read_nat (c # cs) = Some (nat (sint w))"
    by (metis s read_nat_show_nat)
  with False show ?thesis
    using sint_in_int64 [of w] hd_show_nat_not_minus [OF s]
    by (simp add: fmt_d_def show_int_def parse_int64_def s)
qed

lemma fmt_d_inject: "fmt_d v = fmt_d w \<longleftrightarrow> v = w"
  by (metis parse_int64_fmt_d option.inject)

section \<open>Lists, options and sums\<close>

lemma list_all_appendD: "list_all P (xs @ ys) \<Longrightarrow> list_all P xs \<and> list_all P ys"
  by simp

lemma append_mid_cases:
  "xs @ ys = pre @ e # post \<Longrightarrow>
    (\<exists>us. pre = xs @ us \<and> ys = us @ e # post) \<or> (\<exists>us. post = us @ ys \<and> xs = pre @ e # us)"
  by (auto simp: append_eq_append_conv2 append_eq_Cons_conv)

lemma in_set_split: "e \<in> set es \<Longrightarrow> \<exists>pre post. es = pre @ e # post"
  by (rule split_list)

lemma sum_case_Inl_iff: "(case r of Inl e \<Rightarrow> False | Inr x \<Rightarrow> P x) \<longleftrightarrow> (\<exists>x. r = Inr x \<and> P x)"
  by (cases r) auto

end
