(* ===== verification/ApiTypes.thy ===== *)
theory ApiTypes
  imports Prelude
begin

text \<open>
  The data model: the custom resources of \<open>api/v1alpha1\<close> (\<open>schema_types.go\<close>,
  \<open>schemaregistry_types.go\<close>) and the parts of the Kubernetes metadata the operator reads or
  writes. A Go struct is a record with the fields in the source's order; a pointer that may
  be nil is an \<open>option\<close>; the string-typed enumerations stay strings, because Go admits any
  string there and the code's \<open>switch\<close> statements have to cope with it.
\<close>

section \<open>Kubernetes metadata\<close>

text \<open>
  \<open>types.NamespacedName\<close> and the fields of \<open>metav1.ObjectMeta\<close> and \<open>metav1.Condition\<close> the
  operator uses.
\<close>

record ObjectKey =
  key_namespace :: string
  key_name :: string

record ObjectMeta =
  meta_name :: string
  meta_namespace :: string
  meta_generation :: go_int
  meta_deletionTimestamp :: "instant option"
  meta_finalizers :: "string list"

record Condition =
  cond_type :: string
  cond_status :: string
  cond_observedGeneration :: go_int
  cond_lastTransitionTime :: instant
  cond_reason :: string
  cond_message :: string

definition ConditionTrue :: string where
  "ConditionTrue = ''True''"

definition ConditionFalse :: string where
  "ConditionFalse = ''False''"

text \<open>\<open>corev1.Secret\<close>: only its \<open>Data\<close> map is read; a missing key reads as the nil slice.\<close>

record Secret =
  secret_name :: string
  secret_namespace :: string
  secret_data :: "(string \<times> string) list"

definition secret_value :: "Secret \<Rightarrow> string \<Rightarrow> string" where
  "secret_value s k = (case map_of (secret_data s) k of None \<Rightarrow> [] | Some v \<Rightarrow> v)"

section \<open>Schema\<close>

type_synonym SchemaType = string

definition SchemaTypeAvro :: SchemaType where
  "SchemaTypeAvro = ''AVRO''"

definition SchemaTypeJSON :: SchemaType where
  "SchemaTypeJSON = ''JSON''"

definition SchemaTypeProtobuf :: SchemaType where
  "SchemaTypeProtobuf = ''PROTOBUF''"

record SchemaReference =
  ref_name :: string
  ref_subject :: string
  ref_version :: go_int

record SchemaRegistryRef =
  rr_name :: string
  rr_namespace :: string

record SchemaSpec =
  spec_subject :: string
  spec_schemaType :: SchemaType
  spec_schema :: string
  spec_references :: "SchemaReference list"
  spec_registryRef :: SchemaRegistryRef
  spec_compatibilityLevel :: string

record SchemaStatus =
  status_schemaID :: "go_int option"
  status_version :: "go_int option"
  status_registeredAt :: "instant option"
  status_observedGeneration :: go_int
  status_conditions :: "Condition list"

record Schema =
  sch_meta :: ObjectMeta
  sch_spec :: SchemaSpec
  sch_status :: SchemaStatus

section \<open>SchemaRegistry\<close>

type_synonym AuthType = string

definition AuthTypeNone :: AuthType where
  "AuthTypeNone = ''NONE''"

definition AuthTypeBasic :: AuthType where
  "AuthTypeBasic = ''BASIC''"

definition AuthTypeBearer :: AuthType where
  "AuthTypeBearer = ''BEARER''"

definition AuthTypeMTLS :: AuthType where
  "AuthTypeMTLS = ''MTLS''"

record BasicAuthConfig =
  basic_secretRef :: string

record BearerAuthConfig =
  bearer_secretRef :: string

record MTLSConfig =
  mtls_certSecretRef :: string
  mtls_caSecretRef :: string

record ApiAuthConfig =
  auth_type :: AuthType
  auth_basicAuth :: "BasicAuthConfig option"
  auth_bearerAuth :: "BearerAuthConfig option"
  auth_mtls :: "MTLSConfig option"

record SchemaRegistrySpec =
  sr_url :: string
  sr_auth :: "ApiAuthConfig option"
  sr_insecureSkipVerify :: bool
  sr_timeout :: go_int

record SchemaRegistryStatus =
  sr_connectionStatus :: string
  sr_lastChecked :: "instant option"
  sr_observedGeneration :: go_int
  sr_conditions :: "Condition list"

record SchemaRegistry =
  sr_meta :: ObjectMeta
  sr_spec :: SchemaRegistrySpec
  sr_status :: SchemaRegistryStatus

lemmas auth_type_defs =
  AuthTypeNone_def AuthTypeBasic_def AuthTypeBearer_def AuthTypeMTLS_def

lemmas schema_type_defs =
  SchemaTypeAvro_def SchemaTypeJSON_def SchemaTypeProtobuf_def

lemma auth_types_distinct [simp]:
  "AuthTypeBasic \<noteq> AuthTypeNone" "AuthTypeBearer \<noteq> AuthTypeNone" "AuthTypeMTLS \<noteq> AuthTypeNone"
  "AuthTypeBasic \<noteq> AuthTypeBearer" "AuthTypeBasic \<noteq> AuthTypeMTLS" "AuthTypeBearer \<noteq> AuthTypeMTLS"
  "AuthTypeNone \<noteq> AuthTypeBasic" "AuthTypeNone \<noteq> AuthTypeBearer" "AuthTypeNone \<noteq> AuthTypeMTLS"
  "AuthTypeBearer \<noteq> AuthTypeBasic" "AuthTypeMTLS \<noteq> AuthTypeBasic" "AuthTypeMTLS \<noteq> AuthTypeBearer"
  by (simp_all add: auth_type_defs)

text \<open>Conditions of one type, and of every other type.\<close>

definition conditions_of :: "string \<Rightarrow> Condition list \<Rightarrow> Condition list" where
  "conditions_of t cs = [c \<leftarrow> cs. cond_type c = t]"

definition conditions_except :: "string \<Rightarrow> Condition list \<Rightarrow> Condition list" where
  "conditions_except t cs = [c \<leftarrow> cs. cond_type c \<noteq> t]"

end
