(* ===== verification/GoBase64.thy ===== *)
theory GoBase64
  imports Prelude
begin

text \<open>
  The standard, padded base64 encoding of Go's \<open>encoding/base64\<close>, which
  \<open>http.Request.SetBasicAuth\<close> uses to write the \<open>Authorization\<close> header, and its decoder,
  which is what the receiving server applies. The lemma \<open>b64_decode_encode\<close> shows that
  decoding undoes encoding on every byte string.
\<close>

definition b64_char :: "nat \<Rightarrow> char" where
  "b64_char n =
     (if n < 26 then char_of (65 + n)
      else if n < 52 then char_of (71 + n)
      else if n < 62 then char_of (n - 4)
      else if n = 62 then CHR ''+'' else CHR ''/'')"

definition b64_val :: "char \<Rightarrow> nat option" where
  "b64_val c =
     (let k = of_char c :: nat in
      if 65 \<le> k \<and> k \<le> 90 then Some (k - 65)
      else if 97 \<le> k \<and> k \<le> 122 then Some (k - 71)
      else if 48 \<le> k \<and> k \<le> 57 then Some (k + 4)
      else if c = CHR ''+'' then Some 62
      else if c = CHR ''/'' then Some 63 else None)"

abbreviation b64_pad :: char where
  "b64_pad \<equiv> CHR ''=''"

fun b64_encode :: "string \<Rightarrow> string" where
  "b64_encode [] = []"
| "b64_encode [a] =
     [b64_char (of_char a div 4), b64_char (of_char a mod 4 * 16), b64_pad, b64_pad]"
| "b64_encode [a, b] =
     [b64_char (of_char a div 4), b64_char (of_char a mod 4 * 16 + of_char b div 16),
      b64_char (of_char b mod 16 * 4), b64_pad]"
| "b64_encode (a # b # c # r) =
     b64_char (of_char a div 4) # b64_char (of_char a mod 4 * 16 + of_char b div 16) #
     b64_char (of_char b mod 16 * 4 + of_char c div 64) # b64_char (of_char c mod 64) #
     b64_encode r"

fun b64_decode :: "string \<Rightarrow> string option" where
  "b64_decode [] = Some []"
| "b64_decode (w # x # y # z # r) =
     (case b64_val w of None \<Rightarrow> None | Some p \<Rightarrow>
      case b64_val x of None \<Rightarrow> None | Some q \<Rightarrow>
      if y = b64_pad \<and> z = b64_pad then
        (if r = [] then Some [char_of (p * 4 + q div 16)] else None)
      else case b64_val y of None \<Rightarrow> None | Some s \<Rightarrow>
      if z = b64_pad then
        (if r = [] then Some [char_of (p * 4 + q div 16), char_of (q mod 16 * 16 + s div 4)]
         else None)
      else case b64_val z of None \<Rightarrow> None | Some t \<Rightarrow>
      map_option (\<lambda>rs. char_of (p * 4 + q div 16) # char_of (q mod 16 * 16 + s div 4) #
                        char_of (s mod 4 * 64 + t) # rs) (b64_decode r))"
| "b64_decode s = None"

lemma of_char_lt_256 [simp]: "(of_char c :: nat) < 256"
  using of_char_mod_256 [of c, where ?'a = nat] mod_less_divisor [of 256 "of_char c :: nat"]
  by simp

lemma b64_val_char [simp]: "n < 64 \<Longrightarrow> b64_val (b64_char n) = Some n"
  by (auto simp: b64_val_def b64_char_def Let_def)

lemma b64_char_not_pad [simp]: "n < 64 \<Longrightarrow> b64_char n \<noteq> b64_pad"
  using b64_val_char [of n] by (auto simp: b64_val_def Let_def)

lemma sextet_bounds [simp]:
  "(of_char a :: nat) div 4 < 64"
  "(of_char a :: nat) mod 4 * 16 < 64"
  "(of_char a :: nat) mod 4 * 16 + of_char b div 16 < 64"
  "(of_char a :: nat) mod 16 * 4 < 64"
  "(of_char a :: nat) mod 16 * 4 + of_char b div 64 < 64"
  "(of_char a :: nat) mod 64 < 64"
  using of_char_lt_256 [of a] of_char_lt_256 [of b] by linarith+

lemma octet_high_bits [simp]:
  "(of_char b :: nat) div 16 div 16 = 0"
  "(of_char b :: nat) div 64 div 4 = 0"
  "(of_char b :: nat) div 16 mod 16 = of_char b div 16"
  "(of_char b :: nat) div 64 mod 4 = of_char b div 64"
  using of_char_lt_256 [of b] by (simp_all add: div_mult2_eq [symmetric] less_mult_imp_div_less)

lemma b64_decode_encode: "b64_decode (b64_encode s) = Some s"
  by (induction s rule: b64_encode.induct) simp_all

lemma b64_encode_inject: "b64_encode s = b64_encode t \<longleftrightarrow> s = t"
  by (metis b64_decode_encode option.inject)

end
