(* ===== verification/GoHttp.thy ===== *)
theory GoHttp
  imports GoBase64
begin

text \<open>
  The values of \<open>net/http\<close>, \<open>crypto/tls\<close> and \<open>crypto/x509\<close> the client builds: requests
  with their headers, the TLS configuration of the transport, and the response with its
  body. A header map holds canonical keys; the two keys the code sets are canonical.
\<close>

section \<open>TLS\<close>

text \<open>
  A parsed key pair is the certificate chain and the private key; the zero value of
  \<open>tls.Certificate\<close> has neither. A certificate pool is the list of the certificates in it.
\<close>

record TlsCertificate =
  cert_chain :: "string list"
  cert_key :: string

type_synonym CertPool = "string list"

definition zero_certificate :: TlsCertificate where
  "zero_certificate = \<lparr>cert_chain = [], cert_key = []\<rparr>"

record TlsConfig =
  tls_insecureSkipVerify :: bool
  tls_certificates :: "TlsCertificate list"
  tls_rootCAs :: "CertPool option"

section \<open>Requests and responses\<close>

record HttpClient =
  hc_timeout :: duration
  hc_tls :: TlsConfig

record HttpRequest =
  req_method :: string
  req_url :: string
  req_headers :: "(string \<times> string) list"
  req_body :: "string option"

text \<open>
  \<open>resp_body\<close> is what the body yields before it ends; \<open>resp_body_error\<close> is the error that
  ends it, when it does not end with EOF.
\<close>

record HttpResponse =
  resp_status :: go_int
  resp_body :: string
  resp_body_error :: "go_error option"

definition MethodGet :: string where "MethodGet = ''GET''"
definition MethodPost :: string where "MethodPost = ''POST''"
definition MethodPut :: string where "MethodPut = ''PUT''"
definition MethodDelete :: string where "MethodDelete = ''DELETE''"

lemmas method_defs = MethodGet_def MethodPost_def MethodPut_def MethodDelete_def

definition StatusOK :: go_int where "StatusOK = 200"
definition StatusNotFound :: go_int where "StatusNotFound = 404"

lemma status_codes_distinct [simp]: "StatusOK \<noteq> StatusNotFound" "StatusNotFound \<noteq> StatusOK"
  by (simp_all add: StatusOK_def StatusNotFound_def)

text \<open>\<open>Header.Set\<close> replaces what the key had; \<open>Header.Get\<close> reads it.\<close>

definition header_set :: "string \<Rightarrow> string \<Rightarrow> HttpRequest \<Rightarrow> HttpRequest" where
  "header_set k v r = r\<lparr>req_headers := AList.update k v (req_headers r)\<rparr>"

definition header_get :: "HttpRequest \<Rightarrow> string \<Rightarrow> string option" where
  "header_get r k = map_of (req_headers r) k"

lemma header_get_set [simp]:
  "header_get (header_set k v r) k' = (if k' = k then Some v else header_get r k')"
  by (simp add: header_get_def header_set_def update_conv')

lemma header_set_frame [simp]:
  "req_method (header_set k v r) = req_method r"
  "req_url (header_set k v r) = req_url r"
  "req_body (header_set k v r) = req_body r"
  by (simp_all add: header_set_def)

text \<open>\<open>req.SetBasicAuth\<close>, and the server's reading of the header (\<open>req.BasicAuth\<close>).\<close>

definition basic_auth_value :: "string \<Rightarrow> string \<Rightarrow> string" where
  "basic_auth_value user pass = ''Basic '' @ b64_encode (user @ CHR '':'' # pass)"

definition set_basic_auth :: "string \<Rightarrow> string \<Rightarrow> HttpRequest \<Rightarrow> HttpRequest" where
  "set_basic_auth user pass r = header_set ''Authorization'' (basic_auth_value user pass) r"

definition parse_basic_auth :: "string \<Rightarrow> (string \<times> string) option" where
  "parse_basic_auth v =
     (if take 6 v = ''Basic '' then
        (case b64_decode (drop 6 v) of
           None \<Rightarrow> None
         | Some t \<Rightarrow>
             if CHR '':'' \<in> set t
             then Some (takeWhile (\<lambda>c. c \<noteq> CHR '':'') t, tl (dropWhile (\<lambda>c. c \<noteq> CHR '':'') t))
             else None)
      else None)"

lemma parse_basic_auth_value:
  assumes "CHR '':'' \<notin> set user"
  shows "parse_basic_auth (basic_auth_value user pass) = Some (user, pass)"
proof -
  have "takeWhile (\<lambda>c. c \<noteq> CHR '':'') (user @ CHR '':'' # pass) = user"
    using assms by (subst takeWhile_append2) auto
  moreover have "dropWhile (\<lambda>c. c \<noteq> CHR '':'') (user @ CHR '':'' # pass) = CHR '':'' # pass"
    using assms by (subst dropWhile_append2) auto
  ultimately show ?thesis
    by (simp add: parse_basic_auth_def basic_auth_value_def b64_decode_encode)
qed

end
