(* ===== verification/GoUtf8.thy ===== *)
theory GoUtf8
  imports Prelude
begin

text \<open>
  UTF-8 as Go's \<open>unicode/utf8\<close> decodes it: how long the multi-byte sequence at the front
  of a byte string is, whether a string is valid, and the bytes of a code point. A byte is
  read as the number \<open>of_char c\<close>.
\<close>

definition byte_in :: "nat \<Rightarrow> nat \<Rightarrow> char \<Rightarrow> bool" where
  "byte_in lo hi c \<longleftrightarrow> lo \<le> (of_char c :: nat) \<and> (of_char c :: nat) \<le> hi"

abbreviation utf8_cont :: "char \<Rightarrow> bool" where
  "utf8_cont \<equiv> byte_in 128 191"

text \<open>The range of second bytes Go accepts after a given first byte.\<close>

definition utf8_second :: "char \<Rightarrow> char \<Rightarrow> bool" where
  "utf8_second a b =
     (let k = of_char a :: nat in
      if k = 224 then byte_in 160 191 b
      else if k = 237 then byte_in 128 159 b
      else if k = 240 then byte_in 144 191 b
      else if k = 244 then byte_in 128 143 b
      else utf8_cont b)"

text \<open>
  \<open>utf8_len s\<close> is the length of the valid multi-byte sequence \<open>s\<close> starts with, and \<open>0\<close>
  where \<open>DecodeRune\<close> reports \<open>(RuneError, 1)\<close>. It is used on strings whose first byte is at
  least 128 only.
\<close>

fun utf8_len :: "string \<Rightarrow> nat" where
  "utf8_len (a # b # r) =
     (if byte_in 194 223 a then (if utf8_cont b then 2 else 0)
      else if byte_in 224 239 a then
        (case r of
           c # r' \<Rightarrow> if utf8_second a b \<and> utf8_cont c then 3 else 0
         | [] \<Rightarrow> 0)
      else if byte_in 240 244 a then
        (case r of
           c # d # r' \<Rightarrow> if utf8_second a b \<and> utf8_cont c \<and> utf8_cont d then 4 else 0
         | _ \<Rightarrow> 0)
      else 0)"
| "utf8_len s = 0"

abbreviation ascii :: "char \<Rightarrow> bool" where
  "ascii c \<equiv> (of_char c :: nat) < 128"

fun utf8_valid :: "string \<Rightarrow> bool" where
  "utf8_valid [] = True"
| "utf8_valid (c # cs) =
     (if ascii c then utf8_valid cs
      else utf8_len (c # cs) \<noteq> 0 \<and> utf8_valid (drop (utf8_len (c # cs) - 1) cs))"

text \<open>\<open>utf8.EncodeRune\<close> for a code point that is no surrogate.\<close>

definition utf8_bytes :: "nat \<Rightarrow> string" where
  "utf8_bytes n =
     (if n < 128 then [char_of n]
      else if n < 2048 then [char_of (192 + n div 64), char_of (128 + n mod 64)]
      else if n < 65536 then
        [char_of (224 + n div 4096), char_of (128 + n div 64 mod 64), char_of (128 + n mod 64)]
      else
        [char_of (240 + n div 262144), char_of (128 + n div 4096 mod 64),
         char_of (128 + n div 64 mod 64), char_of (128 + n mod 64)])"

text \<open>U+FFFD, the replacement character.\<close>

definition utf8_replacement :: string where
  "utf8_replacement = [CHR 0xEF, CHR 0xBF, CHR 0xBD]"

lemma utf8_len_le: "utf8_len s \<le> length s"
  by (cases s rule: utf8_len.cases) (auto split: list.splits)

lemma utf8_len_cases: "utf8_len s = 0 \<or> 2 \<le> utf8_len s"
  by (cases s rule: utf8_len.cases) (auto split: list.splits)

lemma utf8_len_append:
  "utf8_len s \<noteq> 0 \<Longrightarrow> utf8_len (take (utf8_len s) s @ x) = utf8_len s"
  by (cases s rule: utf8_len.cases) (auto split: list.splits if_splits)

lemma utf8_valid_ascii: "list_all ascii s \<Longrightarrow> utf8_valid s"
  by (induction s) auto

section \<open>Quoting\<close>

text \<open>
  \<open>strconv.Quote\<close>, the \<open>%q\<close> verb of \<open>fmt\<close>. Which code points beyond ASCII are printable
  is a table of the Unicode standard that Go carries as data; it is the argument \<open>printable\<close>,
  asked with the bytes of the rune.
\<close>

definition lower_hex :: "nat \<Rightarrow> char" where
  "lower_hex n = (if n < 10 then char_of (48 + n) else char_of (87 + n))"

fun hex_digits :: "nat \<Rightarrow> nat \<Rightarrow> string" where
  "hex_digits 0 n = []"
| "hex_digits (Suc k) n = hex_digits k (n div 16) @ [lower_hex (n mod 16)]"

fun utf8_code :: "string \<Rightarrow> nat" where
  "utf8_code [a, b] = (of_char a - 192) * 64 + (of_char b - 128)"
| "utf8_code [a, b, c] =
     (of_char a - 224) * 4096 + (of_char b - 128) * 64 + (of_char c - 128)"
| "utf8_code [a, b, c, d] =
     (of_char a - 240) * 262144 + (of_char b - 128) * 4096 + (of_char c - 128) * 64 + (of_char d - 128)"
| "utf8_code s = 0"

definition quote_ascii :: "char \<Rightarrow> string" where
  "quote_ascii c =
     (if c = CHR 0x22 \<or> c = CHR 0x5C then [CHR 0x5C, c]
      else if byte_in 32 126 c then [c]
      else if c = CHR 0x07 then CHR 0x5C # ''a''
      else if c = CHR 0x08 then CHR 0x5C # ''b''
      else if c = CHR 0x0C then CHR 0x5C # ''f''
      else if c = CHR 0x0A then CHR 0x5C # ''n''
      else if c = CHR 0x0D then CHR 0x5C # ''r''
      else if c = CHR 0x09 then CHR 0x5C # ''t''
      else if c = CHR 0x0B then CHR 0x5C # ''v''
      else CHR 0x5C # CHR ''x'' # hex_digits 2 (of_char c))"

definition quote_rune :: "(string \<Rightarrow> bool) \<Rightarrow> string \<Rightarrow> string" where
  "quote_rune printable bs =
     (if printable bs then bs
      else if utf8_code bs < 65536 then CHR 0x5C # CHR ''u'' # hex_digits 4 (utf8_code bs)
      else CHR 0x5C # CHR ''U'' # hex_digits 8 (utf8_code bs))"

fun quote_body :: "(string \<Rightarrow> bool) \<Rightarrow> string \<Rightarrow> string" where
  "quote_body printable [] = []"
| "quote_body printable (c # cs) =
     (if ascii c then quote_ascii c @ quote_body printable cs
      else if utf8_len (c # cs) = 0
      then (CHR 0x5C # CHR ''x'' # hex_digits 2 (of_char c)) @ quote_body printable cs
      else quote_rune printable (take (utf8_len (c # cs)) (c # cs)) @
           quote_body printable (drop (utf8_len (c # cs) - 1) cs))"

definition fmt_q :: "(string \<Rightarrow> bool) \<Rightarrow> string \<Rightarrow> string" where
  "fmt_q printable s = CHR 0x22 # quote_body printable s @ [CHR 0x22]"

lemma quote_body_plain:
  "list_all (\<lambda>c. byte_in 32 126 c \<and> c \<noteq> CHR 0x22 \<and> c \<noteq> CHR 0x5C) s \<Longrightarrow> quote_body printable s = s"
  by (induction s) (auto simp: quote_ascii_def byte_in_def)

end
