(* ===== verification/World.thy ===== *)
theory World
  imports ApiTypes GoHttp GoUtf8
begin

text \<open>
  The world the operator runs in, as explicit state. The Kubernetes API server behind the
  controller-runtime client, the network behind \<open>http.Client.Do\<close>, the clock and the
  libraries the code calls are not part of the repository: they are the fields of an
  environment \<open>env\<close>, arbitrary functions over an arbitrary external state. Every theorem
  about the operator is therefore about every environment, including one in which other
  actors change the cluster between two calls of the same reconciliation.

  \<open>world\<close> pairs the external state with the log of the calls made so far, each with its
  arguments and its outcome; the log is what ordering properties speak about.
\<close>

section \<open>Environment\<close>

record 'w env =
  env_get_schema :: "ObjectKey \<Rightarrow> 'w \<Rightarrow> (go_error + Schema) \<times> 'w"
  env_get_registry :: "ObjectKey \<Rightarrow> 'w \<Rightarrow> (go_error + SchemaRegistry) \<times> 'w"
  env_get_secret :: "ObjectKey \<Rightarrow> 'w \<Rightarrow> (go_error + Secret) \<times> 'w"
  env_list_schemas :: "string \<Rightarrow> 'w \<Rightarrow> (go_error + Schema list) \<times> 'w"
  env_list_registries :: "string \<Rightarrow> 'w \<Rightarrow> (go_error + SchemaRegistry list) \<times> 'w"
  env_update_schema :: "Schema \<Rightarrow> 'w \<Rightarrow> go_error option \<times> 'w"
  env_update_schema_status :: "Schema \<Rightarrow> 'w \<Rightarrow> go_error option \<times> 'w"
  env_update_registry_status :: "SchemaRegistry \<Rightarrow> 'w \<Rightarrow> go_error option \<times> 'w"
  env_http_do :: "HttpClient \<Rightarrow> HttpRequest \<Rightarrow> 'w \<Rightarrow> (go_error + HttpResponse) \<times> 'w"
  env_now :: "'w \<Rightarrow> instant \<times> 'w"
  env_new_request_error :: "string \<Rightarrow> string \<Rightarrow> go_error option"
  env_json_error :: "string \<Rightarrow> go_error"
  env_printable :: "string \<Rightarrow> bool"
  env_x509_key_pair :: "string \<Rightarrow> string \<Rightarrow> go_error + TlsCertificate"
  env_append_certs :: "CertPool \<Rightarrow> string \<Rightarrow> CertPool"
  env_ignore_not_found :: "go_error \<Rightarrow> go_error option"
  env_time_is_zero :: "instant option \<Rightarrow> bool"
  env_contains_finalizer :: "string list \<Rightarrow> string \<Rightarrow> bool"
  env_add_finalizer :: "string list \<Rightarrow> string \<Rightarrow> string list"
  env_remove_finalizer :: "string list \<Rightarrow> string \<Rightarrow> string list"
  env_set_status_condition :: "'w \<Rightarrow> Condition list \<Rightarrow> Condition \<Rightarrow> Condition list"
  env_object_key :: "ObjectMeta \<Rightarrow> ObjectKey"

section \<open>Calls and their log\<close>

datatype event =
    GotSchema ObjectKey "go_error + Schema"
  | GotRegistry ObjectKey "go_error + SchemaRegistry"
  | GotSecret ObjectKey "go_error + Secret"
  | ListedSchemas string "go_error + Schema list"
  | ListedRegistries string "go_error + SchemaRegistry list"
  | UpdatedSchema Schema "go_error option"
  | UpdatedSchemaStatus Schema "go_error option"
  | UpdatedRegistryStatus SchemaRegistry "go_error option"
  | HttpDone HttpClient HttpRequest "go_error + HttpResponse"

record 'w world =
  ext :: 'w
  log :: "event list"

text \<open>One call: run the environment's function on the external state and record it.\<close>

definition call :: "('w \<Rightarrow> 'r \<times> 'w) \<Rightarrow> ('r \<Rightarrow> event) \<Rightarrow> 'w world \<Rightarrow> 'r \<times> 'w world" where
  "call f ev w =
     (case f (ext w) of (r, x) \<Rightarrow> (r, \<lparr>ext = x, log = log w @ [ev r]\<rparr>))"

definition k8s_get_schema :: "'w env \<Rightarrow> ObjectKey \<Rightarrow> 'w world \<Rightarrow> (go_error + Schema) \<times> 'w world" where
  "k8s_get_schema E k = call (env_get_schema E k) (GotSchema k)"

definition k8s_get_registry ::
  "'w env \<Rightarrow> ObjectKey \<Rightarrow> 'w world \<Rightarrow> (go_error + SchemaRegistry) \<times> 'w world" where
  "k8s_get_registry E k = call (env_get_registry E k) (GotRegistry k)"

definition k8s_get_secret :: "'w env \<Rightarrow> ObjectKey \<Rightarrow> 'w world \<Rightarrow> (go_error + Secret) \<times> 'w world" where
  "k8s_get_secret E k = call (env_get_secret E k) (GotSecret k)"

definition k8s_list_schemas ::
  "'w env \<Rightarrow> string \<Rightarrow> 'w world \<Rightarrow> (go_error + Schema list) \<times> 'w world" where
  "k8s_list_schemas E ns = call (env_list_schemas E ns) (ListedSchemas ns)"

definition k8s_list_registries ::
  "'w env \<Rightarrow> string \<Rightarrow> 'w world \<Rightarrow> (go_error + SchemaRegistry list) \<times> 'w world" where
  "k8s_list_registries E ns = call (env_list_registries E ns) (ListedRegistries ns)"

definition k8s_update_schema :: "'w env \<Rightarrow> Schema \<Rightarrow> 'w world \<Rightarrow> go_error option \<times> 'w world" where
  "k8s_update_schema E s = call (env_update_schema E s) (UpdatedSchema s)"

definition k8s_update_schema_status ::
  "'w env \<Rightarrow> Schema \<Rightarrow> 'w world \<Rightarrow> go_error option \<times> 'w world" where
  "k8s_update_schema_status E s = call (env_update_schema_status E s) (UpdatedSchemaStatus s)"

definition k8s_update_registry_status ::
  "'w env \<Rightarrow> SchemaRegistry \<Rightarrow> 'w world \<Rightarrow> go_error option \<times> 'w world" where
  "k8s_update_registry_status E s =
     call (env_update_registry_status E s) (UpdatedRegistryStatus s)"

definition http_do ::
  "'w env \<Rightarrow> HttpClient \<Rightarrow> HttpRequest \<Rightarrow> 'w world \<Rightarrow> (go_error + HttpResponse) \<times> 'w world" where
  "http_do E c r = call (env_http_do E c r) (HttpDone c r)"

text \<open>Reading the clock is no event: nothing of the cluster or the registry depends on it.\<close>

definition read_clock :: "'w env \<Rightarrow> 'w world \<Rightarrow> instant \<times> 'w world" where
  "read_clock E w = (case env_now E (ext w) of (t, x) \<Rightarrow> (t, w\<lparr>ext := x\<rparr>))"

lemma call_log [log_simps]:
  "call f ev w = (r, w') \<Longrightarrow> log w' = log w @ [ev r]"
  by (auto simp: call_def split: prod.splits)

lemmas op_defs =
  k8s_get_schema_def k8s_get_registry_def k8s_get_secret_def k8s_list_schemas_def
  k8s_list_registries_def k8s_update_schema_def k8s_update_schema_status_def
  k8s_update_registry_status_def http_do_def

lemma op_log [log_simps]:
  "k8s_get_schema E k w = (r1, w') \<Longrightarrow> log w' = log w @ [GotSchema k r1]"
  "k8s_get_registry E k w = (r2, w') \<Longrightarrow> log w' = log w @ [GotRegistry k r2]"
  "k8s_get_secret E k w = (r3, w') \<Longrightarrow> log w' = log w @ [GotSecret k r3]"
  "k8s_list_schemas E ns w = (r4, w') \<Longrightarrow> log w' = log w @ [ListedSchemas ns r4]"
  "k8s_list_registries E ns w = (r5, w') \<Longrightarrow> log w' = log w @ [ListedRegistries ns r5]"
  "k8s_update_schema E s w = (r6, w') \<Longrightarrow> log w' = log w @ [UpdatedSchema s r6]"
  "k8s_update_schema_status E s w = (r6, w') \<Longrightarrow> log w' = log w @ [UpdatedSchemaStatus s r6]"
  "k8s_update_registry_status E sr w = (r6, w') \<Longrightarrow> log w' = log w @ [UpdatedRegistryStatus sr r6]"
  "http_do E c rq w = (r7, w') \<Longrightarrow> log w' = log w @ [HttpDone c rq r7]"
  by (auto simp: op_defs dest: call_log)

lemma read_clock_log [log_simps]: "read_clock E w = (t, w') \<Longrightarrow> log w' = log w"
  by (auto simp: read_clock_def split: prod.splits)

section \<open>Operations with a contract on the log\<close>

text \<open>
  Every operation of the operator only appends to the log, and what it appends is described
  by a contract relating its result to the events of the run. Callers rely on the contract
  alone.
\<close>

locale logged_op =
  fixes run :: "'w world \<Rightarrow> 'r \<times> 'w world"
    and contract :: "'r \<Rightarrow> event list \<Rightarrow> bool"
  assumes run_emits: "run w = (r, w') \<Longrightarrow> \<exists>es. log w' = log w @ es \<and> contract r es"
begin

lemma eventsE:
  assumes "run w = (r, w')"
  obtains es where "log w' = log w @ es" "contract r es"
  using run_emits [OF assms] by blast

lemma log_extends: "run w = (r, w') \<Longrightarrow> take (length (log w)) (log w') = log w"
  by (auto elim: eventsE)

lemma events_contract:
  "run w = (r, w') \<Longrightarrow> log w' = log w @ es \<Longrightarrow> contract r es"
  by (auto elim: eventsE)

end

text \<open>An operation whose events are all of an allowed kind, whatever its result.\<close>

locale bounded_op = logged_op +
  fixes allowed :: "event \<Rightarrow> bool"
  assumes contract_allowed: "contract r es \<Longrightarrow> list_all allowed es"
begin

lemma events_allowed:
  "run w = (r, w') \<Longrightarrow> log w' = log w @ es \<Longrightarrow> list_all allowed es"
  by (blast intro: contract_allowed events_contract)

lemma log_allowed:
  "run w = (r, w') \<Longrightarrow> list_all allowed (log w) \<Longrightarrow> list_all allowed (log w')"
  by (auto elim!: eventsE dest: contract_allowed)

end

section \<open>Documented behaviour of the Kubernetes libraries\<close>

text \<open>
  What the code relies on of \<open>controllerutil\<close> and \<open>meta\<close>, as their documentation states it: the
  finalizer functions test, add and remove an entry of the list of finalizers, and
  \<open>SetStatusCondition\<close> makes the condition of the given type equal to the new one (up to the
  transition time, which the library chooses) and leaves the conditions of other types
  alone. The theorems that need one of these name it as a hypothesis.
\<close>

definition find_condition :: "string \<Rightarrow> Condition list \<Rightarrow> Condition option" where
  "find_condition t cs = find (\<lambda>c. cond_type c = t) cs"

definition finalizer_laws :: "'w env \<Rightarrow> bool" where
  "finalizer_laws E \<longleftrightarrow>
     (\<forall>fs f. env_contains_finalizer E fs f \<longleftrightarrow> f \<in> set fs) \<and>
     (\<forall>fs f. set (env_add_finalizer E fs f) = insert f (set fs)) \<and>
     (\<forall>fs f. set (env_remove_finalizer E fs f) = set fs - {f})"

definition condition_laws :: "'w env \<Rightarrow> bool" where
  "condition_laws E \<longleftrightarrow>
     (\<forall>x cs c. (\<exists>t. find_condition (cond_type c) (env_set_status_condition E x cs c) =
                  Some (c\<lparr>cond_lastTransitionTime := t\<rparr>)) \<and>
               conditions_except (cond_type c) (env_set_status_condition E x cs c) =
                  conditions_except (cond_type c) cs)"

lemma finalizer_lawsD:
  assumes "finalizer_laws E"
  shows "env_contains_finalizer E fs f \<longleftrightarrow> f \<in> set fs"
    and "set (env_add_finalizer E fs f) = insert f (set fs)"
    and "set (env_remove_finalizer E fs f) = set fs - {f}"
  using assms by (simp_all add: finalizer_laws_def)

lemma condition_lawsD:
  assumes "condition_laws E"
  shows "\<exists>t. find_condition (cond_type c) (env_set_status_condition E x cs c) =
      Some (c\<lparr>cond_lastTransitionTime := t\<rparr>)"
    and "conditions_except (cond_type c) (env_set_status_condition E x cs c) =
      conditions_except (cond_type c) cs"
  using assms by (simp_all add: condition_laws_def)

end
