(* ===== verification/GoJson.thy ===== *)
theory GoJson
  imports GoUtf8
begin

text \<open>
  What the operator uses of Go's \<open>encoding/json\<close>: the grammar \<open>json.Valid\<close> accepts and
  the decoder reads, the text \<open>json.Marshal\<close> writes (compact, with the HTML characters
  escaped), and the key matching of the decoder. A number is kept as its literal text, as
  the package does until a value is stored. The nesting limit is the package's 10000.
\<close>

datatype json =
    JNull
  | JBool bool
  | JNum string
  | JStr string
  | JArr "json list"
  | JObj "(string \<times> json) list"

definition max_nesting_depth :: nat where
  "max_nesting_depth = 10000"

section \<open>Scanning\<close>

definition is_space :: "char \<Rightarrow> bool" where
  "is_space c \<longleftrightarrow> (of_char c :: nat) \<in> {32, 9, 13, 10}"

definition skip_ws :: "string \<Rightarrow> string" where
  "skip_ws s = dropWhile is_space s"

abbreviation quote_ch :: char where
  "quote_ch \<equiv> CHR 0x22"

abbreviation backslash_ch :: char where
  "backslash_ch \<equiv> CHR 0x5C"

text \<open>Numbers: an optional minus, an integer part without leading zeros, a fraction, an exponent.\<close>

definition scan_int :: "string \<Rightarrow> (string \<times> string) option" where
  "scan_int s =
     (case s of
        [] \<Rightarrow> None
      | c # cs \<Rightarrow>
          if c = CHR ''0'' then Some ([c], cs)
          else if is_digit c then Some (c # takeWhile is_digit cs, dropWhile is_digit cs)
          else None)"

definition scan_digits1 :: "string \<Rightarrow> (string \<times> string) option" where
  "scan_digits1 s =
     (if takeWhile is_digit s = [] then None else Some (takeWhile is_digit s, dropWhile is_digit s))"

definition scan_frac :: "string \<Rightarrow> (string \<times> string) option" where
  "scan_frac s =
     (case s of
        [] \<Rightarrow> Some ([], [])
      | c # cs \<Rightarrow>
          if c = CHR ''.'' then map_option (\<lambda>(ds, r). (c # ds, r)) (scan_digits1 cs)
          else Some ([], s))"

definition scan_exp :: "string \<Rightarrow> (string \<times> string) option" where
  "scan_exp s =
     (case s of
        [] \<Rightarrow> Some ([], [])
      | c # cs \<Rightarrow>
          if c = CHR ''e'' \<or> c = CHR ''E'' then
            (case cs of
               [] \<Rightarrow> None
             | d # ds \<Rightarrow>
                 if d = CHR ''+'' \<or> d = CHR ''-''
                 then map_option (\<lambda>(es, r). (c # d # es, r)) (scan_digits1 ds)
                 else map_option (\<lambda>(es, r). (c # es, r)) (scan_digits1 cs))
          else Some ([], s))"

definition scan_unsigned :: "string \<Rightarrow> (string \<times> string) option" where
  "scan_unsigned s =
     (case scan_int s of None \<Rightarrow> None | Some (i, r1) \<Rightarrow>
      case scan_frac r1 of None \<Rightarrow> None | Some (f, r2) \<Rightarrow>
      case scan_exp r2 of None \<Rightarrow> None | Some (e, r3) \<Rightarrow> Some (i @ f @ e, r3))"

definition scan_number :: "string \<Rightarrow> (string \<times> string) option" where
  "scan_number s =
     (case s of
        [] \<Rightarrow> None
      | c # cs \<Rightarrow>
          if c = CHR ''-'' then map_option (\<lambda>(t, r). (c # t, r)) (scan_unsigned cs)
          else scan_unsigned s)"

definition scan_literal :: "string \<Rightarrow> (json \<times> string) option" where
  "scan_literal s =
     (if take 4 s = ''null'' then Some (JNull, drop 4 s)
      else if take 4 s = ''true'' then Some (JBool True, drop 4 s)
      else if take 5 s = ''false'' then Some (JBool False, drop 5 s)
      else None)"

text \<open>
  Strings. \<open>parse_escape\<close> reads what follows a backslash; a surrogate that is not half of
  a pair becomes the replacement character, and so does every byte that starts no valid
  UTF-8 sequence. Control characters are not allowed inside a string.
\<close>

definition hex_val :: "char \<Rightarrow> nat option" where
  "hex_val c =
     (let k = of_char c :: nat in
      if 48 \<le> k \<and> k \<le> 57 then Some (k - 48)
      else if 97 \<le> k \<and> k \<le> 102 then Some (k - 87)
      else if 65 \<le> k \<and> k \<le> 70 then Some (k - 55)
      else None)"

fun get_u4 :: "string \<Rightarrow> (nat \<times> string) option" where
  "get_u4 (a # b # c # d # r) =
     (case hex_val a of None \<Rightarrow> None | Some p \<Rightarrow>
      case hex_val b of None \<Rightarrow> None | Some q \<Rightarrow>
      case hex_val c of None \<Rightarrow> None | Some s \<Rightarrow>
      case hex_val d of None \<Rightarrow> None | Some t \<Rightarrow> Some (p * 4096 + q * 256 + s * 16 + t, r))"
| "get_u4 s = None"

definition is_surrogate :: "nat \<Rightarrow> bool" where
  "is_surrogate n \<longleftrightarrow> 55296 \<le> n \<and> n \<le> 57343"

text \<open>The low half of a surrogate pair, when an escape for one follows.\<close>

definition low_surrogate :: "string \<Rightarrow> (nat \<times> string) option" where
  "low_surrogate s =
     (if take 2 s = [backslash_ch, CHR ''u''] then
        (case get_u4 (drop 2 s) of
           None \<Rightarrow> None
         | Some (n, r) \<Rightarrow> if 56320 \<le> n \<and> n \<le> 57343 then Some (n, r) else None)
      else None)"

definition parse_u_escape :: "string \<Rightarrow> (string \<times> string) option" where
  "parse_u_escape s =
     (case get_u4 s of
        None \<Rightarrow> None
      | Some (n, r) \<Rightarrow>
          if is_surrogate n then
            (case (if n < 56320 then low_surrogate r else None) of
               None \<Rightarrow> Some (utf8_replacement, r)
             | Some (m, r') \<Rightarrow> Some (utf8_bytes (65536 + (n - 55296) * 1024 + (m - 56320)), r'))
          else Some (utf8_bytes n, r))"

definition parse_escape :: "string \<Rightarrow> (string \<times> string) option" where
  "parse_escape s =
     (case s of
        [] \<Rightarrow> None
      | c # r \<Rightarrow>
          if c = quote_ch \<or> c = backslash_ch \<or> c = CHR ''/'' then Some ([c], r)
          else if c = CHR ''b'' then Some ([CHR 0x08], r)
          else if c = CHR ''f'' then Some ([CHR 0x0C], r)
          else if c = CHR ''n'' then Some ([CHR 0x0A], r)
          else if c = CHR ''r'' then Some ([CHR 0x0D], r)
          else if c = CHR ''t'' then Some ([CHR 0x09], r)
          else if c = CHR ''u'' then parse_u_escape r
          else None)"

lemma get_u4_length: "get_u4 s = Some (n, r) \<Longrightarrow> length r < length s"
  by (cases s rule: get_u4.cases) (auto split: option.splits)

lemma low_surrogate_length: "low_surrogate s = Some (n, r) \<Longrightarrow> length r < length s"
  using get_u4_length [of "drop 2 s"]
  by (fastforce simp: low_surrogate_def split: if_splits option.splits prod.splits)

lemma parse_escape_length: "parse_escape s = Some (b, r) \<Longrightarrow> length r < length s"
  by (auto simp: parse_escape_def parse_u_escape_def split: list.splits if_splits option.splits
      dest!: get_u4_length low_surrogate_length)

function parse_str :: "string \<Rightarrow> (string \<times> string) option" where
  "parse_str s =
     (case s of
        [] \<Rightarrow> None
      | c # cs \<Rightarrow>
          if c = quote_ch then Some ([], cs)
          else if c = backslash_ch then
            (case parse_escape cs of
               None \<Rightarrow> None
             | Some (b, r) \<Rightarrow> map_option (\<lambda>(t, q). (b @ t, q)) (parse_str r))
          else if (of_char c :: nat) < 32 then None
          else if ascii c then map_option (\<lambda>(t, q). (c # t, q)) (parse_str cs)
          else if utf8_len s = 0 then
            map_option (\<lambda>(t, q). (utf8_replacement @ t, q)) (parse_str cs)
          else map_option (\<lambda>(t, q). (take (utf8_len s) s @ t, q))
                 (parse_str (drop (utf8_len s) s)))"
  by pat_completeness auto
termination
  by (relation "measure length") (auto dest: parse_escape_length)

declare parse_str.simps [simp del]

lemma parse_str_Nil [simp]: "parse_str [] = None"
  by (simp add: parse_str.simps)

lemma parse_str_quote [simp]: "parse_str (quote_ch # cs) = Some ([], cs)"
  by (simp add: parse_str.simps)

lemma parse_str_length: "parse_str s = Some (t, r) \<Longrightarrow> length r < length s"
proof (induction s arbitrary: t rule: parse_str.induct)
  case (1 s)
  show ?case
  proof (cases s)
    case Nil
    with "1.prems" show ?thesis by simp
  next
    case (Cons c cs)
    note IH = "1.IH" [OF Cons]
    have esc: "length r < length s"
      if "c \<noteq> quote_ch" "c = backslash_ch" "parse_escape cs = Some (b, q)"
        "parse_str q = Some (t', r)" for b q t'
      using IH(1) [OF that(1-3) refl that(4)] parse_escape_length [OF that(3)] Cons by simp
    show ?thesis
      using "1.prems" IH(2-4) esc Cons
      by (auto simp: parse_str.simps [of "c # cs"] split: if_splits option.splits
          dest: less_SucI)
  qed
qed

section \<open>Values\<close>

lemma skip_ws_length: "length (skip_ws s) \<le> length s"
  by (simp add: skip_ws_def length_dropWhile_le)

lemma skip_ws_Cons_length: "skip_ws s = c # cs \<Longrightarrow> length cs < length s"
  using skip_ws_length [of s] by simp

text \<open>
  A value, the elements of an array up to its closing bracket, and the members of an object
  up to its closing brace. \<open>d\<close> is how many more containers may be opened. The two length
  tests never fail (\<open>parse_length\<close> below); they show the recursion terminates.
\<close>

function (sequential) parse_value :: "nat \<Rightarrow> string \<Rightarrow> (json \<times> string) option"
  and parse_elements :: "nat \<Rightarrow> string \<Rightarrow> (json list \<times> string) option"
  and parse_members :: "nat \<Rightarrow> string \<Rightarrow> ((string \<times> json) list \<times> string) option"
where
  "parse_value d s =
     (case skip_ws s of
        [] \<Rightarrow> None
      | c # cs \<Rightarrow>
          if c = CHR ''{'' then
            (if d = 0 then None
             else case skip_ws cs of
                    [] \<Rightarrow> None
                  | e # es \<Rightarrow>
                      if e = CHR ''}'' then Some (JObj [], es)
                      else map_option (\<lambda>(ms, r). (JObj ms, r)) (parse_members (d - 1) cs))
          else if c = CHR ''['' then
            (if d = 0 then None
             else case skip_ws cs of
                    [] \<Rightarrow> None
                  | e # es \<Rightarrow>
                      if e = CHR '']'' then Some (JArr [], es)
                      else map_option (\<lambda>(vs, r). (JArr vs, r)) (parse_elements (d - 1) cs))
          else if c = quote_ch then map_option (\<lambda>(t, r). (JStr t, r)) (parse_str cs)
          else if c = CHR ''-'' \<or> is_digit c then
            map_option (\<lambda>(t, r). (JNum t, r)) (scan_number (c # cs))
          else scan_literal (c # cs))"
| "parse_elements d s =
     (case parse_value d s of
        None \<Rightarrow> None
      | Some (v, r) \<Rightarrow>
          (case skip_ws r of
             [] \<Rightarrow> None
           | c # cs \<Rightarrow>
               if c = CHR '']'' then Some ([v], cs)
               else if c = CHR '','' \<and> length cs < length s then
                 map_option (\<lambda>(vs, r'). (v # vs, r')) (parse_elements d cs)
               else None))"
| "parse_members d s =
     (case skip_ws s of
        [] \<Rightarrow> None
      | q # qs \<Rightarrow>
          if q \<noteq> quote_ch then None
          else case parse_str qs of
                 None \<Rightarrow> None
               | Some (k, r) \<Rightarrow>
                   (case skip_ws r of
                      [] \<Rightarrow> None
                    | c # cs \<Rightarrow>
                        if c \<noteq> CHR '':'' then None
                        else case parse_value d cs of
                               None \<Rightarrow> None
                             | Some (v, r') \<Rightarrow>
                                 (case skip_ws r' of
                                    [] \<Rightarrow> None
                                  | e # es \<Rightarrow>
                                      if e = CHR ''}'' then Some ([(k, v)], es)
                                      else if e = CHR '','' \<and> length es < length s then
                                        map_option (\<lambda>(ms, r''). ((k, v) # ms, r''))
                                          (parse_members d es)
                                      else None)))"
  by pat_completeness auto
termination
  by (relation "measures
      [\<lambda>x. case x of Inl (d, s) \<Rightarrow> length s | Inr (Inl (d, s)) \<Rightarrow> length s | Inr (Inr (d, s)) \<Rightarrow> length s,
       \<lambda>x. case x of Inl _ \<Rightarrow> 0 | Inr _ \<Rightarrow> 1]")
    (auto dest!: skip_ws_Cons_length parse_str_length)

declare parse_value.simps [simp del] parse_elements.simps [simp del] parse_members.simps [simp del]

text \<open>\<open>json.Valid\<close>: one value, and nothing but white space around it.\<close>

definition json_parse :: "string \<Rightarrow> json option" where
  "json_parse s =
     (case parse_value max_nesting_depth s of
        None \<Rightarrow> None
      | Some (v, r) \<Rightarrow> if skip_ws r = [] then Some v else None)"

definition json_valid :: "string \<Rightarrow> bool" where
  "json_valid s \<longleftrightarrow> json_parse s \<noteq> None"

text \<open>
  The first value of a stream, as \<open>json.Decoder.Decode\<close> reads it: what follows the value is
  not looked at. \<open>eof\<close> says whether the stream ends after \<open>s\<close> or breaks off with a read
  error; a value that is no container is complete only when a byte or the end follows it.
\<close>

definition json_decode_first :: "bool \<Rightarrow> string \<Rightarrow> json option" where
  "json_decode_first eof s =
     (case parse_value max_nesting_depth s of
        None \<Rightarrow> None
      | Some (v, r) \<Rightarrow>
          (case v of
             JObj ms \<Rightarrow> Some v
           | JArr vs \<Rightarrow> Some v
           | _ \<Rightarrow> if eof \<or> r \<noteq> [] then Some v else None))"

section \<open>Marshalling\<close>

text \<open>
  \<open>json.Marshal\<close> of a string: quotes, backslashes, control characters and the HTML
  characters are escaped, and so are U+2028 and U+2029; bytes that are not UTF-8 become the
  escape of the replacement character.
\<close>

definition hex_digit :: "nat \<Rightarrow> char" where
  "hex_digit n = (if n < 10 then char_of (48 + n) else char_of (87 + n))"

definition html_safe :: "char \<Rightarrow> bool" where
  "html_safe c \<longleftrightarrow> 32 \<le> (of_char c :: nat) \<and>
     c \<notin> {quote_ch, backslash_ch, CHR ''<'', CHR ''>'', CHR 0x26}"

definition u00_escape :: "char \<Rightarrow> string" where
  "u00_escape c =
     [backslash_ch, CHR ''u'', CHR ''0'', CHR ''0'',
      hex_digit (of_char c div 16), hex_digit (of_char c mod 16)]"

definition escape_char :: "char \<Rightarrow> string" where
  "escape_char c =
     (if c = quote_ch \<or> c = backslash_ch then [backslash_ch, c]
      else if c = CHR 0x08 then [backslash_ch, CHR ''b'']
      else if c = CHR 0x0C then [backslash_ch, CHR ''f'']
      else if c = CHR 0x0A then [backslash_ch, CHR ''n'']
      else if c = CHR 0x0D then [backslash_ch, CHR ''r'']
      else if c = CHR 0x09 then [backslash_ch, CHR ''t'']
      else u00_escape c)"

definition escape_rune :: "string \<Rightarrow> string" where
  "escape_rune bs =
     (if bs = [CHR 0xE2, CHR 0x80, CHR 0xA8] then backslash_ch # ''u2028''
      else if bs = [CHR 0xE2, CHR 0x80, CHR 0xA9] then backslash_ch # ''u2029''
      else bs)"

fun escape_string :: "string \<Rightarrow> string" where
  "escape_string [] = []"
| "escape_string (c # cs) =
     (if ascii c then (if html_safe c then [c] else escape_char c) @ escape_string cs
      else if utf8_len (c # cs) = 0 then (backslash_ch # ''ufffd'') @ escape_string cs
      else escape_rune (take (utf8_len (c # cs)) (c # cs)) @
           escape_string (drop (utf8_len (c # cs) - 1) cs))"

declare escape_string.simps(2) [simp del]

definition marshal_string :: "string \<Rightarrow> string" where
  "marshal_string s = quote_ch # escape_string s @ [quote_ch]"

text \<open>A whole value, compact: no white space, members in their order.\<close>

fun render :: "json \<Rightarrow> string"
  and render_elements :: "json list \<Rightarrow> string"
  and render_members :: "(string \<times> json) list \<Rightarrow> string"
where
  "render JNull = ''null''"
| "render (JBool b) = (if b then ''true'' else ''false'')"
| "render (JNum t) = t"
| "render (JStr s) = marshal_string s"
| "render (JArr []) = ''[]''"
| "render (JArr (v # vs)) = CHR ''['' # render_elements (v # vs)"
| "render (JObj []) = ''{}''"
| "render (JObj (m # ms)) = CHR ''{'' # render_members (m # ms)"
| "render_elements [] = []"
| "render_elements [v] = render v @ '']''"
| "render_elements (v # w # vs) = render v @ CHR '','' # render_elements (w # vs)"
| "render_members [] = []"
| "render_members [(k, v)] = marshal_string k @ CHR '':'' # render v @ ''}''"
| "render_members ((k, v) # m # ms) =
     marshal_string k @ CHR '':'' # render v @ CHR '','' # render_members (m # ms)"

section \<open>Reading a rendered value back\<close>

lemma hex_val_digit [simp]: "n < 16 \<Longrightarrow> hex_val (hex_digit n) = Some n"
  by (auto simp: hex_val_def hex_digit_def Let_def)

lemma parse_escape_char:
  assumes "ascii c"
  shows "parse_escape (tl (escape_char c) @ x) = Some ([c], x)"
proof -
  have "(of_char c :: nat) div 16 < 16" "\<not> is_surrogate (of_char c)"
    using assms by (auto simp: is_surrogate_def)
  moreover have "hex_val (CHR ''0'') = Some 0" by (simp add: hex_val_def)
  ultimately show ?thesis
    using assms
    by (auto simp: escape_char_def parse_escape_def u00_escape_def parse_u_escape_def
        utf8_bytes_def)
qed

lemma escape_char_Cons: "\<exists>e es. escape_char c = backslash_ch # e # es"
  by (auto simp: escape_char_def u00_escape_def)

lemma parse_str_escape:
  "parse_escape e = Some (b, x) \<Longrightarrow>
    parse_str (backslash_ch # e) = map_option (\<lambda>(t, q). (b @ t, q)) (parse_str x)"
  by (subst parse_str.simps) simp

lemma parse_str_safe:
  "ascii c \<Longrightarrow> html_safe c \<Longrightarrow>
    parse_str (c # x) = map_option (\<lambda>(t, q). (c # t, q)) (parse_str x)"
  by (subst parse_str.simps) (auto simp: html_safe_def)

lemma parse_str_rune:
  assumes "\<not> ascii c" and "utf8_len (c # cs) \<noteq> 0"
  shows "parse_str (escape_rune (take (utf8_len (c # cs)) (c # cs)) @ x) =
    map_option (\<lambda>(t, q). (take (utf8_len (c # cs)) (c # cs) @ t, q)) (parse_str x)"
proof -
  let ?n = "utf8_len (c # cs)" and ?bs = "take (utf8_len (c # cs)) (c # cs)"
  obtain m where m: "?n = Suc m" using assms(2) by (cases ?n) auto
  have raw: "parse_str (?bs @ x) = map_option (\<lambda>(t, q). (?bs @ t, q)) (parse_str x)"
  proof -
    have len: "utf8_len (?bs @ x) = ?n" by (rule utf8_len_append [OF assms(2)])
    have bs: "?bs @ x = c # take m cs @ x" by (simp add: m)
    have "length ?bs = ?n" using utf8_len_le [of "c # cs"] by (simp add: min_def)
    then have "take ?n (?bs @ x) = ?bs" "drop ?n (?bs @ x) = x" by simp_all
    then show ?thesis
      using assms len unfolding bs by (subst parse_str.simps) auto
  qed
  have esc: "parse_str (backslash_ch # CHR ''u'' # CHR ''2'' # CHR ''0'' # CHR ''2'' # d # x) =
      map_option (\<lambda>(t, q). ([CHR 0xE2, CHR 0x80, b] @ t, q)) (parse_str x)"
    if "d = CHR ''8'' \<and> b = CHR 0xA8 \<or> d = CHR ''9'' \<and> b = CHR 0xA9" for d b
    by (rule parse_str_escape)
      (use that in \<open>auto simp: parse_escape_def parse_u_escape_def hex_val_def is_surrogate_def
        utf8_bytes_def char_of_eq_iff\<close>)
  show ?thesis
    using raw esc [of "CHR ''8''" "CHR 0xA8"] esc [of "CHR ''9''" "CHR 0xA9"]
    by (auto simp: escape_rune_def)
qed

lemma parse_str_escape_string:
  "utf8_valid s \<Longrightarrow> parse_str (escape_string s @ quote_ch # x) = Some (s, x)"
proof (induction s rule: escape_string.induct)
  case 1
  then show ?case by simp
next
  case (2 c cs)
  show ?case
  proof (cases "ascii c")
    case True
    then have IH: "parse_str (escape_string cs @ quote_ch # x) = Some (cs, x)"
      using 2 by simp
    obtain e es where esc: "escape_char c = backslash_ch # e # es"
      using escape_char_Cons by blast
    show ?thesis
      using True IH parse_escape_char [OF True]
      by (cases "html_safe c")
        (auto simp: escape_string.simps(2) parse_str_safe esc intro!: parse_str_escape [THEN trans])
  next
    case False
    let ?n = "utf8_len (c # cs)"
    have n: "?n \<noteq> 0" and v: "utf8_valid (drop (?n - 1) cs)"
      using False "2.prems" by auto
    then have IH: "parse_str (escape_string (drop (?n - 1) cs) @ quote_ch # x) =
        Some (drop (?n - 1) cs, x)"
      using False "2.IH"(3) by simp
    have "take ?n (c # cs) @ drop (?n - 1) cs = c # cs"
      using n by (cases ?n) auto
    then show ?thesis
      using False n IH by (simp add: escape_string.simps(2) parse_str_rune)
  qed
qed

text \<open>A number literal ends where the next byte cannot continue it.\<close>

definition num_stop :: "string \<Rightarrow> bool" where
  "num_stop x \<longleftrightarrow> (case x of [] \<Rightarrow> True | c # cs \<Rightarrow>
     \<not> is_digit c \<and> c \<notin> {CHR ''.'', CHR ''e'', CHR ''E''})"

definition num_ok :: "string \<Rightarrow> bool" where
  "num_ok t \<longleftrightarrow> scan_number t = Some (t, [])"

lemma digits_stop:
  assumes "num_stop x"
  shows "takeWhile is_digit (s @ x) = takeWhile is_digit s"
    and "dropWhile is_digit (s @ x) = dropWhile is_digit s @ x"
  using assms by (induction s) (auto simp: num_stop_def split: list.splits)

lemma scan_digits1_append:
  "scan_digits1 s = Some (t, r) \<Longrightarrow> num_stop x \<Longrightarrow> scan_digits1 (s @ x) = Some (t, r @ x)"
  by (auto simp: scan_digits1_def digits_stop split: if_splits)

lemma scan_int_append:
  "scan_int s = Some (t, r) \<Longrightarrow> num_stop x \<Longrightarrow> scan_int (s @ x) = Some (t, r @ x)"
  by (cases s) (auto simp: scan_int_def digits_stop split: if_splits)

lemma scan_frac_append:
  "scan_frac s = Some (t, r) \<Longrightarrow> num_stop x \<Longrightarrow> scan_frac (s @ x) = Some (t, r @ x)"
  by (cases s) (auto simp: scan_frac_def num_stop_def scan_digits1_append split: if_splits list.splits)

lemma scan_digits1_append_Cons:
  "scan_digits1 (c # s) = Some (t, r) \<Longrightarrow> num_stop x \<Longrightarrow> scan_digits1 (c # s @ x) = Some (t, r @ x)"
  using scan_digits1_append [of "c # s"] by simp

lemma scan_exp_stop: "num_stop x \<Longrightarrow> scan_exp x = Some ([], x)"
  by (cases x) (auto simp: num_stop_def scan_exp_def)

lemma scan_exp_append:
  "scan_exp s = Some (t, r) \<Longrightarrow> num_stop x \<Longrightarrow> scan_exp (s @ x) = Some (t, r @ x)"
  by (cases s)
    (auto simp: scan_exp_stop, auto simp: scan_exp_def scan_digits1_append scan_digits1_append_Cons
      split: if_splits list.splits)

lemma scan_unsigned_append:
  "scan_unsigned s = Some (t, r) \<Longrightarrow> num_stop x \<Longrightarrow> scan_unsigned (s @ x) = Some (t, r @ x)"
  by (auto simp: scan_unsigned_def scan_int_append scan_frac_append scan_exp_append
      split: option.splits)

lemma scan_number_append:
  "num_ok t \<Longrightarrow> num_stop x \<Longrightarrow> scan_number (t @ x) = Some (t, x)"
  using scan_unsigned_append [of "tl t"] scan_unsigned_append [of t]
  by (cases t) (auto simp: num_ok_def scan_number_def split: if_splits)

lemma num_ok_first: "num_ok t \<Longrightarrow> \<exists>c cs. t = c # cs \<and> (c = CHR ''-'' \<or> is_digit c)"
  by (cases t) (auto simp: num_ok_def scan_number_def scan_unsigned_def scan_int_def is_digit_def
      split: if_splits option.splits)

text \<open>What makes a value renderable: UTF-8 strings, proper number literals, bounded nesting.\<close>

fun json_wf :: "nat \<Rightarrow> json \<Rightarrow> bool" where
  "json_wf d JNull = True"
| "json_wf d (JBool b) = True"
| "json_wf d (JNum t) = num_ok t"
| "json_wf d (JStr s) = utf8_valid s"
| "json_wf d (JArr vs) = (d \<noteq> 0 \<and> (\<forall>v\<in>set vs. json_wf (d - 1) v))"
| "json_wf d (JObj ms) = (d \<noteq> 0 \<and> (\<forall>(k, v)\<in>set ms. utf8_valid k \<and> json_wf (d - 1) v))"

lemma skip_ws_ink [simp]: "\<not> is_space c \<Longrightarrow> skip_ws (c # cs) = c # cs"
  by (simp add: skip_ws_def)

lemma skip_ws_Nil [simp]: "skip_ws [] = []"
  by (simp add: skip_ws_def)

lemma is_space_punct [simp]:
  "\<not> is_space CHR ''{''" "\<not> is_space CHR ''}''" "\<not> is_space CHR ''[''" "\<not> is_space CHR '']''"
  "\<not> is_space CHR '',''" "\<not> is_space CHR '':''" "\<not> is_space quote_ch" "\<not> is_space CHR ''-''"
  "\<not> is_space CHR ''n''" "\<not> is_space CHR ''t''" "\<not> is_space CHR ''f''"
  by (simp_all add: is_space_def)

lemma num_stop_punct [simp]:
  "num_stop (CHR '','' # x)" "num_stop (CHR '']'' # x)" "num_stop (CHR ''}'' # x)" "num_stop []"
  by (simp_all add: num_stop_def is_digit_def)

lemma is_digit_not_punct [simp]:
  "is_digit c \<Longrightarrow> c \<noteq> CHR ''{''" "is_digit c \<Longrightarrow> c \<noteq> CHR ''[''" "is_digit c \<Longrightarrow> c \<noteq> quote_ch"
  "is_digit c \<Longrightarrow> c \<noteq> CHR ''}''" "is_digit c \<Longrightarrow> c \<noteq> CHR '']''" "is_digit c \<Longrightarrow> \<not> is_space c"
  by (auto simp: is_digit_def is_space_def)

lemma render_container_first:
  "\<exists>cs. render (JArr vs) = CHR ''['' # cs" "\<exists>cs. render (JObj ms) = CHR ''{'' # cs"
  by (cases vs; simp) (cases ms; simp)

lemma render_first:
  assumes "json_wf d v"
  shows "\<exists>c cs. render v = c # cs \<and> \<not> is_space c \<and> c \<noteq> CHR '']'' \<and> c \<noteq> CHR ''}''"
proof (cases v)
  case (JNum t)
  then obtain c cs where "t = c # cs" "c = CHR ''-'' \<or> is_digit c"
    using assms num_ok_first [of t] by auto
  then show ?thesis using JNum is_digit_not_punct [of c] by (auto simp: is_digit_def)
next
  case (JArr vs)
  then show ?thesis using render_container_first(1) [of vs] by auto
next
  case (JObj ms)
  then show ?thesis using render_container_first(2) [of ms] by auto
qed (simp_all add: marshal_string_def)

lemma parse_render_number:
  assumes "num_ok t" and "num_stop x"
  shows "parse_value d (t @ x) = Some (JNum t, x)"
proof -
  obtain c cs where t: "t = c # cs" and c: "c = CHR ''-'' \<or> is_digit c"
    using num_ok_first [OF assms(1)] by blast
  then have ink: "\<not> is_space c" "c \<noteq> CHR ''{''" "c \<noteq> CHR ''[''" "c \<noteq> quote_ch"
    by (auto dest: is_digit_not_punct)
  have "scan_number (c # cs @ x) = Some (t, x)"
    using scan_number_append [OF assms] t by simp
  then show ?thesis
    using ink c by (simp add: parse_value.simps [of d "c # cs @ x"] t)
qed

lemma parse_render_string:
  "utf8_valid s \<Longrightarrow> parse_value d (marshal_string s @ x) = Some (JStr s, x)"
  by (subst parse_value.simps) (simp add: marshal_string_def parse_str_escape_string)

lemma skip_ws_render:
  assumes "json_wf d v"
  shows "skip_ws (render v @ x) = render v @ x"
  using render_first [OF assms] by auto

lemma parse_value_open:
  assumes "d \<noteq> 0" and "skip_ws s = c # cs"
  shows "c \<noteq> CHR '']'' \<Longrightarrow> parse_value d (CHR ''['' # s) =
      map_option (\<lambda>(vs, r). (JArr vs, r)) (parse_elements (d - 1) s)"
    and "c \<noteq> CHR ''}'' \<Longrightarrow> parse_value d (CHR ''{'' # s) =
      map_option (\<lambda>(ms, r). (JObj ms, r)) (parse_members (d - 1) s)"
  using assms by (simp_all add: parse_value.simps [of d "c # s" for c s])

lemma parse_value_empty:
  "d \<noteq> 0 \<Longrightarrow> parse_value d (CHR ''['' # CHR '']'' # x) = Some (JArr [], x)"
  "d \<noteq> 0 \<Longrightarrow> parse_value d (CHR ''{'' # CHR ''}'' # x) = Some (JObj [], x)"
  by (simp_all add: parse_value.simps)

lemma parse_value_literal:
  "parse_value d (''null'' @ x) = Some (JNull, x)"
  "parse_value d (''true'' @ x) = Some (JBool True, x)"
  "parse_value d (''false'' @ x) = Some (JBool False, x)"
  by (simp_all add: parse_value.simps scan_literal_def is_digit_def)

lemma parse_elements_step:
  assumes "parse_value d s = Some (v, c # r)"
  shows "c = CHR '']'' \<Longrightarrow> parse_elements d s = Some ([v], r)"
    and "c = CHR '','' \<Longrightarrow> length r < length s \<Longrightarrow>
      parse_elements d s = map_option (\<lambda>(vs, r'). (v # vs, r')) (parse_elements d r)"
  using assms by (simp_all add: parse_elements.simps [of d s])

lemma parse_members_step:
  assumes "utf8_valid k"
    and "parse_value d (s @ x) = Some (v, c # r)"
  shows "c = CHR ''}'' \<Longrightarrow>
      parse_members d (marshal_string k @ CHR '':'' # s @ x) = Some ([(k, v)], r)"
    and "c = CHR '','' \<Longrightarrow> length r < length (s @ x) \<Longrightarrow>
      parse_members d (marshal_string k @ CHR '':'' # s @ x) =
        map_option (\<lambda>(ms, r'). ((k, v) # ms, r')) (parse_members d r)"
  using assms
  by (simp_all add: parse_members.simps [of d "quote_ch # y" for y] marshal_string_def
      parse_str_escape_string)

text \<open>Decoding what \<open>json.Marshal\<close> wrote gives the value back, up to the text that follows it.\<close>

lemma parse_render:
  "json_wf d v \<Longrightarrow> num_stop x \<Longrightarrow> parse_value d (render v @ x) = Some (v, x)"
  "vs \<noteq> [] \<Longrightarrow> \<forall>v\<in>set vs. json_wf d v \<Longrightarrow>
     parse_elements d (render_elements vs @ x) = Some (vs, x)"
  "ms \<noteq> [] \<Longrightarrow> \<forall>(k, v)\<in>set ms. utf8_valid k \<and> json_wf d v \<Longrightarrow>
     parse_members d (render_members ms @ x) = Some (ms, x)"
proof (induction v and vs and ms arbitrary: d x and d x and d x
    rule: render_render_elements_render_members.induct)
  case 1
  show ?case using parse_value_literal(1) by simp
next
  case (2 b)
  show ?case using parse_value_literal(2,3) by simp
next
  case (3 t)
  then show ?case by (simp add: parse_render_number)
next
  case (4 s)
  then show ?case by (simp add: parse_render_string)
next
  case 5
  then show ?case by (simp add: parse_value_empty)
next
  case (6 v vs)
  then have IH: "parse_elements (d - 1) (render_elements (v # vs) @ x) = Some (v # vs, x)"
    and wf: "json_wf (d - 1) v" and d: "d \<noteq> 0" by auto
  obtain c cs where "skip_ws (render_elements (v # vs) @ x) = c # cs" "c \<noteq> CHR '']''"
    using render_first [OF wf] by (cases vs) auto
  then show ?case using parse_value_open(1) [OF d] IH by simp
next
  case 7
  then show ?case by (simp add: parse_value_empty)
next
  case (8 m ms)
  then have IH: "parse_members (d - 1) (render_members (m # ms) @ x) = Some (m # ms, x)"
    and d: "d \<noteq> 0" by auto
  obtain cs where "skip_ws (render_members (m # ms) @ x) = quote_ch # cs"
    by (cases m; cases ms) (auto simp: marshal_string_def)
  then show ?case using parse_value_open(2) [OF d] IH by simp
next
  case 9
  then show ?case by simp
next
  case (10 v)
  then have "parse_value d (render v @ CHR '']'' # x) = Some (v, CHR '']'' # x)" by simp
  then show ?case by (simp add: parse_elements_step(1))
next
  case (11 v w vs)
  let ?r = "render_elements (w # vs) @ x"
  have "parse_value d (render v @ CHR '','' # ?r) = Some (v, CHR '','' # ?r)"
    using 11 by simp
  moreover have "parse_elements d ?r = Some (w # vs, x)" using 11 by simp
  ultimately show ?case by (simp add: parse_elements_step(2))
next
  case 12
  then show ?case by simp
next
  case (13 k v)
  then have "parse_value d (render v @ CHR ''}'' # x) = Some (v, CHR ''}'' # x)" by simp
  with 13 show ?case by (simp add: parse_members_step(1))
next
  case (14 k v m ms)
  let ?r = "render_members (m # ms) @ x"
  have "parse_value d (render v @ CHR '','' # ?r) = Some (v, CHR '','' # ?r)"
    using 14 by simp
  moreover have "parse_members d ?r = Some (m # ms, x)" using 14 by simp
  ultimately show ?case using 14 by (simp add: parse_members_step(2))
qed

lemma json_parse_render: "json_wf max_nesting_depth v \<Longrightarrow> json_parse (render v) = Some v"
  using parse_render(1) [of max_nesting_depth v "[]"] by (simp add: json_parse_def)

lemma json_valid_render: "json_wf max_nesting_depth v \<Longrightarrow> json_valid (render v)"
  by (simp add: json_valid_def json_parse_render)

end
