(* ===== verification/RegistryClient.thy ===== *)
theory RegistryClient
  imports World GoJson
begin

text \<open>
  The HTTP client of \<open>internal/client/client.go\<close>: its configuration and wire types, the
  construction of the client, one definition per request it makes, and the authentication
  header. An operation takes the environment and the world and returns its Go result with
  the new world; an \<open>(T, error)\<close> result is a sum.
\<close>

section \<open>Types\<close>

record AuthConfig =
  ac_type :: string
  ac_username :: string
  ac_password :: string
  ac_bearerToken :: string
  ac_clientCert :: TlsCertificate
  ac_caCert :: "CertPool option"

record SchemaRegistryClient =
  c_baseURL :: string
  c_httpClient :: HttpClient
  c_auth :: AuthConfig

record SchemaResponse =
  res_id :: go_int
  res_version :: go_int
  res_schema :: string

record ClientReference =
  cref_name :: string
  cref_subject :: string
  cref_version :: go_int

record RegisterSchemaRequest =
  rq_schema :: string
  rq_schemaType :: string
  rq_references :: "ClientReference list"

section \<open>JSON of the wire types\<close>

definition reference_json :: "ClientReference \<Rightarrow> json" where
  "reference_json r =
     JObj [(''name'', JStr (cref_name r)), (''subject'', JStr (cref_subject r)),
           (''version'', JNum (fmt_d (cref_version r)))]"

definition request_json :: "RegisterSchemaRequest \<Rightarrow> json" where
  "request_json q =
     JObj ([(''schema'', JStr (rq_schema q)), (''schemaType'', JStr (rq_schemaType q))] @
           (if rq_references q = [] then []
            else [(''references'', JArr (map reference_json (rq_references q)))]))"

text \<open>Marshalling these structs cannot fail: they hold strings, integers and a slice of such.\<close>

definition marshal_request :: "RegisterSchemaRequest \<Rightarrow> go_error + string" where
  "marshal_request q = Inr (render (request_json q))"

definition marshal_compatibility :: "string \<Rightarrow> go_error + string" where
  "marshal_compatibility level = Inr (render (JObj [(''compatibility'', JStr level)]))"

text \<open>
  Unmarshalling into a struct: members are stored in their order, a key matches a field
  by name or by case folding (under which U+017F is an \<open>s\<close> and U+212A a \<open>k\<close>), other keys
  are skipped, \<open>null\<close> leaves a field alone, and a value of the wrong type makes the whole
  call return an error.
\<close>

definition upper_ascii :: "char \<Rightarrow> char" where
  "upper_ascii c = (if byte_in 97 122 c then char_of (of_char c - 32 :: nat) else c)"

fun fold_key :: "string \<Rightarrow> string" where
  "fold_key [] = []"
| "fold_key (c # cs) =
     (if take 2 (c # cs) = [CHR 0xC5, CHR 0xBF] then CHR ''S'' # fold_key (drop 1 cs)
      else if take 3 (c # cs) = [CHR 0xE2, CHR 0x84, CHR 0xAA] then CHR ''K'' # fold_key (drop 2 cs)
      else upper_ascii c # fold_key cs)"

definition store_int :: "json \<Rightarrow> go_int \<Rightarrow> go_int option" where
  "store_int v old =
     (case v of
        JNum t \<Rightarrow> parse_int64 t
      | JNull \<Rightarrow> Some old
      | _ \<Rightarrow> None)"

definition store_string :: "json \<Rightarrow> string \<Rightarrow> string option" where
  "store_string v old =
     (case v of
        JStr t \<Rightarrow> Some t
      | JNull \<Rightarrow> Some old
      | _ \<Rightarrow> None)"

definition store_id :: "string \<Rightarrow> json \<Rightarrow> go_int \<Rightarrow> go_int option" where
  "store_id k v old = (if fold_key k = ''ID'' then store_int v old else Some old)"

definition store_response :: "string \<Rightarrow> json \<Rightarrow> SchemaResponse \<Rightarrow> SchemaResponse option" where
  "store_response k v r =
     (if fold_key k = ''ID'' then map_option (\<lambda>i. r\<lparr>res_id := i\<rparr>) (store_int v (res_id r))
      else if fold_key k = ''VERSION'' then
        map_option (\<lambda>i. r\<lparr>res_version := i\<rparr>) (store_int v (res_version r))
      else if fold_key k = ''SCHEMA'' then
        map_option (\<lambda>t. r\<lparr>res_schema := t\<rparr>) (store_string v (res_schema r))
      else Some r)"

primrec store_members :: "(string \<Rightarrow> json \<Rightarrow> 'a \<Rightarrow> 'a option) \<Rightarrow> (string \<times> json) list \<Rightarrow> 'a \<Rightarrow> 'a option" where
  "store_members st [] a = Some a"
| "store_members st (m # ms) a =
     (case st (fst m) (snd m) a of None \<Rightarrow> None | Some b \<Rightarrow> store_members st ms b)"

definition store_struct :: "(string \<Rightarrow> json \<Rightarrow> 'a \<Rightarrow> 'a option) \<Rightarrow> 'a \<Rightarrow> json \<Rightarrow> 'a option" where
  "store_struct st zero v =
     (case v of
        JObj ms \<Rightarrow> store_members st ms zero
      | JNull \<Rightarrow> Some zero
      | _ \<Rightarrow> None)"

text \<open>\<open>json.Unmarshal(respBody, &idResp)\<close> and \<open>json.NewDecoder(resp.Body).Decode(&result)\<close>.\<close>

definition unmarshal_id :: "string \<Rightarrow> go_int option" where
  "unmarshal_id body =
     (case json_parse body of None \<Rightarrow> None | Some v \<Rightarrow> store_struct store_id 0 v)"

definition decode_response :: "HttpResponse \<Rightarrow> SchemaResponse option" where
  "decode_response resp =
     (case json_decode_first (resp_body_error resp = None) (resp_body resp) of
        None \<Rightarrow> None
      | Some v \<Rightarrow> store_struct store_response \<lparr>res_id = 0, res_version = 0, res_schema = []\<rparr> v)"

section \<open>The client\<close>

definition NewClient ::
  "string \<Rightarrow> AuthConfig \<Rightarrow> duration \<Rightarrow> bool \<Rightarrow> go_error + SchemaRegistryClient" where
  "NewClient baseURL auth timeout insecureSkipVerify =
     (let tlsConfig =
            \<lparr>tls_insecureSkipVerify = insecureSkipVerify, tls_certificates = [], tls_rootCAs = None\<rparr>;
          tlsConfig' =
            (if ac_type auth = ''MTLS'' then
               (let t = tlsConfig\<lparr>tls_certificates := [ac_clientCert auth]\<rparr> in
                case ac_caCert auth of None \<Rightarrow> t | Some pool \<Rightarrow> t\<lparr>tls_rootCAs := Some pool\<rparr>)
             else tlsConfig)
      in Inr \<lparr>c_baseURL = baseURL,
              c_httpClient = \<lparr>hc_timeout = timeout, hc_tls = tlsConfig'\<rparr>,
              c_auth = auth\<rparr>)"

definition addAuth :: "SchemaRegistryClient \<Rightarrow> HttpRequest \<Rightarrow> HttpRequest" where
  "addAuth c req =
     (if ac_type (c_auth c) = ''BASIC'' then
        set_basic_auth (ac_username (c_auth c)) (ac_password (c_auth c)) req
      else if ac_type (c_auth c) = ''BEARER'' then
        header_set ''Authorization'' (''Bearer '' @ ac_bearerToken (c_auth c)) req
      else req)"

text \<open>
  \<open>http.NewRequestWithContext\<close> parses the URL string. The request keeps the string; whether it is
  accepted is the environment's, and \<open>GoUrl.request_target\<close> is what goes out for it.
\<close>

definition new_request ::
  "'w env \<Rightarrow> string \<Rightarrow> string \<Rightarrow> string option \<Rightarrow> go_error + HttpRequest" where
  "new_request E meth url body =
     (case env_new_request_error E meth url of
        Some e \<Rightarrow> Inl e
      | None \<Rightarrow> Inr \<lparr>req_method = meth, req_url = url, req_headers = [], req_body = body\<rparr>)"

definition content_type_json :: "HttpRequest \<Rightarrow> HttpRequest" where
  "content_type_json r = header_set ''Content-Type'' ''application/vnd.schemaregistry.v1+json'' r"

definition subjects_url :: "SchemaRegistryClient \<Rightarrow> string" where
  "subjects_url c = c_baseURL c @ ''/subjects''"

definition versions_url :: "SchemaRegistryClient \<Rightarrow> string \<Rightarrow> string" where
  "versions_url c subject = c_baseURL c @ ''/subjects/'' @ subject @ ''/versions''"

definition latest_url :: "SchemaRegistryClient \<Rightarrow> string \<Rightarrow> string" where
  "latest_url c subject = c_baseURL c @ ''/subjects/'' @ subject @ ''/versions/latest''"

definition subject_url :: "SchemaRegistryClient \<Rightarrow> string \<Rightarrow> string" where
  "subject_url c subject = c_baseURL c @ ''/subjects/'' @ subject"

definition config_url :: "SchemaRegistryClient \<Rightarrow> string \<Rightarrow> string" where
  "config_url c subject = c_baseURL c @ ''/config/'' @ subject"

definition HealthCheck ::
  "'w env \<Rightarrow> SchemaRegistryClient \<Rightarrow> 'w world \<Rightarrow> go_error option \<times> 'w world" where
  "HealthCheck E c w =
     (case new_request E MethodGet (subjects_url c) None of
        Inl err \<Rightarrow> (Some err, w)
      | Inr req \<Rightarrow>
          (case http_do E (c_httpClient c) (addAuth c req) w of
             (Inl err, w1) \<Rightarrow> (Some (errorf_w ''health check failed: '' err), w1)
           | (Inr resp, w1) \<Rightarrow>
               if resp_status resp \<noteq> StatusOK
               then (Some (errorf (''health check failed with status: '' @ fmt_d (resp_status resp))), w1)
               else (None, w1)))"

definition getLatestVersionForSubject ::
  "'w env \<Rightarrow> SchemaRegistryClient \<Rightarrow> string \<Rightarrow> 'w world \<Rightarrow> (go_error + go_int) \<times> 'w world" where
  "getLatestVersionForSubject E c subject w =
     (case new_request E MethodGet (latest_url c subject) None of
        Inl err \<Rightarrow> (Inl err, w)
      | Inr req \<Rightarrow>
          (case http_do E (c_httpClient c) (addAuth c req) w of
             (Inl err, w1) \<Rightarrow> (Inl (errorf_w ''failed to get latest version: '' err), w1)
           | (Inr resp, w1) \<Rightarrow>
               if resp_status resp \<noteq> StatusOK
               then (Inl (errorf (''get latest version failed with status: '' @ fmt_d (resp_status resp))), w1)
               else (case decode_response resp of
                       None \<Rightarrow>
                         (Inl (errorf_w ''failed to decode latest version response: ''
                            (env_json_error E (resp_body resp))), w1)
                     | Some result \<Rightarrow> (Inr (res_version result), w1))))"

definition RegisterSchema ::
  "'w env \<Rightarrow> SchemaRegistryClient \<Rightarrow> string \<Rightarrow> RegisterSchemaRequest \<Rightarrow> 'w world \<Rightarrow>
    (go_error + SchemaResponse) \<times> 'w world" where
  "RegisterSchema E c subject request w =
     (case marshal_request request of
        Inl err \<Rightarrow> (Inl (errorf_w ''failed to marshal schema request: '' err), w)
      | Inr body \<Rightarrow>
     (case new_request E MethodPost (versions_url c subject) (Some body) of
        Inl err \<Rightarrow> (Inl err, w)
      | Inr req \<Rightarrow>
     (case http_do E (c_httpClient c) (content_type_json (addAuth c req)) w of
        (Inl err, w1) \<Rightarrow> (Inl (errorf_w ''failed to register schema: '' err), w1)
      | (Inr resp, w1) \<Rightarrow>
          if resp_status resp \<noteq> StatusOK
          then (Inl (errorf (''schema registration failed with status '' @
                   fmt_d (resp_status resp) @ '': '' @ resp_body resp)), w1)
          else
            (case unmarshal_id (resp_body resp) of
               None \<Rightarrow>
                 (Inl (errorf_w ''failed to decode register response: ''
                    (env_json_error E (resp_body resp))), w1)
             | Some rid \<Rightarrow>
                 (case getLatestVersionForSubject E c subject w1 of
                    (Inl err, w2) \<Rightarrow> (Inr \<lparr>res_id = rid, res_version = 0, res_schema = []\<rparr>, w2)
                  | (Inr version, w2) \<Rightarrow>
                      (Inr \<lparr>res_id = rid, res_version = version, res_schema = []\<rparr>, w2))))))"

definition DeleteSubject ::
  "'w env \<Rightarrow> SchemaRegistryClient \<Rightarrow> string \<Rightarrow> 'w world \<Rightarrow> go_error option \<times> 'w world" where
  "DeleteSubject E c subject w =
     (case new_request E MethodDelete (subject_url c subject) None of
        Inl err \<Rightarrow> (Some err, w)
      | Inr req \<Rightarrow>
          (case http_do E (c_httpClient c) (addAuth c req) w of
             (Inl err, w1) \<Rightarrow> (Some (errorf_w ''failed to delete subject: '' err), w1)
           | (Inr resp, w1) \<Rightarrow>
               if resp_status resp = StatusNotFound then (None, w1)
               else if resp_status resp \<noteq> StatusOK
               then (Some (errorf (''delete subject failed with status '' @
                       fmt_d (resp_status resp) @ '': '' @ resp_body resp)), w1)
               else (None, w1)))"

definition SetCompatibility ::
  "'w env \<Rightarrow> SchemaRegistryClient \<Rightarrow> string \<Rightarrow> string \<Rightarrow> 'w world \<Rightarrow> go_error option \<times> 'w world" where
  "SetCompatibility E c subject level w =
     (case marshal_compatibility level of
        Inl err \<Rightarrow> (Some err, w)
      | Inr body \<Rightarrow>
     (case new_request E MethodPut (config_url c subject) (Some body) of
        Inl err \<Rightarrow> (Some err, w)
      | Inr req \<Rightarrow>
          (case http_do E (c_httpClient c) (content_type_json (addAuth c req)) w of
             (Inl err, w1) \<Rightarrow> (Some (errorf_w ''failed to set compatibility: '' err), w1)
           | (Inr resp, w1) \<Rightarrow>
               if resp_status resp \<noteq> StatusOK
               then (Some (errorf (''set compatibility failed with status '' @
                       fmt_d (resp_status resp) @ '': '' @ resp_body resp)), w1)
               else (None, w1))))"

section \<open>The requests the client sends\<close>

text \<open>
  The request of each operation as the server receives it, without the construction error
  path: the method, the URL, the body and the headers set by \<open>addAuth\<close> and, where there is a
  body, the content type.
\<close>

definition plain_request :: "SchemaRegistryClient \<Rightarrow> string \<Rightarrow> string \<Rightarrow> HttpRequest" where
  "plain_request c meth url =
     addAuth c \<lparr>req_method = meth, req_url = url, req_headers = [], req_body = None\<rparr>"

definition json_request :: "SchemaRegistryClient \<Rightarrow> string \<Rightarrow> string \<Rightarrow> string \<Rightarrow> HttpRequest" where
  "json_request c meth url body =
     content_type_json (addAuth c
       \<lparr>req_method = meth, req_url = url, req_headers = [], req_body = Some body\<rparr>)"

definition health_request :: "SchemaRegistryClient \<Rightarrow> HttpRequest" where
  "health_request c = plain_request c MethodGet (subjects_url c)"

definition delete_request :: "SchemaRegistryClient \<Rightarrow> string \<Rightarrow> HttpRequest" where
  "delete_request c subject = plain_request c MethodDelete (subject_url c subject)"

definition latest_request :: "SchemaRegistryClient \<Rightarrow> string \<Rightarrow> HttpRequest" where
  "latest_request c subject = plain_request c MethodGet (latest_url c subject)"

definition post_request :: "SchemaRegistryClient \<Rightarrow> string \<Rightarrow> RegisterSchemaRequest \<Rightarrow> HttpRequest" where
  "post_request c subject q =
     json_request c MethodPost (versions_url c subject) (render (request_json q))"

definition compat_request :: "SchemaRegistryClient \<Rightarrow> string \<Rightarrow> string \<Rightarrow> HttpRequest" where
  "compat_request c subject level =
     json_request c MethodPut (config_url c subject) (render (JObj [(''compatibility'', JStr level)]))"

lemma addAuth_frame [simp]:
  "req_method (addAuth c r) = req_method r"
  "req_url (addAuth c r) = req_url r"
  "req_body (addAuth c r) = req_body r"
  by (simp_all add: addAuth_def set_basic_auth_def)

lemma request_frame [simp]:
  "req_method (plain_request c m u) = m" "req_url (plain_request c m u) = u"
  "req_body (plain_request c m u) = None"
  "req_method (json_request c m u b) = m" "req_url (json_request c m u b) = u"
  "req_body (json_request c m u b) = Some b"
  by (simp_all add: plain_request_def json_request_def content_type_json_def)

lemmas request_defs =
  health_request_def delete_request_def latest_request_def post_request_def compat_request_def

lemma request_methods [simp]:
  "req_method (health_request c) = MethodGet"
  "req_method (delete_request c s) = MethodDelete"
  "req_method (latest_request c s) = MethodGet"
  "req_method (post_request c s q) = MethodPost"
  "req_method (compat_request c s l) = MethodPut"
  by (simp_all add: request_defs)

section \<open>Contracts\<close>

text \<open>
  What each operation sends and what its result says about the answer. A request that could
  not be built is not sent, and the operation fails.
\<close>

definition health_contract ::
  "SchemaRegistryClient \<Rightarrow> go_error option \<Rightarrow> event list \<Rightarrow> bool" where
  "health_contract c r es \<longleftrightarrow>
     (r = None \<and> (\<exists>resp. es = [HttpDone (c_httpClient c) (health_request c) (Inr resp)] \<and>
        resp_status resp = StatusOK)) \<or>
     (r \<noteq> None \<and> (es = [] \<or> (\<exists>out. es = [HttpDone (c_httpClient c) (health_request c) out] \<and>
        (\<forall>resp. out = Inr resp \<longrightarrow> resp_status resp \<noteq> StatusOK))))"

definition delete_contract ::
  "SchemaRegistryClient \<Rightarrow> string \<Rightarrow> go_error option \<Rightarrow> event list \<Rightarrow> bool" where
  "delete_contract c subject r es \<longleftrightarrow>
     (r = None \<and> (\<exists>resp. es = [HttpDone (c_httpClient c) (delete_request c subject) (Inr resp)] \<and>
        resp_status resp \<in> {StatusOK, StatusNotFound})) \<or>
     (r \<noteq> None \<and> (es = [] \<or> (\<exists>out. es = [HttpDone (c_httpClient c) (delete_request c subject) out] \<and>
        (\<forall>resp. out = Inr resp \<longrightarrow> resp_status resp \<notin> {StatusOK, StatusNotFound}))))"

definition compat_contract ::
  "SchemaRegistryClient \<Rightarrow> string \<Rightarrow> string \<Rightarrow> go_error option \<Rightarrow> event list \<Rightarrow> bool" where
  "compat_contract c subject level r es \<longleftrightarrow>
     (r = None \<and> (\<exists>resp. es = [HttpDone (c_httpClient c) (compat_request c subject level) (Inr resp)] \<and>
        resp_status resp = StatusOK)) \<or>
     (r \<noteq> None \<and> (es = [] \<or> (\<exists>out. es = [HttpDone (c_httpClient c) (compat_request c subject level) out] \<and>
        (\<forall>resp. out = Inr resp \<longrightarrow> resp_status resp \<noteq> StatusOK))))"

definition version_answer :: "(go_error + HttpResponse) \<Rightarrow> go_int option" where
  "version_answer out =
     (case out of
        Inl e \<Rightarrow> None
      | Inr resp \<Rightarrow>
          if resp_status resp = StatusOK then map_option res_version (decode_response resp) else None)"

definition latest_contract ::
  "SchemaRegistryClient \<Rightarrow> string \<Rightarrow> go_error + go_int \<Rightarrow> event list \<Rightarrow> bool" where
  "latest_contract c subject r es \<longleftrightarrow>
     (es = [] \<and> (\<exists>e. r = Inl e)) \<or>
     (\<exists>out. es = [HttpDone (c_httpClient c) (latest_request c subject) out] \<and>
        (case version_answer out of None \<Rightarrow> \<exists>e. r = Inl e | Some v \<Rightarrow> r = Inr v))"

text \<open>The ID a POST was answered with, if it was accepted.\<close>

definition registered_id :: "(go_error + HttpResponse) \<Rightarrow> go_int option" where
  "registered_id out =
     (case out of
        Inl e \<Rightarrow> None
      | Inr resp \<Rightarrow>
          if resp_status resp = StatusOK then unmarshal_id (resp_body resp) else None)"

text \<open>The version a registration reports: that of the latest-version answer, or 0 without one.\<close>

definition reported_version :: "event list \<Rightarrow> go_int" where
  "reported_version es =
     (case es of
        [HttpDone hc rq out] \<Rightarrow> (case version_answer out of None \<Rightarrow> 0 | Some v \<Rightarrow> v)
      | _ \<Rightarrow> 0)"

definition register_contract ::
  "SchemaRegistryClient \<Rightarrow> string \<Rightarrow> RegisterSchemaRequest \<Rightarrow> go_error + SchemaResponse \<Rightarrow>
    event list \<Rightarrow> bool" where
  "register_contract c subject q r es \<longleftrightarrow>
     (es = [] \<and> (\<exists>e. r = Inl e)) \<or>
     (\<exists>out es'. es = HttpDone (c_httpClient c) (post_request c subject q) out # es' \<and>
        (case registered_id out of
           None \<Rightarrow> es' = [] \<and> (\<exists>e. r = Inl e)
         | Some i \<Rightarrow>
             r = Inr \<lparr>res_id = i, res_version = reported_version es', res_schema = []\<rparr> \<and>
             (es' = [] \<or> (\<exists>out'. es' = [HttpDone (c_httpClient c) (latest_request c subject) out']))))"

lemma new_request_cases:
  "(\<exists>e. new_request E m u b = Inl e) \<or>
   new_request E m u b = Inr \<lparr>req_method = m, req_url = u, req_headers = [], req_body = b\<rparr>"
  by (auto simp: new_request_def split: option.splits)

lemma HealthCheck_emits:
  assumes "HealthCheck E c w = (r, w')"
  shows "\<exists>es. log w' = log w @ es \<and> health_contract c r es"
  using assms new_request_cases [of E MethodGet "subjects_url c" None]
  by (auto simp: HealthCheck_def health_contract_def health_request_def plain_request_def
      dest!: op_log split: prod.splits sum.splits if_splits)

lemma DeleteSubject_emits:
  assumes "DeleteSubject E c subject w = (r, w')"
  shows "\<exists>es. log w' = log w @ es \<and> delete_contract c subject r es"
  using assms new_request_cases [of E MethodDelete "subject_url c subject" None]
  by (auto simp: DeleteSubject_def delete_contract_def delete_request_def plain_request_def
      dest!: op_log split: prod.splits sum.splits if_splits)

lemma SetCompatibility_emits:
  assumes "SetCompatibility E c subject level w = (r, w')"
  shows "\<exists>es. log w' = log w @ es \<and> compat_contract c subject level r es"
  using assms new_request_cases [of E MethodPut "config_url c subject"
      "Some (render (JObj [(''compatibility'', JStr level)]))"]
  by (auto simp: SetCompatibility_def marshal_compatibility_def compat_contract_def compat_request_def
      json_request_def simp del: render.simps
      dest!: op_log split: prod.splits sum.splits if_splits)

lemma getLatestVersion_emits:
  assumes "getLatestVersionForSubject E c subject w = (r, w')"
  shows "\<exists>es. log w' = log w @ es \<and> latest_contract c subject r es"
proof (cases "new_request E MethodGet (latest_url c subject) None")
  case (Inl e)
  then show ?thesis
    using assms by (auto simp: getLatestVersionForSubject_def latest_contract_def)
next
  case (Inr req)
  then have req: "addAuth c req = latest_request c subject"
    using new_request_cases [of E MethodGet "latest_url c subject" None]
    by (auto simp: latest_request_def plain_request_def)
  obtain out w1 where h: "http_do E (c_httpClient c) (latest_request c subject) w = (out, w1)"
    by (cases "http_do E (c_httpClient c) (latest_request c subject) w")
  have "w' = w1 \<and> (case version_answer out of None \<Rightarrow> \<exists>e. r = Inl e | Some v \<Rightarrow> r = Inr v)"
    using assms
    by (auto simp: getLatestVersionForSubject_def Inr req h version_answer_def
        split: sum.splits if_splits option.splits)
  then show ?thesis
    using op_log(9) [OF h] by (auto simp: latest_contract_def)
qed

lemma latest_contract_version:
  "latest_contract c subject r es \<Longrightarrow>
    (case r of Inl e \<Rightarrow> 0 | Inr v \<Rightarrow> v) = reported_version es \<and>
    (es = [] \<or> (\<exists>out. es = [HttpDone (c_httpClient c) (latest_request c subject) out]))"
  by (auto simp: latest_contract_def reported_version_def split: option.splits)

lemma RegisterSchema_emits:
  assumes "RegisterSchema E c subject q w = (r, w')"
  shows "\<exists>es. log w' = log w @ es \<and> register_contract c subject q r es"
proof -
  let ?req = "\<lparr>req_method = MethodPost, req_url = versions_url c subject, req_headers = [],
    req_body = Some (render (request_json q))\<rparr>"
  have post: "content_type_json (addAuth c ?req) = post_request c subject q"
    by (simp add: post_request_def json_request_def)
  show ?thesis
  proof (cases "new_request E MethodPost (versions_url c subject) (Some (render (request_json q)))")
    case (Inl e)
    then show ?thesis
      using assms by (auto simp: RegisterSchema_def marshal_request_def register_contract_def)
  next
    case (Inr req)
    then have req: "req = ?req"
      using new_request_cases [of E MethodPost "versions_url c subject" "Some (render (request_json q))"]
      by auto
    obtain out w1 where h: "http_do E (c_httpClient c) (post_request c subject q) w = (out, w1)"
      by (cases "http_do E (c_httpClient c) (post_request c subject q) w")
    note l1 = op_log(9) [OF h]
    obtain v w2 where g: "getLatestVersionForSubject E c subject w1 = (v, w2)"
      by (cases "getLatestVersionForSubject E c subject w1")
    obtain es' where l2: "log w2 = log w1 @ es'" and lc: "latest_contract c subject v es'"
      using getLatestVersion_emits [OF g] by blast
    note ver = latest_contract_version [OF lc]
    show ?thesis
    proof (cases "registered_id out")
      case None
      then have "w' = w1 \<and> (\<exists>e. r = Inl e)"
        using assms h
        by (auto simp: RegisterSchema_def marshal_request_def Inr req post registered_id_def
            split: sum.splits if_splits option.splits)
      with None l1 show ?thesis by (auto simp: register_contract_def)
    next
      case (Some i)
      then have "w' = w2 \<and> r = Inr \<lparr>res_id = i, res_version = reported_version es', res_schema = []\<rparr>"
        using assms h g ver
        by (auto simp: RegisterSchema_def marshal_request_def Inr req post registered_id_def
            split: sum.splits if_splits option.splits)
      with Some l1 l2 ver show ?thesis by (auto simp: register_contract_def)
    qed
  qed
qed

interpretation health_op: logged_op "HealthCheck E c" "health_contract c" for E c
  by unfold_locales (rule HealthCheck_emits)

interpretation delete_op: logged_op "DeleteSubject E c subject" "delete_contract c subject"
  for E c subject
  by unfold_locales (rule DeleteSubject_emits)

interpretation compat_op: logged_op "SetCompatibility E c subject level" "compat_contract c subject level"
  for E c subject level
  by unfold_locales (rule SetCompatibility_emits)

interpretation register_op: logged_op "RegisterSchema E c subject q" "register_contract c subject q"
  for E c subject q
  by unfold_locales (rule RegisterSchema_emits)

end
