(* ===== verification/AuthLoader.thy ===== *)
theory AuthLoader
  imports RegistryClient
begin

text \<open>
  \<open>loadAuthConfig\<close> of \<open>internal/controller/helpers.go\<close>, which reads the credentials a
  SchemaRegistry refers to from Secrets of its own namespace: one definition per case of the
  source's \<open>switch\<close>, the function itself, and its contract: which Secrets it reads, and what
  a successful result holds. On an error the Go function also returns the configuration
  built so far; both callers drop it, so the result here is a sum.
\<close>

section \<open>The code\<close>

definition initial_auth :: "string \<Rightarrow> AuthConfig" where
  "initial_auth t =
     \<lparr>ac_type = t, ac_username = [], ac_password = [], ac_bearerToken = [],
      ac_clientCert = zero_certificate, ac_caCert = None\<rparr>"

definition secret_key :: "SchemaRegistry \<Rightarrow> string \<Rightarrow> ObjectKey" where
  "secret_key sr n = \<lparr>key_namespace = meta_namespace (sr_meta sr), key_name = n\<rparr>"

definition load_basic ::
  "'w env \<Rightarrow> SchemaRegistry \<Rightarrow> ApiAuthConfig \<Rightarrow> AuthConfig \<Rightarrow> 'w world \<Rightarrow>
    (go_error + AuthConfig) \<times> 'w world" where
  "load_basic E sr auth authConfig w =
     (case auth_basicAuth auth of
        None \<Rightarrow> (Inl (errorf ''basicAuth config is required when type is BASIC''), w)
      | Some basic \<Rightarrow>
          (case k8s_get_secret E (secret_key sr (basic_secretRef basic)) w of
             (Inl err, w1) \<Rightarrow>
               (Inl (errorf_w (''failed to get basic auth secret '' @
                  fmt_q (env_printable E) (basic_secretRef basic) @ '': '') err), w1)
           | (Inr secret, w1) \<Rightarrow>
               (Inr (authConfig\<lparr>ac_username := secret_value secret ''username'',
                                ac_password := secret_value secret ''password''\<rparr>), w1)))"

definition load_bearer ::
  "'w env \<Rightarrow> SchemaRegistry \<Rightarrow> ApiAuthConfig \<Rightarrow> AuthConfig \<Rightarrow> 'w world \<Rightarrow>
    (go_error + AuthConfig) \<times> 'w world" where
  "load_bearer E sr auth authConfig w =
     (case auth_bearerAuth auth of
        None \<Rightarrow> (Inl (errorf ''bearerAuth config is required when type is BEARER''), w)
      | Some bearer \<Rightarrow>
          (case k8s_get_secret E (secret_key sr (bearer_secretRef bearer)) w of
             (Inl err, w1) \<Rightarrow>
               (Inl (errorf_w (''failed to get bearer auth secret '' @
                  fmt_q (env_printable E) (bearer_secretRef bearer) @ '': '') err), w1)
           | (Inr secret, w1) \<Rightarrow>
               (Inr (authConfig\<lparr>ac_bearerToken := secret_value secret ''token''\<rparr>), w1)))"

definition load_mtls ::
  "'w env \<Rightarrow> SchemaRegistry \<Rightarrow> ApiAuthConfig \<Rightarrow> AuthConfig \<Rightarrow> 'w world \<Rightarrow>
    (go_error + AuthConfig) \<times> 'w world" where
  "load_mtls E sr auth authConfig w =
     (case auth_mtls auth of
        None \<Rightarrow> (Inl (errorf ''mtls config is required when type is MTLS''), w)
      | Some mtls \<Rightarrow>
     (case k8s_get_secret E (secret_key sr (mtls_certSecretRef mtls)) w of
        (Inl err, w1) \<Rightarrow>
          (Inl (errorf_w (''failed to get client cert secret '' @
             fmt_q (env_printable E) (mtls_certSecretRef mtls) @ '': '') err), w1)
      | (Inr certSecret, w1) \<Rightarrow>
     (case env_x509_key_pair E (secret_value certSecret ''tls.crt'') (secret_value certSecret ''tls.key'') of
        Inl err \<Rightarrow> (Inl (errorf_w ''failed to parse client certificate: '' err), w1)
      | Inr cert \<Rightarrow>
          (let authConfig1 = authConfig\<lparr>ac_clientCert := cert\<rparr> in
           if mtls_caSecretRef mtls \<noteq> [] then
             (case k8s_get_secret E (secret_key sr (mtls_caSecretRef mtls)) w1 of
                (Inl err, w2) \<Rightarrow>
                  (Inl (errorf_w (''failed to get CA cert secret '' @
                     fmt_q (env_printable E) (mtls_caSecretRef mtls) @ '': '') err), w2)
              | (Inr caSecret, w2) \<Rightarrow>
                  (let caCertPool = env_append_certs E [] (secret_value caSecret ''ca.crt'')
                   in (Inr (authConfig1\<lparr>ac_caCert := Some caCertPool\<rparr>), w2)))
           else (Inr authConfig1, w1)))))"

definition loadAuthConfig ::
  "'w env \<Rightarrow> SchemaRegistry \<Rightarrow> 'w world \<Rightarrow> (go_error + AuthConfig) \<times> 'w world" where
  "loadAuthConfig E sr w =
     (case sr_auth (sr_spec sr) of
        None \<Rightarrow> (Inr (initial_auth ''NONE''), w)
      | Some auth \<Rightarrow>
          (let authConfig = initial_auth (auth_type auth) in
           if auth_type auth = AuthTypeBasic then load_basic E sr auth authConfig w
           else if auth_type auth = AuthTypeBearer then load_bearer E sr auth authConfig w
           else if auth_type auth = AuthTypeMTLS then load_mtls E sr auth authConfig w
           else (Inr authConfig, w)))"

section \<open>Contract\<close>

text \<open>The names of the Secrets the loader may read, and the type a loaded configuration has.\<close>

definition auth_secret_names :: "SchemaRegistry \<Rightarrow> string list" where
  "auth_secret_names sr =
     (case sr_auth (sr_spec sr) of
        None \<Rightarrow> []
      | Some auth \<Rightarrow>
          if auth_type auth = AuthTypeBasic then
            (case auth_basicAuth auth of None \<Rightarrow> [] | Some b \<Rightarrow> [basic_secretRef b])
          else if auth_type auth = AuthTypeBearer then
            (case auth_bearerAuth auth of None \<Rightarrow> [] | Some b \<Rightarrow> [bearer_secretRef b])
          else if auth_type auth = AuthTypeMTLS then
            (case auth_mtls auth of
               None \<Rightarrow> []
             | Some m \<Rightarrow> mtls_certSecretRef m # (if mtls_caSecretRef m = [] then [] else [mtls_caSecretRef m]))
          else [])"

definition auth_type_of :: "SchemaRegistry \<Rightarrow> string" where
  "auth_type_of sr = (case sr_auth (sr_spec sr) of None \<Rightarrow> ''NONE'' | Some auth \<Rightarrow> auth_type auth)"

definition is_secret_read :: "SchemaRegistry \<Rightarrow> event \<Rightarrow> bool" where
  "is_secret_read sr e \<longleftrightarrow>
     (\<exists>n \<in> set (auth_secret_names sr). \<exists>r. e = GotSecret (secret_key sr n) r)"

definition auth_contract ::
  "SchemaRegistry \<Rightarrow> go_error + AuthConfig \<Rightarrow> event list \<Rightarrow> bool" where
  "auth_contract sr r es \<longleftrightarrow>
     list_all (is_secret_read sr) es \<and>
     length es \<le> length (auth_secret_names sr) \<and>
     (\<forall>a. r = Inr a \<longrightarrow>
        ac_type a = auth_type_of sr \<and>
        map (\<lambda>e. case e of GotSecret k s \<Rightarrow> Some k | _ \<Rightarrow> None) es =
          map (\<lambda>n. Some (secret_key sr n)) (auth_secret_names sr) \<and>
        (\<forall>k e. GotSecret k (Inl e) \<notin> set es))"

lemmas load_defs = load_basic_def load_bearer_def load_mtls_def

lemma load_none_log:
  "(r, w) = (r', w') \<Longrightarrow> log w' = log w @ []"
  by simp

lemma loadAuthConfig_emits:
  assumes "loadAuthConfig E sr w = (r, w')"
  shows "\<exists>es. log w' = log w @ es \<and> auth_contract sr r es"
proof (cases "sr_auth (sr_spec sr)")
  case None
  with assms show ?thesis
    by (auto simp: loadAuthConfig_def auth_contract_def initial_auth_def auth_type_of_def
        auth_secret_names_def intro!: exI [of _ "[]"])
next
  case (Some auth)
  note unfold = loadAuthConfig_def auth_contract_def initial_auth_def auth_type_of_def
    auth_secret_names_def is_secret_read_def
  show ?thesis
    using assms Some
    by (auto simp: unfold load_defs Let_def dest!: op_log
        split: if_splits option.splits prod.splits sum.splits)
qed

interpretation auth_loader: logged_op "loadAuthConfig E sr" "auth_contract sr" for E sr
  by unfold_locales (rule loadAuthConfig_emits)

end
