(* ===== verification/SchemaController.thy ===== *)
theory SchemaController
  imports AuthLoader
begin

text \<open>
  The Schema reconciler of \<open>internal/controller/schema_controller.go\<close>: building the HTTP
  client from the referenced SchemaRegistry, the cleanup of a deleted Schema, the failure
  condition, and \<open>Reconcile\<close> itself, split where the source has its section comments. A
  \<open>ctrl.Result\<close> is its \<open>RequeueAfter\<close> (zero where the field is not set).
\<close>

section \<open>The code\<close>

record Result =
  requeueAfter :: duration

definition no_requeue :: Result where
  "no_requeue = \<lparr>requeueAfter = 0\<rparr>"

definition requeue_minute :: Result where
  "requeue_minute = \<lparr>requeueAfter = time_Minute\<rparr>"

definition schemaFinalizer :: string where
  "schemaFinalizer = ''registry.strimzi.io/schema-finalizer''"

definition convertReferences :: "SchemaReference list \<Rightarrow> ClientReference list" where
  "convertReferences refs =
     map (\<lambda>ref. \<lparr>cref_name = ref_name ref, cref_subject = ref_subject ref,
                cref_version = ref_version ref\<rparr>) refs"

text \<open>
  \<open>time.Duration(Timeout) * time.Second\<close>, an \<open>int64\<close> product that may wrap around, with the
  default of 30 seconds for zero.
\<close>

definition clientTimeout :: "SchemaRegistry \<Rightarrow> duration" where
  "clientTimeout sr =
     (let timeout = sr_timeout (sr_spec sr) * time_Second in
      if timeout = 0 then 30 * time_Second else timeout)"

definition registry_key :: "Schema \<Rightarrow> ObjectKey" where
  "registry_key schema =
     (let registryNamespace = rr_namespace (spec_registryRef (sch_spec schema));
          registryNamespace' =
            (if registryNamespace = [] then meta_namespace (sch_meta schema) else registryNamespace)
      in \<lparr>key_namespace = registryNamespace', key_name = rr_name (spec_registryRef (sch_spec schema))\<rparr>)"

definition buildClient ::
  "'w env \<Rightarrow> Schema \<Rightarrow> 'w world \<Rightarrow> (go_error + SchemaRegistryClient) \<times> 'w world" where
  "buildClient E schema w =
     (case k8s_get_registry E (registry_key schema) w of
        (Inl err, w1) \<Rightarrow>
          (Inl (errorf_w (''failed to get SchemaRegistry '' @
             fmt_q (env_printable E) (rr_name (spec_registryRef (sch_spec schema))) @ '': '') err), w1)
      | (Inr schemaRegistry, w1) \<Rightarrow>
          (case loadAuthConfig E schemaRegistry w1 of
             (Inl err, w2) \<Rightarrow> (Inl err, w2)
           | (Inr authConfig, w2) \<Rightarrow>
               (NewClient (sr_url (sr_spec schemaRegistry)) authConfig (clientTimeout schemaRegistry)
                  (sr_insecureSkipVerify (sr_spec schemaRegistry)), w2)))"

definition deleteFromRegistry ::
  "'w env \<Rightarrow> Schema \<Rightarrow> 'w world \<Rightarrow> go_error option \<times> 'w world" where
  "deleteFromRegistry E schema w =
     (case buildClient E schema w of
        (Inl err, w1) \<Rightarrow> (None, w1)
      | (Inr srClient, w1) \<Rightarrow> DeleteSubject E srClient (spec_subject (sch_spec schema)) w1)"

definition set_schema_condition :: "'w env \<Rightarrow> 'w world \<Rightarrow> Condition \<Rightarrow> Schema \<Rightarrow> Schema" where
  "set_schema_condition E w c schema =
     schema\<lparr>sch_status := (sch_status schema)\<lparr>status_conditions :=
        env_set_status_condition E (ext w) (status_conditions (sch_status schema)) c\<rparr>\<rparr>"

definition ready_condition :: "string \<Rightarrow> string \<Rightarrow> string \<Rightarrow> go_int \<Rightarrow> Condition" where
  "ready_condition status reason message generation =
     \<lparr>cond_type = ''Ready'', cond_status = status, cond_observedGeneration = generation,
      cond_lastTransitionTime = 0, cond_reason = reason, cond_message = message\<rparr>"

definition setConditionFailed ::
  "'w env \<Rightarrow> Schema \<Rightarrow> string \<Rightarrow> string \<Rightarrow> 'w world \<Rightarrow> go_error option \<times> 'w world" where
  "setConditionFailed E schema reason message w =
     (case k8s_get_schema E (env_object_key E (sch_meta schema)) w of
        (Inl err, w1) \<Rightarrow> (env_ignore_not_found E err, w1)
      | (Inr schema1, w1) \<Rightarrow>
          k8s_update_schema_status E
            (set_schema_condition E w1
               (ready_condition ConditionFalse reason message (meta_generation (sch_meta schema1)))
               schema1) w1)"

text \<open>Lines 62 to 78: the deletion path.\<close>

definition reconcile_deletion ::
  "'w env \<Rightarrow> Schema \<Rightarrow> 'w world \<Rightarrow> (Result \<times> go_error option) \<times> 'w world" where
  "reconcile_deletion E schema w =
     (if env_contains_finalizer E (meta_finalizers (sch_meta schema)) schemaFinalizer then
        (case deleteFromRegistry E schema w of
           (Some err, w1) \<Rightarrow> ((no_requeue, Some err), w1)
         | (None, w1) \<Rightarrow>
             (let schema1 = schema\<lparr>sch_meta := (sch_meta schema)\<lparr>meta_finalizers :=
                    env_remove_finalizer E (meta_finalizers (sch_meta schema)) schemaFinalizer\<rparr>\<rparr>
              in case k8s_update_schema E schema1 w1 of
                   (Some err, w2) \<Rightarrow> ((no_requeue, Some err), w2)
                 | (None, w2) \<Rightarrow> ((no_requeue, None), w2)))
      else ((no_requeue, None), w))"

text \<open>Lines 122 to 148: the status after a successful registration.\<close>

definition registered_message :: "SchemaResponse \<Rightarrow> string" where
  "registered_message resp =
     ''Schema registered with ID '' @ fmt_d (res_id resp) @ '', version '' @ fmt_d (res_version resp)"

definition registered_status ::
  "'w env \<Rightarrow> 'w world \<Rightarrow> instant \<Rightarrow> SchemaResponse \<Rightarrow> Schema \<Rightarrow> Schema" where
  "registered_status E w now resp schema =
     set_schema_condition E w
       (ready_condition ConditionTrue ''Registered'' (registered_message resp)
          (meta_generation (sch_meta schema)))
       (schema\<lparr>sch_status := (sch_status schema)
          \<lparr>status_schemaID := Some (res_id resp),
           status_version := Some (res_version resp),
           status_registeredAt := Some now,
           status_observedGeneration := meta_generation (sch_meta schema)\<rparr>\<rparr>)"

definition update_registered ::
  "'w env \<Rightarrow> ObjectKey \<Rightarrow> SchemaResponse \<Rightarrow> 'w world \<Rightarrow> (Result \<times> go_error option) \<times> 'w world" where
  "update_registered E key resp w =
     (case k8s_get_schema E key w of
        (Inl err, w1) \<Rightarrow> ((no_requeue, env_ignore_not_found E err), w1)
      | (Inr schema, w1) \<Rightarrow>
          (case read_clock E w1 of (now, w2) \<Rightarrow>
             (case k8s_update_schema_status E (registered_status E w2 now resp schema) w2 of
                (Some err, w3) \<Rightarrow> ((no_requeue, Some err), w3)
              | (None, w3) \<Rightarrow> ((no_requeue, None), w3))))"

text \<open>Lines 114 to 120: the compatibility level; an error is logged and dropped.\<close>

definition set_compatibility_if_given ::
  "'w env \<Rightarrow> SchemaRegistryClient \<Rightarrow> Schema \<Rightarrow> 'w world \<Rightarrow> 'w world" where
  "set_compatibility_if_given E srClient schema w =
     (if spec_compatibilityLevel (sch_spec schema) \<noteq> [] then
        snd (SetCompatibility E srClient (spec_subject (sch_spec schema))
               (spec_compatibilityLevel (sch_spec schema)) w)
      else w)"

definition register_request :: "Schema \<Rightarrow> RegisterSchemaRequest" where
  "register_request schema =
     \<lparr>rq_schema = spec_schema (sch_spec schema), rq_schemaType = spec_schemaType (sch_spec schema),
      rq_references = convertReferences (spec_references (sch_spec schema))\<rparr>"

text \<open>Lines 92 to 148: build the client, register, set the compatibility, update the status.\<close>

definition reconcile_registration ::
  "'w env \<Rightarrow> ObjectKey \<Rightarrow> Schema \<Rightarrow> 'w world \<Rightarrow> (Result \<times> go_error option) \<times> 'w world" where
  "reconcile_registration E key schema w =
     (case buildClient E schema w of
        (Inl err, w1) \<Rightarrow>
          (case setConditionFailed E schema ''ClientBuildFailed'' (error_text err) w1 of
             (e, w2) \<Rightarrow> ((requeue_minute, e), w2))
      | (Inr srClient, w1) \<Rightarrow>
          (case RegisterSchema E srClient (spec_subject (sch_spec schema)) (register_request schema) w1 of
             (Inl err, w2) \<Rightarrow>
               (case setConditionFailed E schema ''RegistrationFailed'' (error_text err) w2 of
                  (e, w3) \<Rightarrow> ((requeue_minute, e), w3))
           | (Inr resp, w2) \<Rightarrow>
               update_registered E key resp (set_compatibility_if_given E srClient schema w2)))"

text \<open>Lines 80 to 90: add the finalizer if it is missing, and fetch the Schema again.\<close>

definition add_finalizer_to :: "'w env \<Rightarrow> Schema \<Rightarrow> Schema" where
  "add_finalizer_to E schema =
     schema\<lparr>sch_meta := (sch_meta schema)\<lparr>meta_finalizers :=
        env_add_finalizer E (meta_finalizers (sch_meta schema)) schemaFinalizer\<rparr>\<rparr>"

definition reconcile_adding_finalizer ::
  "'w env \<Rightarrow> ObjectKey \<Rightarrow> Schema \<Rightarrow> 'w world \<Rightarrow> (Result \<times> go_error option) \<times> 'w world" where
  "reconcile_adding_finalizer E key schema w =
     (case k8s_update_schema E (add_finalizer_to E schema) w of
        (Some err, w1) \<Rightarrow> ((no_requeue, Some err), w1)
      | (None, w1) \<Rightarrow>
          (case k8s_get_schema E key w1 of
             (Inl err, w2) \<Rightarrow> ((no_requeue, env_ignore_not_found E err), w2)
           | (Inr schema', w2) \<Rightarrow> reconcile_registration E key schema' w2))"

definition schema_reconcile ::
  "'w env \<Rightarrow> ObjectKey \<Rightarrow> 'w world \<Rightarrow> (Result \<times> go_error option) \<times> 'w world" where
  "schema_reconcile E key w =
     (case k8s_get_schema E key w of
        (Inl err, w1) \<Rightarrow> ((no_requeue, env_ignore_not_found E err), w1)
      | (Inr schema, w1) \<Rightarrow>
          if \<not> env_time_is_zero E (meta_deletionTimestamp (sch_meta schema))
          then reconcile_deletion E schema w1
          else if \<not> env_contains_finalizer E (meta_finalizers (sch_meta schema)) schemaFinalizer
          then reconcile_adding_finalizer E key schema w1
          else reconcile_registration E key schema w1)"

section \<open>Contract of the client construction\<close>

definition is_resolve :: "event \<Rightarrow> bool" where
  "is_resolve e \<longleftrightarrow> (case e of GotRegistry k r \<Rightarrow> True | GotSecret k r \<Rightarrow> True | _ \<Rightarrow> False)"

lemma is_resolve_simps [simp]:
  "is_resolve (GotRegistry k rr)" "is_resolve (GotSecret k rs)"
  "\<not> is_resolve (GotSchema k rc)" "\<not> is_resolve (UpdatedSchema s ru)"
  "\<not> is_resolve (UpdatedSchemaStatus s ru)" "\<not> is_resolve (UpdatedRegistryStatus sr ru)"
  "\<not> is_resolve (HttpDone hc rq out)"
  by (simp_all add: is_resolve_def)

lemma secret_reads_resolve: "list_all (is_secret_read sr) es \<Longrightarrow> list_all is_resolve es"
  by (auto simp: is_secret_read_def list_all_iff)

text \<open>What the client is built from: a SchemaRegistry and its loaded credentials.\<close>

definition client_of :: "SchemaRegistry \<Rightarrow> SchemaRegistryClient \<Rightarrow> bool" where
  "client_of sr c \<longleftrightarrow>
     c_baseURL c = sr_url (sr_spec sr) \<and>
     hc_timeout (c_httpClient c) = clientTimeout sr \<and>
     tls_insecureSkipVerify (hc_tls (c_httpClient c)) = sr_insecureSkipVerify (sr_spec sr) \<and>
     ac_type (c_auth c) = auth_type_of sr"

definition build_contract ::
  "Schema \<Rightarrow> go_error + SchemaRegistryClient \<Rightarrow> event list \<Rightarrow> bool" where
  "build_contract schema r es \<longleftrightarrow>
     (\<exists>out es'. es = GotRegistry (registry_key schema) out # es' \<and>
        (case out of
           Inl e \<Rightarrow> es' = [] \<and> (\<exists>e'. r = Inl e')
         | Inr sr \<Rightarrow> list_all (is_secret_read sr) es' \<and> (\<forall>c. r = Inr c \<longrightarrow> client_of sr c)))"

lemma NewClient_client_of:
  assumes "NewClient (sr_url (sr_spec sr)) a (clientTimeout sr) (sr_insecureSkipVerify (sr_spec sr)) = Inr c"
    and "ac_type a = auth_type_of sr"
  shows "client_of sr c"
  using assms by (auto simp: NewClient_def client_of_def Let_def split: option.splits if_splits)

lemma NewClient_total: "\<exists>c. NewClient u a t s = Inr c"
  by (simp add: NewClient_def Let_def)

lemma buildClient_emits:
  assumes "buildClient E schema w = (r, w')"
  shows "\<exists>es. log w' = log w @ es \<and> build_contract schema r es"
proof -
  obtain out w1 where g: "k8s_get_registry E (registry_key schema) w = (out, w1)"
    by (cases "k8s_get_registry E (registry_key schema) w")
  note l1 = op_log(2) [OF g]
  show ?thesis
  proof (cases out)
    case (Inl e)
    then show ?thesis using assms g l1 by (auto simp: buildClient_def build_contract_def)
  next
    case (Inr sr)
    obtain a w2 where la: "loadAuthConfig E sr w1 = (a, w2)" by (cases "loadAuthConfig E sr w1")
    then obtain es' where l2: "log w2 = log w1 @ es'" and ac: "auth_contract sr a es'"
      by (rule auth_loader.eventsE)
    have "w' = w2 \<and> (\<forall>c. r = Inr c \<longrightarrow> client_of sr c)"
      using assms g la Inr ac
      by (auto simp: buildClient_def auth_contract_def intro: NewClient_client_of split: sum.splits)
    then show ?thesis using l1 l2 Inr ac by (auto simp: build_contract_def auth_contract_def)
  qed
qed

interpretation build_op: logged_op "buildClient E schema" "build_contract schema" for E schema
  by unfold_locales (rule buildClient_emits)

lemma build_contract_resolve: "build_contract schema r es \<Longrightarrow> list_all is_resolve es"
proof -
  assume "build_contract schema r es"
  then obtain out es' where es: "es = GotRegistry (registry_key schema) out # es'"
    and rest: "case out of Inl e \<Rightarrow> es' = [] \<and> (\<exists>e'. r = Inl e')
      | Inr sr \<Rightarrow> list_all (is_secret_read sr) es' \<and> (\<forall>c. r = Inr c \<longrightarrow> client_of sr c)"
    by (auto simp: build_contract_def)
  then show "list_all is_resolve es"
    by (cases out) (auto dest: secret_reads_resolve)
qed

interpretation build_resolves: bounded_op "buildClient E schema" "build_contract schema" is_resolve
  for E schema
  by unfold_locales (rule build_contract_resolve)

end
