(* ===== verification/SchemaProtocol.thy ===== *)
theory SchemaProtocol
  imports SchemaController
begin

text \<open>
  The abstract protocol a Schema reconciliation follows, as a monitor over the calls it
  makes, and the proof that \<open>schema_reconcile\<close> refines it in every environment whose
  libraries behave as documented. The monitor keeps what the run has established so far: a
  Schema was read, it is being deleted, the finalizer is known to be stored, a request was
  sent, the subject is known to be gone, the ID the registry answered. A call the protocol
  does not allow in that state makes the monitor reject. The ordering properties are then
  facts about the monitor alone.
\<close>

section \<open>The monitor\<close>

record monitor =
  m_seen :: bool
  m_deleting :: bool
  m_finalizer :: bool
  m_http :: bool
  m_posted :: bool
  m_cleaned :: bool
  m_registered :: "go_int option"

definition monitor0 :: monitor where
  "monitor0 =
     \<lparr>m_seen = False, m_deleting = False, m_finalizer = False, m_http = False,
      m_posted = False, m_cleaned = False, m_registered = None\<rparr>"

abbreviation has_finalizer :: "Schema \<Rightarrow> bool" where
  "has_finalizer s \<equiv> schemaFinalizer \<in> set (meta_finalizers (sch_meta s))"

abbreviation is_deleted :: "'w env \<Rightarrow> Schema \<Rightarrow> bool" where
  "is_deleted E s \<equiv> \<not> env_time_is_zero E (meta_deletionTimestamp (sch_meta s))"

definition ready_status :: "Schema \<Rightarrow> string option" where
  "ready_status s =
     map_option cond_status (find_condition ''Ready'' (status_conditions (sch_status s)))"

definition cleanup_confirmed :: "(go_error + HttpResponse) \<Rightarrow> bool" where
  "cleanup_confirmed out \<longleftrightarrow>
     (case out of Inl e \<Rightarrow> False | Inr resp \<Rightarrow> resp_status resp \<in> {StatusOK, StatusNotFound})"

text \<open>The status a run may write: the registered ID with Ready true, or Ready false without one.\<close>

definition status_allowed :: "go_int option \<Rightarrow> Schema \<Rightarrow> bool" where
  "status_allowed registered s \<longleftrightarrow>
     (case registered of
        None \<Rightarrow> ready_status s = Some ConditionFalse
      | Some i \<Rightarrow> ready_status s = Some ConditionTrue \<and> status_schemaID (sch_status s) = Some i)"

definition http_step :: "HttpRequest \<Rightarrow> (go_error + HttpResponse) \<Rightarrow> monitor \<Rightarrow> monitor option" where
  "http_step rq out m =
     (if \<not> m_seen m \<or> \<not> m_finalizer m then None
      else if req_method rq = MethodDelete then
        (if m_deleting m then Some (m\<lparr>m_http := True, m_cleaned := cleanup_confirmed out\<rparr>) else None)
      else if m_deleting m then None
      else if req_method rq = MethodPost then
        (if m_posted m then None
         else Some (m\<lparr>m_http := True, m_posted := True, m_registered := registered_id out\<rparr>))
      else if m_registered m = None then None
      else Some (m\<lparr>m_http := True\<rparr>))"

fun monitor_step :: "'w env \<Rightarrow> event \<Rightarrow> monitor \<Rightarrow> monitor option" where
  "monitor_step E (GotSchema k r) m =
     (case r of
        Inl e \<Rightarrow> Some m
      | Inr s \<Rightarrow>
          if m_seen m then Some m
          else Some (m\<lparr>m_seen := True, m_deleting := is_deleted E s, m_finalizer := has_finalizer s\<rparr>))"
| "monitor_step E (GotRegistry k r) m = (if m_seen m then Some m else None)"
| "monitor_step E (GotSecret k r) m = (if m_seen m then Some m else None)"
| "monitor_step E (UpdatedSchema s r) m =
     (if \<not> m_seen m then None
      else if m_deleting m then
        (if m_finalizer m \<and> (m_cleaned m \<or> \<not> m_http m) \<and> \<not> has_finalizer s then Some m else None)
      else if \<not> m_finalizer m \<and> \<not> m_http m \<and> has_finalizer s
      then Some (m\<lparr>m_finalizer := (r = None)\<rparr>) else None)"
| "monitor_step E (UpdatedSchemaStatus s r) m =
     (if m_seen m \<and> \<not> m_deleting m \<and> m_finalizer m \<and> status_allowed (m_registered m) s
      then Some m else None)"
| "monitor_step E (HttpDone hc rq out) m = http_step rq out m"
| "monitor_step E e m = None"

fun monitor_run :: "'w env \<Rightarrow> event list \<Rightarrow> monitor \<Rightarrow> monitor option" where
  "monitor_run E [] m = Some m"
| "monitor_run E (e # es) m =
     (case monitor_step E e m of None \<Rightarrow> None | Some m' \<Rightarrow> monitor_run E es m')"

definition accepted :: "'w env \<Rightarrow> event list \<Rightarrow> bool" where
  "accepted E es \<longleftrightarrow> monitor_run E es monitor0 \<noteq> None"

lemma monitor_run_append:
  "monitor_run E (xs @ ys) m =
     (case monitor_run E xs m of None \<Rightarrow> None | Some m' \<Rightarrow> monitor_run E ys m')"
  by (induction xs arbitrary: m) (auto split: option.splits)

lemma monitor_run_resolve:
  "list_all is_resolve es \<Longrightarrow> m_seen m \<Longrightarrow> monitor_run E es m = Some m"
  by (induction es) (auto simp: is_resolve_def split: event.splits)

section \<open>The reconciler refines the protocol\<close>

text \<open>The states in which a registration run and a deletion run resolve their registry.\<close>

definition live_state :: monitor where
  "live_state = monitor0\<lparr>m_seen := True, m_finalizer := True\<rparr>"

definition deleting_state :: monitor where
  "deleting_state = live_state\<lparr>m_deleting := True\<rparr>"

lemmas state_defs = live_state_def deleting_state_def monitor0_def

lemma ready_status_set:
  assumes "condition_laws E" and "cond_type c = ''Ready''"
  shows "ready_status (set_schema_condition E w c s) = Some (cond_status c)"
  using condition_lawsD(1) [OF assms(1), of c "ext w" "status_conditions (sch_status s)"] assms(2)
  by (auto simp: ready_status_def set_schema_condition_def)

lemma ready_condition_simps [simp]:
  "cond_type (ready_condition st re ms g) = ''Ready''"
  "cond_status (ready_condition st re ms g) = st"
  "cond_reason (ready_condition st re ms g) = re"
  "cond_message (ready_condition st re ms g) = ms"
  "cond_observedGeneration (ready_condition st re ms g) = g"
  by (simp_all add: ready_condition_def)

lemma set_schema_condition_frame [simp]:
  "sch_meta (set_schema_condition E w c s) = sch_meta s"
  "sch_spec (set_schema_condition E w c s) = sch_spec s"
  "status_schemaID (sch_status (set_schema_condition E w c s)) = status_schemaID (sch_status s)"
  "status_version (sch_status (set_schema_condition E w c s)) = status_version (sch_status s)"
  "status_registeredAt (sch_status (set_schema_condition E w c s)) = status_registeredAt (sch_status s)"
  "status_observedGeneration (sch_status (set_schema_condition E w c s)) =
     status_observedGeneration (sch_status s)"
  by (simp_all add: set_schema_condition_def)

lemma registered_status_allowed:
  assumes "condition_laws E"
  shows "status_allowed (Some (res_id resp)) (registered_status E w now resp s)"
  by (simp add: status_allowed_def registered_status_def ready_status_set [OF assms])

lemma setConditionFailed_accepted:
  assumes "condition_laws E" and "setConditionFailed E s reason msg w = (r, w')"
    and m: "m_seen m" "\<not> m_deleting m" "m_finalizer m" "m_registered m = None"
  shows "\<exists>es. log w' = log w @ es \<and> monitor_run E es m = Some m"
proof -
  obtain out w1 where g: "k8s_get_schema E (env_object_key E (sch_meta s)) w = (out, w1)"
    by (cases "k8s_get_schema E (env_object_key E (sch_meta s)) w")
  note l1 = op_log(1) [OF g]
  show ?thesis
  proof (cases out)
    case (Inl e)
    then show ?thesis using assms(2) g l1 by (auto simp: setConditionFailed_def)
  next
    case (Inr s1)
    let ?s2 = "set_schema_condition E w1
      (ready_condition ConditionFalse reason msg (meta_generation (sch_meta s1))) s1"
    have u: "k8s_update_schema_status E ?s2 w1 = (r, w')"
      using assms(2) g Inr by (simp add: setConditionFailed_def)
    have "status_allowed None ?s2"
      by (simp add: status_allowed_def ready_status_set [OF assms(1)])
    then show ?thesis using l1 op_log(7) [OF u] Inr m by auto
  qed
qed

lemma compat_accepted:
  assumes "m_seen m" "\<not> m_deleting m" "m_finalizer m" "m_registered m \<noteq> None" "m_http m"
  shows "\<exists>es. log (set_compatibility_if_given E c s w) = log w @ es \<and> monitor_run E es m = Some m"
proof (cases "spec_compatibilityLevel (sch_spec s) = []")
  case True
  then show ?thesis by (simp add: set_compatibility_if_given_def)
next
  case False
  obtain r w1 where sc: "SetCompatibility E c (spec_subject (sch_spec s))
      (spec_compatibilityLevel (sch_spec s)) w = (r, w1)"
    by (cases "SetCompatibility E c (spec_subject (sch_spec s)) (spec_compatibilityLevel (sch_spec s)) w")
  then obtain es where "log w1 = log w @ es"
      "compat_contract c (spec_subject (sch_spec s)) (spec_compatibilityLevel (sch_spec s)) r es"
    by (rule compat_op.eventsE)
  with False sc assms show ?thesis
    by (auto simp: set_compatibility_if_given_def compat_contract_def http_step_def method_defs)
qed

lemma update_registered_accepted:
  assumes "condition_laws E" and "update_registered E key resp w = (r, w')"
    and m: "m_seen m" "\<not> m_deleting m" "m_finalizer m" "m_registered m = Some (res_id resp)"
  shows "\<exists>es. log w' = log w @ es \<and> monitor_run E es m = Some m"
proof -
  obtain out w1 where g: "k8s_get_schema E key w = (out, w1)" by (cases "k8s_get_schema E key w")
  note l1 = op_log(1) [OF g]
  show ?thesis
  proof (cases out)
    case (Inl e)
    then show ?thesis using assms(2) g l1 by (auto simp: update_registered_def)
  next
    case (Inr s)
    obtain now w2 where t: "read_clock E w1 = (now, w2)" by (cases "read_clock E w1")
    obtain u w3 where u: "k8s_update_schema_status E (registered_status E w2 now resp s) w2 = (u, w3)"
      by (cases "k8s_update_schema_status E (registered_status E w2 now resp s) w2")
    have "w' = w3" using assms(2) g Inr t u by (auto simp: update_registered_def split: option.splits)
    then show ?thesis
      using l1 read_clock_log [OF t] op_log(7) [OF u] Inr m registered_status_allowed [OF assms(1)]
      by auto
  qed
qed

lemma register_events_accepted:
  assumes "register_contract c subject q r es"
    and "m_seen m" "\<not> m_deleting m" "m_finalizer m" "\<not> m_posted m" "m_registered m = None"
  shows "(case r of
      Inl e \<Rightarrow> \<exists>m'. monitor_run E es m = Some m' \<and> m_seen m' \<and> \<not> m_deleting m' \<and> m_finalizer m' \<and>
        m_registered m' = None
    | Inr resp \<Rightarrow> monitor_run E es m =
        Some (m\<lparr>m_http := True, m_posted := True, m_registered := Some (res_id resp)\<rparr>))"
proof -
  consider (unsent) e where "es = []" "r = Inl e"
    | (sent) out es' where "es = HttpDone (c_httpClient c) (post_request c subject q) out # es'"
        "case registered_id out of
           None \<Rightarrow> es' = [] \<and> (\<exists>e. r = Inl e)
         | Some i \<Rightarrow>
             r = Inr \<lparr>res_id = i, res_version = reported_version es', res_schema = []\<rparr> \<and>
             (es' = [] \<or> (\<exists>out'. es' = [HttpDone (c_httpClient c) (latest_request c subject) out']))"
    using assms(1) by (auto simp: register_contract_def)
  then show ?thesis
  proof cases
    case unsent
    then show ?thesis using assms(2-) by simp
  next
    case (sent out es')
    then show ?thesis
      using assms(2-)
      by (cases "registered_id out") (auto simp: http_step_def method_defs)
  qed
qed

lemma reconcile_registration_accepted:
  assumes "condition_laws E" and "reconcile_registration E key s w = (r, w')"
  shows "\<exists>es. log w' = log w @ es \<and> monitor_run E es live_state \<noteq> None"
proof -
  obtain b w1 where b: "buildClient E s w = (b, w1)" by (cases "buildClient E s w")
  then obtain es1 where l1: "log w1 = log w @ es1" and "build_contract s b es1"
    by (rule build_op.eventsE)
  then have a1: "monitor_run E es1 live_state = Some live_state"
    by (auto intro: monitor_run_resolve dest: build_contract_resolve simp: state_defs)
  have live: "m_seen live_state" "\<not> m_deleting live_state" "m_finalizer live_state"
    "\<not> m_posted live_state" "m_registered live_state = None"
    by (simp_all add: state_defs)
  show ?thesis
  proof (cases b)
    case (Inl e)
    then obtain re where f: "setConditionFailed E s ''ClientBuildFailed'' (error_text e) w1 = (re, w')"
      using assms(2) b by (auto simp: reconcile_registration_def split: prod.splits)
    obtain es2 where "log w' = log w1 @ es2" "monitor_run E es2 live_state = Some live_state"
      using setConditionFailed_accepted [OF assms(1) f live(1-3,5)] by blast
    then show ?thesis using l1 a1 by (auto simp: monitor_run_append)
  next
    case (Inr c)
    let ?subj = "spec_subject (sch_spec s)"
    obtain g w2 where g: "RegisterSchema E c ?subj (register_request s) w1 = (g, w2)"
      by (cases "RegisterSchema E c ?subj (register_request s) w1")
    then obtain es2 where l2: "log w2 = log w1 @ es2"
      and rc: "register_contract c ?subj (register_request s) g es2"
      by (rule register_op.eventsE)
    note a2 = register_events_accepted [OF rc live, of E]
    show ?thesis
    proof (cases g)
      case Inl2: (Inl e)
      then obtain m' where m': "monitor_run E es2 live_state = Some m'" "m_seen m'" "\<not> m_deleting m'"
        "m_finalizer m'" "m_registered m' = None" using a2 by auto
      obtain re where f: "setConditionFailed E s ''RegistrationFailed'' (error_text e) w2 = (re, w')"
        using assms(2) b Inr g Inl2 by (auto simp: reconcile_registration_def split: prod.splits)
      obtain es3 where "log w' = log w2 @ es3" "monitor_run E es3 m' = Some m'"
        using setConditionFailed_accepted [OF assms(1) f m'(2-5)] by blast
      then show ?thesis using l1 a1 l2 m'(1) by (auto simp: monitor_run_append)
    next
      case Inr2: (Inr resp)
      define m' where
        "m' = live_state\<lparr>m_http := True, m_posted := True, m_registered := Some (res_id resp)\<rparr>"
      have m': "monitor_run E es2 live_state = Some m'" using a2 Inr2 by (simp add: m'_def)
      have st: "m_seen m'" "\<not> m_deleting m'" "m_finalizer m'" "m_registered m' = Some (res_id resp)"
        "m_http m'" by (simp_all add: m'_def state_defs)
      let ?w3 = "set_compatibility_if_given E c s w2"
      obtain es3 where l3: "log ?w3 = log w2 @ es3" "monitor_run E es3 m' = Some m'"
        using compat_accepted [OF st(1-3) _ st(5), of E c s w2] st(4) by auto
      have u: "update_registered E key resp ?w3 = (r, w')"
        using assms(2) b Inr g Inr2 by (simp add: reconcile_registration_def)
      obtain es4 where "log w' = log ?w3 @ es4" "monitor_run E es4 m' = Some m'"
        using update_registered_accepted [OF assms(1) u st(1-4)] by blast
      then show ?thesis using l1 a1 l2 m' l3 by (auto simp: monitor_run_append)
    qed
  qed
qed

text \<open>What the deletion of a subject leaves: no error only if no request was sent or it is gone.\<close>

lemma deleteFromRegistry_accepted:
  assumes "deleteFromRegistry E s w = (r, w')"
  shows "\<exists>es m'. log w' = log w @ es \<and> monitor_run E es deleting_state = Some m' \<and>
    m_seen m' \<and> m_deleting m' \<and> m_finalizer m' \<and> (r = None \<longrightarrow> m_cleaned m' \<or> \<not> m_http m')"
proof -
  obtain b w1 where b: "buildClient E s w = (b, w1)" by (cases "buildClient E s w")
  then obtain es1 where l1: "log w1 = log w @ es1" and "build_contract s b es1"
    by (rule build_op.eventsE)
  then have a1: "monitor_run E es1 deleting_state = Some deleting_state"
    by (auto intro: monitor_run_resolve dest: build_contract_resolve simp: state_defs)
  have st: "m_seen deleting_state" "m_deleting deleting_state" "m_finalizer deleting_state"
    "\<not> m_http deleting_state"
    by (simp_all add: state_defs)
  show ?thesis
  proof (cases b)
    case (Inl e)
    then have "w' = w1" using assms b by (simp add: deleteFromRegistry_def)
    then show ?thesis using l1 a1 st by blast
  next
    case (Inr c)
    then have d: "DeleteSubject E c (spec_subject (sch_spec s)) w1 = (r, w')"
      using assms b by (simp add: deleteFromRegistry_def)
    then obtain es2 where l2: "log w' = log w1 @ es2"
      and "delete_contract c (spec_subject (sch_spec s)) r es2"
      by (rule delete_op.eventsE)
    then have "\<exists>m'. monitor_run E es2 deleting_state = Some m' \<and> m_seen m' \<and> m_deleting m' \<and>
        m_finalizer m' \<and> (r = None \<longrightarrow> m_cleaned m' \<or> \<not> m_http m')"
      using st by (auto simp: delete_contract_def http_step_def cleanup_confirmed_def)
    then show ?thesis using l1 l2 a1 by (auto simp: monitor_run_append)
  qed
qed

lemma reconcile_deletion_accepted:
  assumes "finalizer_laws E" and "reconcile_deletion E s w = (r, w')"
    and m: "m_seen m" "m = deleting_state \<or> \<not> has_finalizer s"
  shows "\<exists>es. log w' = log w @ es \<and> monitor_run E es m \<noteq> None"
proof (cases "has_finalizer s")
  case False
  then show ?thesis
    using assms(2) finalizer_lawsD(1) [OF assms(1)] by (auto simp: reconcile_deletion_def)
next
  case True
  then have c: "env_contains_finalizer E (meta_finalizers (sch_meta s)) schemaFinalizer"
    using finalizer_lawsD(1) [OF assms(1)] by simp
  obtain d w1 where d: "deleteFromRegistry E s w = (d, w1)" by (cases "deleteFromRegistry E s w")
  obtain es1 m' where l1: "log w1 = log w @ es1" and a1: "monitor_run E es1 deleting_state = Some m'"
    and m': "m_seen m'" "m_deleting m'" "m_finalizer m'" "d = None \<longrightarrow> m_cleaned m' \<or> \<not> m_http m'"
    using deleteFromRegistry_accepted [OF d] by blast
  show ?thesis
  proof (cases d)
    case (Some e)
    then show ?thesis using assms(2) m True c d l1 a1 by (auto simp: reconcile_deletion_def)
  next
    case None
    define s1 where "s1 = s\<lparr>sch_meta := (sch_meta s)\<lparr>meta_finalizers :=
      env_remove_finalizer E (meta_finalizers (sch_meta s)) schemaFinalizer\<rparr>\<rparr>"
    have nf: "\<not> has_finalizer s1" using finalizer_lawsD(3) [OF assms(1)] by (simp add: s1_def)
    obtain u where u: "k8s_update_schema E s1 w1 = (u, w')"
      using assms(2) c d None
      by (auto simp: reconcile_deletion_def s1_def split: prod.splits option.splits)
    show ?thesis
      using l1 op_log(6) [OF u] a1 m True m' None nf by (auto simp: monitor_run_append)
  qed
qed

lemma reconcile_adding_finalizer_accepted:
  assumes "finalizer_laws E" and "condition_laws E"
    and "reconcile_adding_finalizer E key s w = (r, w')"
    and m: "m = monitor0\<lparr>m_seen := True\<rparr>"
  shows "\<exists>es. log w' = log w @ es \<and> monitor_run E es m \<noteq> None"
proof -
  let ?s1 = "add_finalizer_to E s"
  obtain u w1 where u: "k8s_update_schema E ?s1 w = (u, w1)" by (cases "k8s_update_schema E ?s1 w")
  note l1 = op_log(6) [OF u]
  have "has_finalizer ?s1"
    using finalizer_lawsD(2) [OF assms(1)] by (simp add: add_finalizer_to_def)
  then have a1: "monitor_run E [UpdatedSchema ?s1 u] m = Some (m\<lparr>m_finalizer := (u = None)\<rparr>)"
    by (simp add: m monitor0_def)
  show ?thesis
  proof (cases u)
    case (Some e)
    then have "w' = w1" using assms(3) u by (simp add: reconcile_adding_finalizer_def)
    then show ?thesis using l1 a1 by auto
  next
    case None
    then have live: "m\<lparr>m_finalizer := (u = None)\<rparr> = live_state" by (simp add: m state_defs)
    obtain out w2 where g: "k8s_get_schema E key w1 = (out, w2)" by (cases "k8s_get_schema E key w1")
    have a2: "monitor_run E [UpdatedSchema ?s1 u, GotSchema key out] m = Some live_state"
    proof -
      have "monitor_run E [GotSchema key out] live_state = Some live_state"
        by (simp add: state_defs split: sum.splits)
      then show ?thesis
        using monitor_run_append [of E "[UpdatedSchema ?s1 u]" "[GotSchema key out]" m]
        unfolding a1 live by simp
    qed
    have l2: "log w2 = log w @ [UpdatedSchema ?s1 u, GotSchema key out]"
      using l1 op_log(1) [OF g] by simp
    show ?thesis
    proof (cases out)
      case (Inl e)
      then have "w' = w2" using assms(3) u None g by (simp add: reconcile_adding_finalizer_def)
      then show ?thesis using l2 a2 by blast
    next
      case (Inr s')
      then have "reconcile_registration E key s' w2 = (r, w')"
        using assms(3) u None g by (simp add: reconcile_adding_finalizer_def)
      then obtain es where "log w' = log w2 @ es" "monitor_run E es live_state \<noteq> None"
        using reconcile_registration_accepted [OF assms(2)] by blast
      then show ?thesis using l2 monitor_run_append [of E "[UpdatedSchema ?s1 u, GotSchema key out]" es m] a2
        by (intro exI [of _ "[UpdatedSchema ?s1 u, GotSchema key out] @ es"]) simp
    qed
  qed
qed

text \<open>Every run of the reconciler, in every environment, is accepted by the protocol.\<close>

lemma schema_reconcile_accepted:
  assumes "finalizer_laws E" and "condition_laws E" and "schema_reconcile E key w = (r, w')"
  shows "\<exists>es. log w' = log w @ es \<and> accepted E es"
proof -
  obtain out w1 where g: "k8s_get_schema E key w = (out, w1)" by (cases "k8s_get_schema E key w")
  note l1 = op_log(1) [OF g]
  show ?thesis
  proof (cases out)
    case (Inl e)
    then show ?thesis using assms(3) g l1 by (auto simp: schema_reconcile_def accepted_def)
  next
    case (Inr s)
    define m where
      "m = monitor0\<lparr>m_seen := True, m_deleting := is_deleted E s, m_finalizer := has_finalizer s\<rparr>"
    have fin: "env_contains_finalizer E fs f \<longleftrightarrow> f \<in> set fs" for fs f
      by (rule finalizer_lawsD(1) [OF assms(1)])
    note run = assms(3) [unfolded schema_reconcile_def g Inr prod.case sum.case fin]
    consider "is_deleted E s" | "\<not> is_deleted E s" "has_finalizer s"
      | "\<not> is_deleted E s" "\<not> has_finalizer s" by blast
    then have "\<exists>es. log w' = log w1 @ es \<and> monitor_run E es m \<noteq> None"
    proof cases
      case 1
      with run have d: "reconcile_deletion E s w1 = (r, w')" by simp
      show ?thesis
        by (rule reconcile_deletion_accepted [OF assms(1) d]) (auto simp: m_def state_defs 1)
    next
      case 2
      with run have "reconcile_registration E key s w1 = (r, w')" by simp
      moreover have "m = live_state" using 2 by (simp add: m_def state_defs)
      ultimately show ?thesis using reconcile_registration_accepted [OF assms(2)] by blast
    next
      case 3
      with run have "reconcile_adding_finalizer E key s w1 = (r, w')" by simp
      moreover have "m = monitor0\<lparr>m_seen := True\<rparr>" using 3 by (simp add: m_def state_defs)
      ultimately show ?thesis using reconcile_adding_finalizer_accepted [OF assms(1,2)] by blast
    qed
    then show ?thesis using l1 Inr by (auto simp: accepted_def m_def monitor0_def)
  qed
qed

end
