(* ===== verification/Admission.thy ===== *)
theory Admission
  imports ApiTypes
begin

text \<open>
  What the two admission webhooks share: the error values of the Kubernetes \<open>field\<close> package,
  kept as the terms the code builds (a path, the offending value where there is one, the
  detail text), and the contract of a validator. \<open>ToAggregate\<close> is the aggregate the code
  returns when its error list is not empty.

  The locale \<open>admission\<close> states what both validators promise: creation and update are
  decided by the same specification check plus the immutability of some part of the object,
  and deletion is always allowed. Its lemmas speak of the whole life of an admitted object.
\<close>

datatype path_element = PName string | PIndex nat

datatype bad_value = BadString string | BadInt go_int

datatype field_error =
    FieldRequired "path_element list" string
  | FieldInvalid "path_element list" bad_value string
  | FieldForbidden "path_element list" string
  | FieldInternal "path_element list" admission_error
and admission_error = ToAggregate "field_error list"

text \<open>\<open>if len(allErrs) > 0 { return allErrs.ToAggregate() }; return nil\<close>.\<close>

definition aggregate :: "field_error list \<Rightarrow> admission_error option" where
  "aggregate errs = (if errs = [] then None else Some (ToAggregate errs))"

lemma aggregate_None [simp]: "aggregate errs = None \<longleftrightarrow> errs = []"
  by (simp add: aggregate_def)

section \<open>The contract of a validator\<close>

locale admission =
  fixes validate_create :: "'o \<Rightarrow> admission_error option"
    and validate_update :: "'o \<Rightarrow> 'o \<Rightarrow> admission_error option"
    and validate_delete :: "'o \<Rightarrow> admission_error option"
    and spec_ok :: "'o \<Rightarrow> bool"
    and fixed_part :: "'o \<Rightarrow> 'p"
  assumes create_iff: "validate_create x = None \<longleftrightarrow> spec_ok x"
    and update_iff: "validate_update x y = None \<longleftrightarrow> fixed_part x = fixed_part y \<and> spec_ok y"
    and delete_ok: "validate_delete x = None"
begin

lemma noop_update: "validate_create x = None \<Longrightarrow> validate_update x x = None"
  by (simp add: create_iff update_iff)

lemma update_trans:
  "validate_update x y = None \<Longrightarrow> validate_update y z = None \<Longrightarrow> validate_update x z = None"
  by (simp add: update_iff)

text \<open>
  A history is the list of versions of one object, each update admitted against the version
  before it: every version is valid and the fixed part never changes.
\<close>

lemma history_valid:
  assumes "validate_create x = None"
    and "successively (\<lambda>a b. validate_update a b = None) (x # xs)"
    and "y \<in> set (x # xs)"
  shows "spec_ok y \<and> fixed_part y = fixed_part x"
  using assms
proof (induction xs arbitrary: x)
  case Nil
  then show ?case by (simp add: create_iff)
next
  case (Cons z zs)
  then have z: "fixed_part x = fixed_part z" "validate_create z = None"
    by (simp_all add: update_iff create_iff)
  show ?case
  proof (cases "y = x")
    case True
    then show ?thesis using Cons.prems(1) by (simp add: create_iff)
  next
    case False
    then have "y \<in> set (z # zs)" using Cons.prems(3) by simp
    then show ?thesis using Cons.IH [of z] Cons.prems(2) z by simp
  qed
qed

end

end
