(* ===== verification/SchemaWebhook.thy ===== *)
theory SchemaWebhook
  imports Admission GoJson
begin

text \<open>
  The validating webhook for Schema, \<open>internal/webhook/v1alpha1/schema_webhook.go\<close>. The
  first result of the Go methods, the admission warnings, is nil on every path and left out.
\<close>

section \<open>The code\<close>

text \<open>The loop over the references: the errors of reference \<open>i\<close>, in the source's order.\<close>

definition reference_errors :: "nat \<Rightarrow> SchemaReference \<Rightarrow> field_error list" where
  "reference_errors i ref =
     (let refPath = [PName ''spec'', PName ''references'', PIndex i] in
      (if ref_name ref = []
       then [FieldRequired (refPath @ [PName ''name'']) ''reference name must not be empty''] else []) @
      (if ref_subject ref = []
       then [FieldRequired (refPath @ [PName ''subject'']) ''reference subject must not be empty''] else []) @
      (if sint (ref_version ref) < 1
       then [FieldInvalid (refPath @ [PName ''version'']) (BadInt (ref_version ref))
               ''reference version must be >= 1''] else []))"

fun references_errors :: "nat \<Rightarrow> SchemaReference list \<Rightarrow> field_error list" where
  "references_errors i [] = []"
| "references_errors i (ref # refs) = reference_errors i ref @ references_errors (Suc i) refs"

definition schema_spec_errors :: "Schema \<Rightarrow> field_error list" where
  "schema_spec_errors obj =
     (let spec = sch_spec obj in
      (if spec_subject spec = []
       then [FieldRequired [PName ''spec'', PName ''subject''] ''subject must not be empty''] else []) @
      (if spec_schema spec = []
       then [FieldRequired [PName ''spec'', PName ''schema''] ''schema content must not be empty''] else []) @
      (if rr_name (spec_registryRef spec) = []
       then [FieldRequired [PName ''spec'', PName ''registryRef'', PName ''name'']
               ''registryRef.name must not be empty''] else []) @
      (if (spec_schemaType spec = SchemaTypeAvro \<or> spec_schemaType spec = SchemaTypeJSON) \<and>
          spec_schema spec \<noteq> []
       then (if \<not> json_valid (spec_schema spec)
             then [FieldInvalid [PName ''spec'', PName ''schema''] (BadString (spec_schema spec))
                     (spec_schemaType spec @ '' schema must be valid JSON'')] else [])
       else []) @
      references_errors 0 (spec_references spec))"

definition validateSchemaSpec :: "Schema \<Rightarrow> admission_error option" where
  "validateSchemaSpec obj = aggregate (schema_spec_errors obj)"

definition schema_ValidateCreate :: "Schema \<Rightarrow> admission_error option" where
  "schema_ValidateCreate obj = validateSchemaSpec obj"

definition schema_ValidateUpdate :: "Schema \<Rightarrow> Schema \<Rightarrow> admission_error option" where
  "schema_ValidateUpdate oldObj newObj =
     aggregate
       ((if spec_subject (sch_spec oldObj) \<noteq> spec_subject (sch_spec newObj)
         then [FieldForbidden [PName ''spec'', PName ''subject'']
                 ''subject is immutable and cannot be changed after creation''] else []) @
        (if spec_schemaType (sch_spec oldObj) \<noteq> spec_schemaType (sch_spec newObj)
         then [FieldForbidden [PName ''spec'', PName ''schemaType'']
                 ''schemaType is immutable and cannot be changed after creation''] else []) @
        (case validateSchemaSpec newObj of
           None \<Rightarrow> []
         | Some err \<Rightarrow> [FieldInternal [PName ''spec''] err]))"

definition schema_ValidateDelete :: "Schema \<Rightarrow> admission_error option" where
  "schema_ValidateDelete obj = None"

section \<open>Properties\<close>

text \<open>The declarative reading of a valid Schema.\<close>

definition reference_ok :: "SchemaReference \<Rightarrow> bool" where
  "reference_ok ref \<longleftrightarrow> ref_name ref \<noteq> [] \<and> ref_subject ref \<noteq> [] \<and> 1 \<le> sint (ref_version ref)"

definition schema_ok :: "Schema \<Rightarrow> bool" where
  "schema_ok obj \<longleftrightarrow>
     spec_subject (sch_spec obj) \<noteq> [] \<and>
     spec_schema (sch_spec obj) \<noteq> [] \<and>
     rr_name (spec_registryRef (sch_spec obj)) \<noteq> [] \<and>
     (spec_schemaType (sch_spec obj) \<in> {SchemaTypeAvro, SchemaTypeJSON} \<longrightarrow>
        json_valid (spec_schema (sch_spec obj))) \<and>
     (\<forall>ref \<in> set (spec_references (sch_spec obj)). reference_ok ref)"

lemma reference_errors_Nil: "reference_errors i ref = [] \<longleftrightarrow> reference_ok ref"
  by (auto simp: reference_errors_def reference_ok_def Let_def)

lemma references_errors_Nil: "references_errors i refs = [] \<longleftrightarrow> (\<forall>ref \<in> set refs. reference_ok ref)"
  by (induction refs arbitrary: i) (auto simp: reference_errors_Nil)

lemma schema_spec_errors_Nil: "schema_spec_errors obj = [] \<longleftrightarrow> schema_ok obj"
  by (auto simp: schema_spec_errors_def schema_ok_def Let_def references_errors_Nil)

lemma validateSchemaSpec_None: "validateSchemaSpec obj = None \<longleftrightarrow> schema_ok obj"
  by (simp add: validateSchemaSpec_def schema_spec_errors_Nil)

definition schema_fixed_part :: "Schema \<Rightarrow> string \<times> SchemaType" where
  "schema_fixed_part obj = (spec_subject (sch_spec obj), spec_schemaType (sch_spec obj))"

lemma schema_update_iff:
  "schema_ValidateUpdate x y = None \<longleftrightarrow> schema_fixed_part x = schema_fixed_part y \<and> schema_ok y"
  using validateSchemaSpec_None [of y]
  by (auto simp: schema_ValidateUpdate_def schema_fixed_part_def split: option.splits)

interpretation schema_admission: admission
  schema_ValidateCreate schema_ValidateUpdate schema_ValidateDelete schema_ok schema_fixed_part
  by unfold_locales
    (simp_all add: schema_ValidateCreate_def validateSchemaSpec_None schema_update_iff
      schema_ValidateDelete_def)

text \<open>Which reference an error points at: the errors of reference \<open>i\<close> carry the index \<open>i\<close>.\<close>

fun error_path :: "field_error \<Rightarrow> path_element list" where
  "error_path (FieldRequired p d) = p"
| "error_path (FieldInvalid p v d) = p"
| "error_path (FieldForbidden p d) = p"
| "error_path (FieldInternal p e) = p"

lemma reference_errors_path:
  "e \<in> set (reference_errors i ref) \<Longrightarrow>
    \<exists>f. error_path e = [PName ''spec'', PName ''references'', PIndex i, f]"
  by (auto simp: reference_errors_def Let_def split: if_splits)

lemma references_errors_nth:
  "i < length refs \<Longrightarrow> \<not> reference_ok (refs ! i) \<Longrightarrow>
    \<exists>e \<in> set (references_errors k refs).
      take 3 (error_path e) = [PName ''spec'', PName ''references'', PIndex (k + i)]"
proof (induction refs arbitrary: i k)
  case Nil
  then show ?case by simp
next
  case (Cons ref refs)
  show ?case
  proof (cases i)
    case 0
    with Cons.prems obtain e where e: "e \<in> set (reference_errors k ref)"
      using reference_errors_Nil [of k ref] by (cases "reference_errors k ref") auto
    obtain f where "error_path e = [PName ''spec'', PName ''references'', PIndex k, f]"
      using reference_errors_path [OF e] by blast
    then show ?thesis using e 0 by (auto intro!: bexI [of _ e])
  next
    case (Suc j)
    then show ?thesis using Cons.IH [of j "Suc k"] Cons.prems by auto
  qed
qed

lemma references_errors_sound:
  "e \<in> set (references_errors k refs) \<Longrightarrow>
    \<exists>i f. i < length refs \<and> \<not> reference_ok (refs ! i) \<and>
      error_path e = [PName ''spec'', PName ''references'', PIndex (k + i), f]"
proof (induction refs arbitrary: k)
  case Nil
  then show ?case by simp
next
  case (Cons ref refs)
  consider "e \<in> set (reference_errors k ref)" | "e \<in> set (references_errors (Suc k) refs)"
    using Cons.prems by auto
  then show ?case
  proof cases
    case 1
    then have "\<not> reference_ok ref" using reference_errors_Nil [of k ref] by auto
    then show ?thesis using reference_errors_path [OF 1] by (force intro: exI [of _ 0])
  next
    case 2
    then obtain i f where "i < length refs" "\<not> reference_ok (refs ! i)"
      "error_path e = [PName ''spec'', PName ''references'', PIndex (Suc k + i), f]"
      using Cons.IH by blast
    then show ?thesis by (intro exI [of _ "Suc i"] exI [of _ f]) simp
  qed
qed

end
