(* ===== verification/SchemaFrame.thy ===== *)
theory SchemaFrame
  imports SchemaController SchemaWebhook
begin

text \<open>
  How much a Schema reconciliation does, what its writes leave alone and when it stops. A step of the run is
  \<open>framed\<close> by a number of calls and the Schemas read so far: it makes no more calls than that,
  every Schema it writes is one that was read before, but for the finalizers (an update)
  or the status (a status update), and a Schema it cannot read ends the run.
\<close>

section \<open>Writes that keep what was read\<close>

definition same_but_finalizers :: "Schema \<Rightarrow> Schema \<Rightarrow> bool" where
  "same_but_finalizers s' s \<longleftrightarrow>
     s' = s\<lparr>sch_meta := (sch_meta s)\<lparr>meta_finalizers := meta_finalizers (sch_meta s')\<rparr>\<rparr>"

definition same_but_status :: "Schema \<Rightarrow> Schema \<Rightarrow> bool" where
  "same_but_status s' s \<longleftrightarrow> s' = s\<lparr>sch_status := sch_status s'\<rparr>"

lemma same_spec:
  "same_but_finalizers s' s \<Longrightarrow> sch_spec s' = sch_spec s"
  "same_but_status s' s \<Longrightarrow> sch_spec s' = sch_spec s"
  unfolding same_but_finalizers_def same_but_status_def
  by (metis Schema.select_convs(2) Schema.surjective Schema.update_convs(1),
      metis Schema.select_convs(2) Schema.surjective Schema.update_convs(3))

fun keeps :: "Schema list \<Rightarrow> event list \<Rightarrow> bool" where
  "keeps seen [] \<longleftrightarrow> True"
| "keeps seen (GotSchema k r # es) \<longleftrightarrow> keeps (case r of Inl e \<Rightarrow> seen | Inr s \<Rightarrow> s # seen) es"
| "keeps seen (UpdatedSchema s' u # es) \<longleftrightarrow> list_ex (same_but_finalizers s') seen \<and> keeps seen es"
| "keeps seen (UpdatedSchemaStatus s' u # es) \<longleftrightarrow> list_ex (same_but_status s') seen \<and> keeps seen es"
| "keeps seen (e # es) \<longleftrightarrow> keeps seen es"

lemma keeps_mono: "keeps seen es \<Longrightarrow> set seen \<subseteq> set seen' \<Longrightarrow> keeps seen' es"
proof (induction seen es arbitrary: seen' rule: keeps.induct)
  case (2 seen k r es)
  show ?case
    using "2.IH" [of "case r of Inl e \<Rightarrow> seen' | Inr s \<Rightarrow> s # seen'"] "2.prems"
    by (cases r) auto
qed (auto simp: list_ex_iff)

text \<open>A Schema that cannot be read ends the run, with the error unless it is a not-found error.\<close>

fun stops :: "'w env \<Rightarrow> go_error option \<Rightarrow> event list \<Rightarrow> bool" where
  "stops E u [] \<longleftrightarrow> True"
| "stops E u (GotSchema k r # es) \<longleftrightarrow>
     (case r of Inl e \<Rightarrow> es = [] \<and> u = env_ignore_not_found E e | Inr s \<Rightarrow> stops E u es)"
| "stops E u (e # es) \<longleftrightarrow> stops E u es"

lemma stops_last:
  "stops E u es \<Longrightarrow> GotSchema k (Inl e) \<in> set es \<Longrightarrow>
    last es = GotSchema k (Inl e) \<and> u = env_ignore_not_found E e"
  by (induction E u es rule: stops.induct) (auto split: sum.splits)

definition framed :: "'w env \<Rightarrow> nat \<Rightarrow> Schema list \<Rightarrow> go_error option \<Rightarrow> event list \<Rightarrow> bool" where
  "framed E n seen u es \<longleftrightarrow> length es \<le> n \<and> keeps seen es \<and> stops E u es"

lemma framed_Nil [simp]: "framed E n seen u []"
  by (simp add: framed_def)

lemma framed_le: "framed E m seen u es \<Longrightarrow> m \<le> n \<Longrightarrow> framed E n seen u es"
  by (simp add: framed_def)

lemma framed_read:
  "framed E n (s # seen) u es \<Longrightarrow> framed E (Suc n) seen u (GotSchema k (Inr s) # es)"
  by (simp add: framed_def)

lemma framed_unread: "framed E (Suc n) seen (env_ignore_not_found E e) [GotSchema k (Inl e)]"
  by (simp add: framed_def)

lemma framed_update:
  "framed E n seen u es \<Longrightarrow> same_but_finalizers s' s \<Longrightarrow> s \<in> set seen \<Longrightarrow>
    framed E (Suc n) seen u (UpdatedSchema s' v # es)"
  by (auto simp: framed_def list_ex_iff)

text \<open>Calls that read and write no Schema.\<close>

definition no_object :: "event \<Rightarrow> bool" where
  "no_object e \<longleftrightarrow> (is_resolve e \<or> (\<exists>hc rq out. e = HttpDone hc rq out))"

definition quiet :: "nat \<Rightarrow> event list \<Rightarrow> bool" where
  "quiet n es \<longleftrightarrow> length es \<le> n \<and> list_all no_object es"

lemma quiet_append: "quiet m xs \<Longrightarrow> quiet n ys \<Longrightarrow> quiet (m + n) (xs @ ys)"
  by (simp add: quiet_def)

lemma keeps_no_object: "list_all no_object xs \<Longrightarrow> keeps seen ys \<Longrightarrow> keeps seen (xs @ ys)"
  by (induction xs) (auto simp: no_object_def is_resolve_def split: event.splits)

lemma stops_no_object: "list_all no_object xs \<Longrightarrow> stops E u ys \<Longrightarrow> stops E u (xs @ ys)"
  by (induction xs) (auto simp: no_object_def is_resolve_def split: event.splits)

lemma quiet_framed: "quiet m xs \<Longrightarrow> framed E n seen u ys \<Longrightarrow> framed E (m + n) seen u (xs @ ys)"
  by (auto simp: quiet_def framed_def intro: keeps_no_object stops_no_object)

lemma framed_quiet: "quiet n es \<Longrightarrow> framed E n seen u es"
  using quiet_framed [of n es E 0 seen u "[]"] by simp

section \<open>The steps of a run\<close>

lemma auth_secrets_two: "length (auth_secret_names sr) \<le> 2"
  by (simp add: auth_secret_names_def split: option.splits)

lemma buildClient_quiet:
  assumes "buildClient E s w = (r, w')"
  shows "\<exists>es. log w' = log w @ es \<and> quiet 3 es"
proof -
  obtain out w1 where g: "k8s_get_registry E (registry_key s) w = (out, w1)"
    by (cases "k8s_get_registry E (registry_key s) w")
  note l1 = op_log(2) [OF g]
  show ?thesis
  proof (cases out)
    case (Inl e)
    then show ?thesis using assms g l1 by (auto simp: buildClient_def quiet_def no_object_def)
  next
    case (Inr sr)
    obtain a w2 where la: "loadAuthConfig E sr w1 = (a, w2)" by (cases "loadAuthConfig E sr w1")
    then obtain es where l2: "log w2 = log w1 @ es" and c: "auth_contract sr a es"
      by (rule auth_loader.eventsE)
    have "w' = w2" using assms g la Inr by (auto simp: buildClient_def split: sum.splits)
    moreover have "length es \<le> 2" using c auth_secrets_two [of sr] by (auto simp: auth_contract_def)
    moreover have "list_all no_object es"
      using c secret_reads_resolve by (auto simp: auth_contract_def no_object_def list_all_iff)
    ultimately show ?thesis using l1 l2
      by (intro exI [of _ "GotRegistry (registry_key s) out # es"])
        (simp add: quiet_def no_object_def)
  qed
qed

lemma contracts_quiet:
  "delete_contract c subj rd es \<Longrightarrow> quiet 1 es"
  "register_contract c subj q rr es \<Longrightarrow> quiet 2 es"
  "compat_contract c subj level rd es \<Longrightarrow> quiet 1 es"
  by (auto simp: delete_contract_def register_contract_def compat_contract_def quiet_def no_object_def
      split: option.splits)

lemma setConditionFailed_framed:
  assumes "setConditionFailed E s reason msg w = (u, w')"
  shows "\<exists>es. log w' = log w @ es \<and> framed E 2 seen u es"
proof -
  obtain out w1 where g: "k8s_get_schema E (env_object_key E (sch_meta s)) w = (out, w1)"
    by (cases "k8s_get_schema E (env_object_key E (sch_meta s)) w")
  note l1 = op_log(1) [OF g]
  show ?thesis
  proof (cases out)
    case (Inl e)
    then show ?thesis using assms g l1 by (auto simp: setConditionFailed_def framed_def)
  next
    case (Inr s1)
    let ?s2 = "set_schema_condition E w1
      (ready_condition ConditionFalse reason msg (meta_generation (sch_meta s1))) s1"
    have "k8s_update_schema_status E ?s2 w1 = (u, w')"
      using assms g Inr by (simp add: setConditionFailed_def)
    moreover have "same_but_status ?s2 s1" by (simp add: same_but_status_def set_schema_condition_def)
    ultimately show ?thesis using l1 Inr by (auto simp: framed_def dest: op_log)
  qed
qed

lemma update_registered_framed:
  assumes "update_registered E key resp w = (r, w')"
  shows "\<exists>es. log w' = log w @ es \<and> framed E 2 seen (snd r) es"
proof -
  obtain out w1 where g: "k8s_get_schema E key w = (out, w1)" by (cases "k8s_get_schema E key w")
  note l1 = op_log(1) [OF g]
  show ?thesis
  proof (cases out)
    case (Inl e)
    then show ?thesis using assms g l1 by (auto simp: update_registered_def framed_def)
  next
    case (Inr s)
    obtain now w2 where t: "read_clock E w1 = (now, w2)" by (cases "read_clock E w1")
    obtain u w3 where u: "k8s_update_schema_status E (registered_status E w2 now resp s) w2 = (u, w3)"
      by (cases "k8s_update_schema_status E (registered_status E w2 now resp s) w2")
    have "w' = w3" using assms g Inr t u by (auto simp: update_registered_def split: option.splits)
    moreover have "same_but_status (registered_status E w2 now resp s) s"
      by (simp add: same_but_status_def registered_status_def set_schema_condition_def)
    ultimately show ?thesis using l1 read_clock_log [OF t] op_log(7) [OF u] Inr
      by (auto simp: framed_def)
  qed
qed

lemma compat_quiet: "\<exists>es. log (set_compatibility_if_given E c s w) = log w @ es \<and> quiet 1 es"
proof (cases "spec_compatibilityLevel (sch_spec s) = []")
  case True
  then show ?thesis by (simp add: set_compatibility_if_given_def quiet_def)
next
  case False
  obtain r w1 where sc: "SetCompatibility E c (spec_subject (sch_spec s))
      (spec_compatibilityLevel (sch_spec s)) w = (r, w1)"
    by (cases "SetCompatibility E c (spec_subject (sch_spec s)) (spec_compatibilityLevel (sch_spec s)) w")
  then obtain es where "log w1 = log w @ es"
      "compat_contract c (spec_subject (sch_spec s)) (spec_compatibilityLevel (sch_spec s)) r es"
    by (rule compat_op.eventsE)
  then show ?thesis using False sc contracts_quiet(3) by (auto simp: set_compatibility_if_given_def)
qed

lemma reconcile_registration_framed:
  assumes "reconcile_registration E key s w = (r, w')"
  shows "\<exists>es. log w' = log w @ es \<and> framed E 8 seen (snd r) es"
proof -
  obtain b w1 where b: "buildClient E s w = (b, w1)" by (cases "buildClient E s w")
  obtain es1 where l1: "log w1 = log w @ es1" "quiet 3 es1"
    using buildClient_quiet [OF b] by blast
  show ?thesis
  proof (cases b)
    case (Inl e)
    then have "setConditionFailed E s ''ClientBuildFailed'' (error_text e) w1 = (snd r, w')"
      using assms b by (auto simp: reconcile_registration_def split: prod.splits)
    from setConditionFailed_framed [OF this] obtain es2 where
      "log w' = log w1 @ es2" "framed E 2 seen (snd r) es2" by blast
    then show ?thesis using l1 framed_le [OF quiet_framed [OF l1(2)], of E 2 seen "snd r" es2 8] by auto
  next
    case (Inr c)
    let ?subj = "spec_subject (sch_spec s)"
    obtain g w2 where g: "RegisterSchema E c ?subj (register_request s) w1 = (g, w2)"
      by (cases "RegisterSchema E c ?subj (register_request s) w1")
    then obtain es2 where l2: "log w2 = log w1 @ es2"
      and "register_contract c ?subj (register_request s) g es2"
      by (rule register_op.eventsE)
    note q2 = quiet_append [OF l1(2) contracts_quiet(2) [OF this(2)]]
    show ?thesis
    proof (cases g)
      case Inl2: (Inl e)
      have "setConditionFailed E s ''RegistrationFailed'' (error_text e) w2 = (snd r, w')"
        using assms b Inr g Inl2 by (auto simp: reconcile_registration_def split: prod.splits)
      from setConditionFailed_framed [OF this] obtain es3 where
        "log w' = log w2 @ es3" "framed E 2 seen (snd r) es3" by blast
      then show ?thesis
        using l1 l2 framed_le [OF quiet_framed [OF q2], of E 2 seen "snd r" es3 8] by auto
    next
      case Inr2: (Inr resp)
      let ?w3 = "set_compatibility_if_given E c s w2"
      obtain es3 where l3: "log ?w3 = log w2 @ es3" "quiet 1 es3"
        using compat_quiet by blast
      have "update_registered E key resp ?w3 = (r, w')"
        using assms b Inr g Inr2 by (simp add: reconcile_registration_def)
      from update_registered_framed [OF this] obtain es4 where
        "log w' = log ?w3 @ es4" "framed E 2 seen (snd r) es4" by blast
      then show ?thesis
        using l1 l2 l3 quiet_framed [OF quiet_append [OF q2 l3(2)], of E 2 seen "snd r" es4] by auto
    qed
  qed
qed

lemma deleteFromRegistry_quiet:
  assumes "deleteFromRegistry E s w = (r, w')"
  shows "\<exists>es. log w' = log w @ es \<and> quiet 4 es"
proof -
  obtain b w1 where b: "buildClient E s w = (b, w1)" by (cases "buildClient E s w")
  obtain es1 where l1: "log w1 = log w @ es1" "quiet 3 es1"
    using buildClient_quiet [OF b] by blast
  show ?thesis
  proof (cases b)
    case (Inl e)
    then show ?thesis using assms b l1 by (auto simp: deleteFromRegistry_def quiet_def)
  next
    case (Inr c)
    then have "DeleteSubject E c (spec_subject (sch_spec s)) w1 = (r, w')"
      using assms b by (simp add: deleteFromRegistry_def)
    then obtain es2 where "log w' = log w1 @ es2" "delete_contract c (spec_subject (sch_spec s)) r es2"
      by (rule delete_op.eventsE)
    then show ?thesis using l1 quiet_append [OF l1(2) contracts_quiet(1)] by fastforce
  qed
qed

lemma reconcile_deletion_framed:
  assumes "reconcile_deletion E s w = (r, w')" "s \<in> set seen"
  shows "\<exists>es. log w' = log w @ es \<and> framed E 5 seen (snd r) es"
proof (cases "env_contains_finalizer E (meta_finalizers (sch_meta s)) schemaFinalizer")
  case False
  then show ?thesis using assms(1) by (simp add: reconcile_deletion_def)
next
  case True
  obtain d w1 where d: "deleteFromRegistry E s w = (d, w1)" by (cases "deleteFromRegistry E s w")
  obtain es1 where l1: "log w1 = log w @ es1" "quiet 4 es1"
    using deleteFromRegistry_quiet [OF d] by blast
  show ?thesis
  proof (cases d)
    case (Some e)
    then have "w' = w1" using assms(1) True d by (simp add: reconcile_deletion_def)
    then show ?thesis using l1 framed_le [OF framed_quiet [OF l1(2)], of 5] by auto
  next
    case None
    let ?s = "s\<lparr>sch_meta := (sch_meta s)\<lparr>meta_finalizers :=
      env_remove_finalizer E (meta_finalizers (sch_meta s)) schemaFinalizer\<rparr>\<rparr>"
    obtain u w2 where u: "k8s_update_schema E ?s w1 = (u, w2)" by (cases "k8s_update_schema E ?s w1")
    have "same_but_finalizers ?s s" by (simp add: same_but_finalizers_def)
    then have f: "framed E 1 seen (snd r) [UpdatedSchema ?s u]"
      using framed_update [of E 0 seen "snd r" "[]"] assms(2) by simp
    have "w' = w2" using assms(1) True d None u
      by (auto simp: reconcile_deletion_def Let_def split: option.splits)
    then show ?thesis using l1 op_log(6) [OF u] quiet_framed [OF l1(2) f] by auto
  qed
qed

lemma reconcile_adding_finalizer_framed:
  assumes "reconcile_adding_finalizer E key s w = (r, w')" "s \<in> set seen"
  shows "\<exists>es. log w' = log w @ es \<and> framed E 10 seen (snd r) es"
proof -
  let ?s = "add_finalizer_to E s"
  obtain u w1 where u: "k8s_update_schema E ?s w = (u, w1)" by (cases "k8s_update_schema E ?s w")
  note l1 = op_log(6) [OF u]
  have same: "same_but_finalizers ?s s" by (simp add: same_but_finalizers_def add_finalizer_to_def)
  have "\<exists>es. log w' = log w1 @ es \<and> framed E 9 seen (snd r) es"
  proof (cases u)
    case (Some e)
    then show ?thesis using assms(1) u by (simp add: reconcile_adding_finalizer_def)
  next
    case None
    obtain out w2 where g: "k8s_get_schema E key w1 = (out, w2)" by (cases "k8s_get_schema E key w1")
    note l2 = op_log(1) [OF g]
    show ?thesis
    proof (cases out)
      case (Inl e)
      then show ?thesis using assms(1) u None g l2
        by (auto simp: reconcile_adding_finalizer_def framed_def)
    next
      case (Inr s')
      then have "reconcile_registration E key s' w2 = (r, w')"
        using assms(1) u None g by (simp add: reconcile_adding_finalizer_def)
      from reconcile_registration_framed [OF this, of "s' # seen"] obtain es where
        "log w' = log w2 @ es" "framed E 8 (s' # seen) (snd r) es" by blast
      then show ?thesis using l2 Inr framed_read [of E 8 s' seen "snd r" es] by auto
    qed
  qed
  then obtain es where "log w' = log w1 @ es" "framed E 9 seen (snd r) es" by blast
  then show ?thesis using l1 framed_update [OF _ same assms(2), of E 9 "snd r" es u] by auto
qed

text \<open>A run makes at most eleven calls.\<close>

lemma schema_reconcile_framed:
  assumes "schema_reconcile E key w = (r, w')"
  shows "\<exists>es. log w' = log w @ es \<and> framed E 11 [] (snd r) es"
proof -
  obtain out w1 where g: "k8s_get_schema E key w = (out, w1)" by (cases "k8s_get_schema E key w")
  note l1 = op_log(1) [OF g]
  show ?thesis
  proof (cases out)
    case (Inl e)
    then show ?thesis using assms g l1 by (auto simp: schema_reconcile_def framed_def)
  next
    case (Inr s)
    note run = assms [unfolded schema_reconcile_def g Inr prod.case sum.case]
    have "\<exists>es. log w' = log w1 @ es \<and> framed E 10 [s] (snd r) es"
      using run reconcile_deletion_framed [of E s w1 r w' "[s]"]
        reconcile_registration_framed [of E key s w1 r w' "[s]"]
        reconcile_adding_finalizer_framed [of E key s w1 r w' "[s]"]
        framed_le [of E 5 "[s]" "snd r" _ 10] framed_le [of E 8 "[s]" "snd r" _ 10]
      by (auto split: if_splits)
    then show ?thesis using l1 Inr framed_read [of E 10 s "[]" "snd r"] by fastforce
  qed
qed

interpretation run_frame: logged_op "schema_reconcile E key" "\<lambda>r. framed E 11 [] (snd r)" for E key
  by unfold_locales (rule schema_reconcile_framed)

section \<open>What is written is admissible\<close>

lemma keeps_written:
  assumes "keeps seen es" "i < length es"
  shows "(\<forall>s' u. es ! i = UpdatedSchema s' u \<longrightarrow>
      (\<exists>s. (s \<in> set seen \<or> (\<exists>k. GotSchema k (Inr s) \<in> set (take i es))) \<and> same_but_finalizers s' s)) \<and>
    (\<forall>s' u. es ! i = UpdatedSchemaStatus s' u \<longrightarrow>
      (\<exists>s. (s \<in> set seen \<or> (\<exists>k. GotSchema k (Inr s) \<in> set (take i es))) \<and> same_but_status s' s))"
  using assms
proof (induction seen es arbitrary: i rule: keeps.induct)
  case (2 seen k r es)
  show ?case
  proof (cases i)
    case (Suc j)
    show ?thesis using "2.IH" [of j] "2.prems" Suc by (cases r) (fastforce+)
  qed simp
qed (auto simp: less_Suc_eq_0_disj list_ex_iff; blast)+

lemma framed_written:
  assumes "framed E n [] u' es" "i < length es"
  shows "es ! i = UpdatedSchema s' u \<Longrightarrow>
      \<exists>s k. GotSchema k (Inr s) \<in> set (take i es) \<and> same_but_finalizers s' s"
    and "es ! i = UpdatedSchemaStatus s' u \<Longrightarrow>
      \<exists>s k. GotSchema k (Inr s) \<in> set (take i es) \<and> same_but_status s' s"
  using keeps_written [of "[]" es i] assms by (auto simp: framed_def)

text \<open>The webhook reads the specification only, so it admits what has the same specification.\<close>

lemma admitted_same_spec:
  assumes "sch_spec s' = sch_spec s" "schema_ValidateCreate s = None"
  shows "schema_ValidateUpdate s s' = None"
proof -
  have "schema_ok s" using assms(2) schema_admission.create_iff by blast
  then have "schema_ok s'" using assms(1) by (simp add: schema_ok_def)
  then show ?thesis
    using assms(1) schema_admission.update_iff [of s s'] by (simp add: schema_fixed_part_def)
qed

end
