(* ===== verification/RegistryController.thy ===== *)
theory RegistryController
  imports SchemaController
begin

text \<open>
  The SchemaRegistry reconciler of \<open>internal/controller/schemaregistry_controller.go\<close>: the
  periodic health check and the status it writes, the failure condition, and the test of
  whether a SchemaRegistry refers to a Secret. The Go method \<open>setConditionFailed\<close> of this
  reconciler is \<open>registry_setConditionFailed\<close> here, and \<open>Reconcile\<close> is \<open>registry_reconcile\<close>.
\<close>

section \<open>The code\<close>

definition set_registry_condition ::
  "'w env \<Rightarrow> 'w world \<Rightarrow> Condition \<Rightarrow> SchemaRegistry \<Rightarrow> SchemaRegistry" where
  "set_registry_condition E w c sr =
     sr\<lparr>sr_status := (sr_status sr)\<lparr>sr_conditions :=
        env_set_status_condition E (ext w) (sr_conditions (sr_status sr)) c\<rparr>\<rparr>"

definition set_connection_status :: "string \<Rightarrow> SchemaRegistry \<Rightarrow> SchemaRegistry" where
  "set_connection_status t sr = sr\<lparr>sr_status := (sr_status sr)\<lparr>sr_connectionStatus := t\<rparr>\<rparr>"

definition registry_setConditionFailed ::
  "'w env \<Rightarrow> SchemaRegistry \<Rightarrow> string \<Rightarrow> string \<Rightarrow> 'w world \<Rightarrow> go_error option \<times> 'w world" where
  "registry_setConditionFailed E sr reason message w =
     (case k8s_get_registry E (env_object_key E (sr_meta sr)) w of
        (Inl err, w1) \<Rightarrow> (env_ignore_not_found E err, w1)
      | (Inr sr1, w1) \<Rightarrow>
          k8s_update_registry_status E
            (set_connection_status ''Unreachable''
               (set_registry_condition E w1
                  (ready_condition ConditionFalse reason message (meta_generation (sr_meta sr1)))
                  sr1)) w1)"

definition observed :: "instant \<Rightarrow> SchemaRegistry \<Rightarrow> SchemaRegistry" where
  "observed now sr =
     sr\<lparr>sr_status := (sr_status sr)
        \<lparr>sr_observedGeneration := meta_generation (sr_meta sr), sr_lastChecked := Some now\<rparr>\<rparr>"

text \<open>Lines 95 to 115 of the source: the condition and the connection status of a health check.\<close>

definition health_status ::
  "'w env \<Rightarrow> 'w world \<Rightarrow> go_error option \<Rightarrow> SchemaRegistry \<Rightarrow> SchemaRegistry" where
  "health_status E w healthErr sr =
     (case healthErr of
        Some err \<Rightarrow>
          set_connection_status ''Unreachable''
            (set_registry_condition E w
               (ready_condition ConditionFalse ''ConnectionFailed'' (error_text err)
                  (meta_generation (sr_meta sr))) sr)
      | None \<Rightarrow>
          set_connection_status ''Connected''
            (set_registry_condition E w
               (ready_condition ConditionTrue ''Connected'' ''Successfully connected to Schema Registry''
                  (meta_generation (sr_meta sr))) sr))"

definition requeue_five_minutes :: Result where
  "requeue_five_minutes = \<lparr>requeueAfter = 5 * time_Minute\<rparr>"

definition update_health ::
  "'w env \<Rightarrow> ObjectKey \<Rightarrow> go_error option \<Rightarrow> 'w world \<Rightarrow> (Result \<times> go_error option) \<times> 'w world" where
  "update_health E key healthErr w =
     (case k8s_get_registry E key w of
        (Inl err, w1) \<Rightarrow> ((no_requeue, env_ignore_not_found E err), w1)
      | (Inr sr, w1) \<Rightarrow>
          (case read_clock E w1 of (now, w2) \<Rightarrow>
             (case k8s_update_registry_status E (health_status E w2 healthErr (observed now sr)) w2 of
                (Some err, w3) \<Rightarrow> ((no_requeue, Some err), w3)
              | (None, w3) \<Rightarrow> ((requeue_five_minutes, None), w3))))"

definition registry_reconcile ::
  "'w env \<Rightarrow> ObjectKey \<Rightarrow> 'w world \<Rightarrow> (Result \<times> go_error option) \<times> 'w world" where
  "registry_reconcile E key w =
     (case k8s_get_registry E key w of
        (Inl err, w1) \<Rightarrow> ((no_requeue, env_ignore_not_found E err), w1)
      | (Inr sr, w1) \<Rightarrow>
     (case loadAuthConfig E sr w1 of
        (Inl err, w2) \<Rightarrow>
          (case registry_setConditionFailed E sr ''AuthLoadFailed'' (error_text err) w2 of
             (e, w3) \<Rightarrow> ((no_requeue, e), w3))
      | (Inr authConfig, w2) \<Rightarrow>
     (case NewClient (sr_url (sr_spec sr)) authConfig (clientTimeout sr)
             (sr_insecureSkipVerify (sr_spec sr)) of
        Inl err \<Rightarrow>
          (case registry_setConditionFailed E sr ''ClientCreateFailed'' (error_text err) w2 of
             (e, w3) \<Rightarrow> ((no_requeue, e), w3))
      | Inr srClient \<Rightarrow>
          (case HealthCheck E srClient w2 of
             (healthErr, w3) \<Rightarrow> update_health E key healthErr w3))))"

definition schemaRegistryReferencesSecret :: "SchemaRegistry \<Rightarrow> string \<Rightarrow> bool" where
  "schemaRegistryReferencesSecret sr secretName =
     (case sr_auth (sr_spec sr) of
        None \<Rightarrow> False
      | Some auth \<Rightarrow>
          if auth_type auth = AuthTypeBasic then
            (case auth_basicAuth auth of None \<Rightarrow> False | Some b \<Rightarrow> basic_secretRef b = secretName)
          else if auth_type auth = AuthTypeBearer then
            (case auth_bearerAuth auth of None \<Rightarrow> False | Some b \<Rightarrow> bearer_secretRef b = secretName)
          else if auth_type auth = AuthTypeMTLS then
            (case auth_mtls auth of
               None \<Rightarrow> False
             | Some m \<Rightarrow> mtls_certSecretRef m = secretName \<or> mtls_caSecretRef m = secretName)
          else False)"

end
