(* ===== verification/Watches.thy ===== *)
theory Watches
  imports RegistryController
begin

text \<open>
  The two mapping functions of the controllers, which turn a change of a watched object into
  reconcile requests: \<open>findSchemasForRegistry\<close> (\<open>schema_controller.go\<close>) and
  \<open>findSchemaRegistriesForSecret\<close> (\<open>schemaregistry_controller.go\<close>). The changed object is given
  by its metadata, a request is an \<open>ObjectKey\<close>, and the loops append to a list as in the source.
\<close>

section \<open>The code\<close>

definition object_key :: "ObjectMeta \<Rightarrow> ObjectKey" where
  "object_key m = \<lparr>key_namespace = meta_namespace m, key_name = meta_name m\<rparr>"

definition findSchemasForRegistry ::
  "'w env \<Rightarrow> ObjectMeta \<Rightarrow> 'w world \<Rightarrow> ObjectKey list \<times> 'w world" where
  "findSchemasForRegistry E registry w =
     (case k8s_list_schemas E (meta_namespace registry) w of
        (Inl err, w1) \<Rightarrow> ([], w1)
      | (Inr items, w1) \<Rightarrow>
          (foldl (\<lambda>requests schema.
             if rr_name (spec_registryRef (sch_spec schema)) = meta_name registry
             then requests @ [object_key (sch_meta schema)] else requests) [] items, w1))"

definition findSchemaRegistriesForSecret ::
  "'w env \<Rightarrow> ObjectMeta \<Rightarrow> 'w world \<Rightarrow> ObjectKey list \<times> 'w world" where
  "findSchemaRegistriesForSecret E secret w =
     (case k8s_list_registries E (meta_namespace secret) w of
        (Inl err, w1) \<Rightarrow> ([], w1)
      | (Inr items, w1) \<Rightarrow>
          (foldl (\<lambda>requests sr.
             if schemaRegistryReferencesSecret sr (meta_name secret)
             then requests @ [object_key (sr_meta sr)] else requests) [] items, w1))"

section \<open>The contract of a mapping function\<close>

text \<open>
  Both functions list the objects of the namespace of the changed object and ask for a
  reconciliation of exactly those that match its name, in the order of the listing.
\<close>

locale watch_map =
  fixes list_op :: "string \<Rightarrow> 'w world \<Rightarrow> (go_error + 'i list) \<times> 'w world"
    and meta_of :: "'i \<Rightarrow> ObjectMeta"
    and matches :: "'i \<Rightarrow> string \<Rightarrow> bool"
    and find_op :: "ObjectMeta \<Rightarrow> 'w world \<Rightarrow> ObjectKey list \<times> 'w world"
  assumes find_failed:
      "list_op (meta_namespace m) w = (Inl err, w') \<Longrightarrow> find_op m w = ([], w')"
    and find_listed:
      "list_op (meta_namespace m) w = (Inr items, w') \<Longrightarrow>
        find_op m w = (map (object_key \<circ> meta_of) (filter (\<lambda>i. matches i (meta_name m)) items), w')"
begin

lemma find_complete:
  assumes "list_op (meta_namespace m) w = (Inr items, w')" "i \<in> set items" "matches i (meta_name m)"
  shows "object_key (meta_of i) \<in> set (fst (find_op m w))"
  using assms find_listed [OF assms(1)] by auto

lemma find_sound:
  assumes "k \<in> set (fst (find_op m w))"
  obtains items i w' where "list_op (meta_namespace m) w = (Inr items, w')" "i \<in> set items"
    "matches i (meta_name m)" "k = object_key (meta_of i)"
proof -
  obtain out w' where l: "list_op (meta_namespace m) w = (out, w')"
    by (cases "list_op (meta_namespace m) w")
  show ?thesis
  proof (cases out)
    case (Inl e)
    then show ?thesis using assms find_failed l by auto
  next
    case (Inr items)
    then show ?thesis using assms find_listed l that by fastforce
  qed
qed

lemma find_distinct:
  assumes "list_op (meta_namespace m) w = (Inr items, w')"
    and "distinct (map (object_key \<circ> meta_of) items)"
  shows "distinct (fst (find_op m w))"
  using assms(2) find_listed [OF assms(1)] by (simp add: distinct_map_filter)

end

lemma foldl_collect:
  "foldl (\<lambda>rs x. if p x then rs @ [f x] else rs) acc xs = acc @ map f (filter p xs)"
  by (induction xs arbitrary: acc) simp_all

definition refers_by_name :: "Schema \<Rightarrow> string \<Rightarrow> bool" where
  "refers_by_name schema n \<longleftrightarrow> rr_name (spec_registryRef (sch_spec schema)) = n"

interpretation schema_watch: watch_map "k8s_list_schemas E" sch_meta refers_by_name
  "findSchemasForRegistry E" for E
  by unfold_locales
    (simp_all add: findSchemasForRegistry_def refers_by_name_def foldl_collect comp_def)

interpretation secret_watch: watch_map "k8s_list_registries E" sr_meta schemaRegistryReferencesSecret
  "findSchemaRegistriesForSecret E" for E
  by unfold_locales (simp_all add: findSchemaRegistriesForSecret_def foldl_collect comp_def)

section \<open>The secret watch covers what the loader reads\<close>

lemma references_secret_iff:
  assumes "n \<noteq> []"
  shows "schemaRegistryReferencesSecret sr n \<longleftrightarrow> n \<in> set (auth_secret_names sr)"
proof (cases "sr_auth (sr_spec sr)")
  case None
  then show ?thesis by (simp add: schemaRegistryReferencesSecret_def auth_secret_names_def)
next
  case (Some auth)
  consider "auth_type auth = AuthTypeBasic" | "auth_type auth = AuthTypeBearer"
    | "auth_type auth = AuthTypeMTLS"
    | "auth_type auth \<notin> {AuthTypeBasic, AuthTypeBearer, AuthTypeMTLS}" by blast
  then show ?thesis
  proof cases
    case 1
    then show ?thesis using Some assms
      by (cases "auth_basicAuth auth") (auto simp: schemaRegistryReferencesSecret_def auth_secret_names_def)
  next
    case 2
    then show ?thesis using Some assms
      by (cases "auth_bearerAuth auth") (auto simp: schemaRegistryReferencesSecret_def auth_secret_names_def)
  next
    case 3
    then show ?thesis using Some assms
      by (cases "auth_mtls auth") (auto simp: schemaRegistryReferencesSecret_def auth_secret_names_def)
  next
    case 4
    then show ?thesis using Some
      by (simp add: schemaRegistryReferencesSecret_def auth_secret_names_def)
  qed
qed

lemma auth_secret_referenced:
  assumes "n \<in> set (auth_secret_names sr)"
  shows "schemaRegistryReferencesSecret sr n"
proof (cases "sr_auth (sr_spec sr)")
  case None
  then show ?thesis using assms by (simp add: auth_secret_names_def)
next
  case (Some auth)
  then show ?thesis
    using assms
    by (simp add: schemaRegistryReferencesSecret_def auth_secret_names_def
        split: option.splits if_splits) (auto split: if_splits)
qed

text \<open>Every Secret a run of the loader reads is one whose change triggers a reconciliation.\<close>

lemma loader_reads_watched:
  assumes "loadAuthConfig E sr w = (r, w')" "log w' = log w @ es" "GotSecret k out \<in> set es"
    and "object_key m = k" "k8s_list_registries E (meta_namespace m) v = (Inr items, v')" "sr \<in> set items"
  shows "meta_namespace m = meta_namespace (sr_meta sr)"
    and "object_key (sr_meta sr) \<in> set (fst (findSchemaRegistriesForSecret E m v))"
proof -
  have "auth_contract sr r es" by (rule auth_loader.events_contract [OF assms(1,2)])
  then have "is_secret_read sr (GotSecret k out)"
    using assms(3) by (auto simp: auth_contract_def list_all_iff)
  then obtain n where n: "n \<in> set (auth_secret_names sr)" "k = secret_key sr n"
    by (auto simp: is_secret_read_def)
  then have m: "meta_namespace m = meta_namespace (sr_meta sr)" "meta_name m = n"
    using assms(4) by (auto simp: object_key_def secret_key_def)
  then show "meta_namespace m = meta_namespace (sr_meta sr)" by simp
  show "object_key (sr_meta sr) \<in> set (fst (findSchemaRegistriesForSecret E m v))"
    using secret_watch.find_complete [OF assms(5,6)] auth_secret_referenced [OF n(1)] m(2) by simp
qed

section \<open>The registry watch and namespaces\<close>

text \<open>What \<open>List\<close> with \<open>InNamespace\<close> promises: only objects of that namespace.\<close>

definition list_laws :: "'w env \<Rightarrow> bool" where
  "list_laws E \<longleftrightarrow>
     (\<forall>ns x items x'. env_list_schemas E ns x = (Inr items, x') \<longrightarrow>
        (\<forall>s \<in> set items. meta_namespace (sch_meta s) = ns))"

lemma list_lawsD:
  assumes "list_laws E" "k8s_list_schemas E ns w = (Inr items, w')" "s \<in> set items"
  shows "meta_namespace (sch_meta s) = ns"
  using assms
  by (auto simp: list_laws_def k8s_list_schemas_def call_def split: prod.splits)

text \<open>A Schema that refers to a registry of its own namespace is found by that registry's change.\<close>

lemma same_namespace_found:
  assumes "k8s_list_schemas E (meta_namespace m) w = (Inr items, w')" "s \<in> set items"
    and "registry_key s = object_key m"
  shows "object_key (sch_meta s) \<in> set (fst (findSchemasForRegistry E m w))"
  using schema_watch.find_complete [OF assms(1,2)] assms(3)
  by (simp add: refers_by_name_def registry_key_def object_key_def Let_def)

text \<open>A Schema in another namespace never is, whatever its reference says.\<close>

lemma other_namespace_missed:
  assumes "list_laws E" "meta_namespace (sch_meta s) \<noteq> meta_namespace m"
  shows "object_key (sch_meta s) \<notin> set (fst (findSchemasForRegistry E m w))"
proof
  assume "object_key (sch_meta s) \<in> set (fst (findSchemasForRegistry E m w))"
  then obtain items i w' where l: "k8s_list_schemas E (meta_namespace m) w = (Inr items, w')"
    and i: "i \<in> set items" "object_key (sch_meta s) = object_key (sch_meta i)"
    by (elim schema_watch.find_sound)
  then show False
    using list_lawsD [OF assms(1) l i(1)] assms(2) by (simp add: object_key_def)
qed

end
