(* ===== verification/SchemaStore.thy ===== *)
theory SchemaStore
  imports SchemaProtocol SchemaFrame Watches
begin

text \<open>
  What a Schema reconciliation does to the stored Schemas and to the subjects of the registry,
  when no other actor interferes and the reads are up to date. \<open>view\<close> gives the Schemas an external
  state stores, \<open>subjects\<close> the URLs of the subjects the registry holds; \<open>api_laws\<close> and
  \<open>registry_laws\<close> state the documented behaviour of the API server and of the registry in these
  terms. Against it a run is one update of the store: a live Schema becomes a Schema with the
  finalizer and a status, a deleted one is released.
\<close>

section \<open>The store and the registry\<close>

type_synonym store = "ObjectKey \<Rightarrow> Schema option"

text \<open>An object marked for deletion goes away with its last finalizer.\<close>

definition settle :: "Schema \<Rightarrow> Schema option" where
  "settle s =
     (if meta_deletionTimestamp (sch_meta s) \<noteq> None \<and> meta_finalizers (sch_meta s) = [] then None else Some s)"

text \<open>
  The API server: a read returns what is stored, and its not-found error says that nothing is; an
  accepted update that changes the finalizers only stores them, an accepted status update that
  changes the status only stores it. Of an update that fails nothing is said.
\<close>

definition api_laws :: "'w env \<Rightarrow> ('w \<Rightarrow> store) \<Rightarrow> bool" where
  "api_laws E view \<longleftrightarrow>
     (\<forall>x k s. view x k = Some s \<longrightarrow> object_key (sch_meta s) = k) \<and>
     (\<forall>k x r x'. env_get_schema E k x = (r, x') \<longrightarrow> view x' = view x \<and>
        (\<forall>s. r = Inr s \<longrightarrow> view x k = Some s) \<and>
        (\<forall>e. r = Inl e \<longrightarrow> env_ignore_not_found E e = None \<longrightarrow> view x k = None)) \<and>
     (\<forall>s x x' old. env_update_schema E s x = (None, x') \<longrightarrow>
        view x (object_key (sch_meta s)) = Some old \<longrightarrow> same_but_finalizers s old \<longrightarrow>
        view x' = (view x)(object_key (sch_meta s) := settle s)) \<and>
     (\<forall>s x x' old. env_update_schema_status E s x = (None, x') \<longrightarrow>
        view x (object_key (sch_meta s)) = Some old \<longrightarrow> same_but_status s old \<longrightarrow>
        view x' = (view x)(object_key (sch_meta s) \<mapsto> s)) \<and>
     (\<forall>k x r x'. env_get_registry E k x = (r, x') \<longrightarrow> view x' = view x) \<and>
     (\<forall>k x r x'. env_get_secret E k x = (r, x') \<longrightarrow> view x' = view x) \<and>
     (\<forall>c rq x r x'. env_http_do E c rq x = (r, x') \<longrightarrow> view x' = view x) \<and>
     (\<forall>x t x'. env_now E x = (t, x') \<longrightarrow> view x' = view x) \<and>
     env_object_key E = object_key \<and> env_time_is_zero E None"

text \<open>
  The registry: a registration answered with 200 leaves the subject there, a deletion answered
  with 200 or 404 leaves it gone, reading and setting the compatibility change no subject, and
  neither do the calls of the API server.
\<close>

definition registry_laws :: "'w env \<Rightarrow> ('w \<Rightarrow> string set) \<Rightarrow> bool" where
  "registry_laws E subjects \<longleftrightarrow>
     (\<forall>c rq x resp x' u. env_http_do E c rq x = (Inr resp, x') \<longrightarrow> req_method rq = MethodPost \<longrightarrow>
        req_url rq = u @ ''/versions'' \<longrightarrow> resp_status resp = StatusOK \<longrightarrow> u \<in> subjects x') \<and>
     (\<forall>c rq x resp x'. env_http_do E c rq x = (Inr resp, x') \<longrightarrow> req_method rq = MethodDelete \<longrightarrow>
        resp_status resp \<in> {StatusOK, StatusNotFound} \<longrightarrow> req_url rq \<notin> subjects x') \<and>
     (\<forall>c rq x r x'. env_http_do E c rq x = (r, x') \<longrightarrow> req_method rq \<in> {MethodGet, MethodPut} \<longrightarrow>
        subjects x' = subjects x) \<and>
     (\<forall>k x r x'. env_get_schema E k x = (r, x') \<longrightarrow> subjects x' = subjects x) \<and>
     (\<forall>s x u x'. env_update_schema E s x = (u, x') \<longrightarrow> subjects x' = subjects x) \<and>
     (\<forall>s x u x'. env_update_schema_status E s x = (u, x') \<longrightarrow> subjects x' = subjects x) \<and>
     (\<forall>k x r x'. env_get_registry E k x = (r, x') \<longrightarrow> subjects x' = subjects x) \<and>
     (\<forall>k x r x'. env_get_secret E k x = (r, x') \<longrightarrow> subjects x' = subjects x) \<and>
     (\<forall>x t x'. env_now E x = (t, x') \<longrightarrow> subjects x' = subjects x)"

section \<open>What the calls do to the store\<close>

lemma call_ext: "call f ev w = (r, w') \<Longrightarrow> f (ext w) = (r, ext w')"
  by (auto simp: call_def split: prod.splits)

lemma op_ext:
  "k8s_get_schema E k w = (r1, w') \<Longrightarrow> env_get_schema E k (ext w) = (r1, ext w')"
  "k8s_get_registry E k w = (r2, w') \<Longrightarrow> env_get_registry E k (ext w) = (r2, ext w')"
  "k8s_get_secret E k w = (r3, w') \<Longrightarrow> env_get_secret E k (ext w) = (r3, ext w')"
  "k8s_update_schema E s w = (r6, w') \<Longrightarrow> env_update_schema E s (ext w) = (r6, ext w')"
  "k8s_update_schema_status E s w = (r6, w') \<Longrightarrow> env_update_schema_status E s (ext w) = (r6, ext w')"
  "http_do E c rq w = (r7, w') \<Longrightarrow> env_http_do E c rq (ext w) = (r7, ext w')"
  "read_clock E w = (t, w') \<Longrightarrow> env_now E (ext w) = (t, ext w')"
  by (auto simp: op_defs read_clock_def dest: call_ext split: prod.splits)

lemma api_key: "api_laws E view \<Longrightarrow> view x k = Some s \<Longrightarrow> object_key (sch_meta s) = k"
  by (simp add: api_laws_def)

lemma api_calls:
  assumes "api_laws E view"
  shows "k8s_get_schema E k w = (r1, w') \<Longrightarrow> view (ext w') = view (ext w) \<and>
      (\<forall>s. r1 = Inr s \<longrightarrow> view (ext w) k = Some s) \<and>
      (\<forall>e. r1 = Inl e \<longrightarrow> env_ignore_not_found E e = None \<longrightarrow> view (ext w) k = None)"
    and "k8s_update_schema E s w = (None, w') \<Longrightarrow> view (ext w) (object_key (sch_meta s)) = Some old \<Longrightarrow>
      same_but_finalizers s old \<Longrightarrow> view (ext w') = (view (ext w))(object_key (sch_meta s) := settle s)"
    and "k8s_update_schema_status E s w = (None, w') \<Longrightarrow>
      view (ext w) (object_key (sch_meta s)) = Some old \<Longrightarrow> same_but_status s old \<Longrightarrow>
      view (ext w') = (view (ext w))(object_key (sch_meta s) \<mapsto> s)"
    and "k8s_get_registry E k w = (r2, w') \<Longrightarrow> view (ext w') = view (ext w)"
    and "k8s_get_secret E k w = (r3, w') \<Longrightarrow> view (ext w') = view (ext w)"
    and "http_do E c rq w = (r7, w') \<Longrightarrow> view (ext w') = view (ext w)"
    and "read_clock E w = (t, w') \<Longrightarrow> view (ext w') = view (ext w)"
    and "env_object_key E = object_key" and "env_time_is_zero E None"
proof -
  note laws = assms [unfolded api_laws_def]
  show "k8s_get_schema E k w = (r1, w') \<Longrightarrow> view (ext w') = view (ext w) \<and>
      (\<forall>s. r1 = Inr s \<longrightarrow> view (ext w) k = Some s) \<and>
      (\<forall>e. r1 = Inl e \<longrightarrow> env_ignore_not_found E e = None \<longrightarrow> view (ext w) k = None)"
    using laws op_ext(1) [of E k w r1 w'] by metis
  show "k8s_update_schema E s w = (None, w') \<Longrightarrow> view (ext w) (object_key (sch_meta s)) = Some old \<Longrightarrow>
      same_but_finalizers s old \<Longrightarrow> view (ext w') = (view (ext w))(object_key (sch_meta s) := settle s)"
    using laws op_ext(4) [of E s w None w'] by metis
  show "k8s_update_schema_status E s w = (None, w') \<Longrightarrow>
      view (ext w) (object_key (sch_meta s)) = Some old \<Longrightarrow> same_but_status s old \<Longrightarrow>
      view (ext w') = (view (ext w))(object_key (sch_meta s) \<mapsto> s)"
    using laws op_ext(5) [of E s w None w'] by metis
  show "k8s_get_registry E k w = (r2, w') \<Longrightarrow> view (ext w') = view (ext w)"
    using laws op_ext(2) [of E k w r2 w'] by metis
  show "k8s_get_secret E k w = (r3, w') \<Longrightarrow> view (ext w') = view (ext w)"
    using laws op_ext(3) [of E k w r3 w'] by metis
  show "http_do E c rq w = (r7, w') \<Longrightarrow> view (ext w') = view (ext w)"
    using laws op_ext(6) [of E c rq w r7 w'] by metis
  show "read_clock E w = (t, w') \<Longrightarrow> view (ext w') = view (ext w)"
    using laws op_ext(7) [of E w t w'] by metis
  show "env_object_key E = object_key" "env_time_is_zero E None"
    using laws by blast+
qed

lemma registry_calls:
  assumes "registry_laws E subjects"
  shows "http_do E c rq w = (Inr resp, w') \<Longrightarrow> req_method rq = MethodPost \<Longrightarrow>
      req_url rq = u @ ''/versions'' \<Longrightarrow> resp_status resp = StatusOK \<Longrightarrow> u \<in> subjects (ext w')"
    and "http_do E c rq w = (Inr resp, w') \<Longrightarrow> req_method rq = MethodDelete \<Longrightarrow>
      resp_status resp \<in> {StatusOK, StatusNotFound} \<Longrightarrow> req_url rq \<notin> subjects (ext w')"
    and "http_do E c rq w = (r7, w') \<Longrightarrow> req_method rq \<in> {MethodGet, MethodPut} \<Longrightarrow>
      subjects (ext w') = subjects (ext w)"
    and "k8s_get_schema E k w = (r1, w') \<Longrightarrow> subjects (ext w') = subjects (ext w)"
    and "k8s_update_schema E s w = (r6, w') \<Longrightarrow> subjects (ext w') = subjects (ext w)"
    and "k8s_update_schema_status E s w = (r6, w') \<Longrightarrow> subjects (ext w') = subjects (ext w)"
    and "k8s_get_registry E k w = (r2, w') \<Longrightarrow> subjects (ext w') = subjects (ext w)"
    and "k8s_get_secret E k w = (r3, w') \<Longrightarrow> subjects (ext w') = subjects (ext w)"
    and "read_clock E w = (t, w') \<Longrightarrow> subjects (ext w') = subjects (ext w)"
  using assms by (auto simp: registry_laws_def dest!: op_ext)

text \<open>
  Resolving the registry and talking to it leaves the stored Schemas alone: anything kept by the
  reads of SchemaRegistries and Secrets is kept by \<open>buildClient\<close>, and anything kept by requests
  by the operations of the client.
\<close>

lemma loadAuthConfig_keeps:
  assumes keep: "\<And>k r w w'. k8s_get_secret E k w = (r, w') \<Longrightarrow> f (ext w') = f (ext w)"
    and "loadAuthConfig E sr w = (r, w')"
  shows "f (ext w') = f (ext w)"
  using assms(2)
  by (auto simp: loadAuthConfig_def load_defs Let_def dest!: keep
      split: if_splits option.splits prod.splits sum.splits)

lemma buildClient_keeps:
  assumes secret: "\<And>k r w w'. k8s_get_secret E k w = (r, w') \<Longrightarrow> f (ext w') = f (ext w)"
    and registry: "\<And>k r w w'. k8s_get_registry E k w = (r, w') \<Longrightarrow> f (ext w') = f (ext w)"
    and "buildClient E s w = (r, w')"
  shows "f (ext w') = f (ext w)"
proof -
  have load: "f (ext b) = f (ext a)" if "loadAuthConfig E sr a = (x, b)" for sr a x b
    using secret that by (rule loadAuthConfig_keeps)
  show ?thesis
    using assms(3) by (auto simp: buildClient_def dest!: registry load split: prod.splits sum.splits)
qed

lemma client_keeps:
  assumes http: "\<And>c rq r w w'. http_do E c rq w = (r, w') \<Longrightarrow> f (ext w') = f (ext w)"
  shows "RegisterSchema E c subject q w = (r1, w') \<Longrightarrow> f (ext w') = f (ext w)"
    and "DeleteSubject E c subject w = (r2, w') \<Longrightarrow> f (ext w') = f (ext w)"
    and "SetCompatibility E c subject level w = (r2, w') \<Longrightarrow> f (ext w') = f (ext w)"
  by (auto simp: RegisterSchema_def getLatestVersionForSubject_def DeleteSubject_def SetCompatibility_def
      dest!: http split: if_splits option.splits prod.splits sum.splits)

lemma new_request_fields:
  "new_request E m u b = Inr rq \<Longrightarrow> req_method rq = m \<and> req_url rq = u"
  using new_request_cases [of E m u b] by auto

lemma content_type_frame [simp]:
  "req_method (content_type_json rq) = req_method rq" "req_url (content_type_json rq) = req_url rq"
  by (simp_all add: content_type_json_def)

lemma subject_url_versions: "versions_url c subject = subject_url c subject @ ''/versions''"
  by (simp add: versions_url_def subject_url_def)

lemma registry_effects:
  assumes laws: "registry_laws E subjects"
  shows "RegisterSchema E c subject q w = (Inr resp, w') \<Longrightarrow> subject_url c subject \<in> subjects (ext w')"
    and "DeleteSubject E c subject w = (None, w') \<Longrightarrow> subject_url c subject \<notin> subjects (ext w')"
    and "SetCompatibility E c subject level w = (r2, w') \<Longrightarrow> subjects (ext w') = subjects (ext w)"
proof -
  have latest: "subjects (ext w2) = subjects (ext w1)"
    if l: "getLatestVersionForSubject E c subject w1 = (r, w2)" for r w1 w2
  proof (cases "new_request E MethodGet (latest_url c subject) None")
    case (Inl e)
    then show ?thesis using l by (simp add: getLatestVersionForSubject_def)
  next
    case (Inr req)
    obtain out w3 where h: "http_do E (c_httpClient c) (addAuth c req) w1 = (out, w3)"
      by (cases "http_do E (c_httpClient c) (addAuth c req) w1")
    then have "w2 = w3"
      using l Inr by (auto simp: getLatestVersionForSubject_def split: sum.splits if_splits option.splits)
    then show ?thesis
      using registry_calls(3) [OF laws h] new_request_fields [OF Inr] by simp
  qed
  show "subject_url c subject \<in> subjects (ext w')" if r: "RegisterSchema E c subject q w = (Inr resp, w')"
  proof -
    obtain req where req: "new_request E MethodPost (versions_url c subject)
        (Some (render (request_json q))) = Inr req"
      using r by (auto simp: RegisterSchema_def marshal_request_def split: sum.splits)
    obtain out w1 where h: "http_do E (c_httpClient c) (content_type_json (addAuth c req)) w = (out, w1)"
      by (cases "http_do E (c_httpClient c) (content_type_json (addAuth c req)) w")
    obtain v w2 where g: "getLatestVersionForSubject E c subject w1 = (v, w2)"
      by (cases "getLatestVersionForSubject E c subject w1")
    obtain resp' where o: "out = Inr resp'" "resp_status resp' = StatusOK" and "w' = w2"
      using r req h g
      by (auto simp: RegisterSchema_def marshal_request_def split: sum.splits if_splits option.splits)
    have "subject_url c subject \<in> subjects (ext w1)"
      using registry_calls(1) [OF laws h [unfolded o], of "subject_url c subject"]
        new_request_fields [OF req] o by (simp add: subject_url_versions)
    then show ?thesis using latest [OF g] \<open>w' = w2\<close> by simp
  qed
  show "subject_url c subject \<notin> subjects (ext w')" if d: "DeleteSubject E c subject w = (None, w')"
  proof -
    obtain req where req: "new_request E MethodDelete (subject_url c subject) None = Inr req"
      using d by (auto simp: DeleteSubject_def split: sum.splits)
    obtain resp where "http_do E (c_httpClient c) (addAuth c req) w = (Inr resp, w')"
        "resp_status resp \<in> {StatusOK, StatusNotFound}"
      using d req by (auto simp: DeleteSubject_def split: prod.splits sum.splits if_splits)
    then show ?thesis
      using registry_calls(2) [OF laws] new_request_fields [OF req] by fastforce
  qed
  show "subjects (ext w') = subjects (ext w)" if s: "SetCompatibility E c subject level w = (r2, w')"
  proof (cases "new_request E MethodPut (config_url c subject)
      (Some (render (JObj [(''compatibility'', JStr level)])))")
    case (Inl e)
    then show ?thesis using s by (simp add: SetCompatibility_def marshal_compatibility_def)
  next
    case (Inr req)
    obtain out w1 where h: "http_do E (c_httpClient c) (content_type_json (addAuth c req)) w = (out, w1)"
      by (cases "http_do E (c_httpClient c) (content_type_json (addAuth c req)) w")
    then have "w' = w1"
      using s Inr by (auto simp: SetCompatibility_def marshal_compatibility_def split: sum.splits if_splits)
    then show ?thesis
      using registry_calls(3) [OF laws h] new_request_fields [OF Inr] by simp
  qed
qed

section \<open>What the steps of a run do to the store\<close>

text \<open>Where the registry keeps the subject of a Schema.\<close>

definition subject_at :: "SchemaRegistry \<Rightarrow> Schema \<Rightarrow> string" where
  "subject_at sr s = sr_url (sr_spec sr) @ ''/subjects/'' @ spec_subject (sch_spec s)"

lemma client_subject: "client_of sr c \<Longrightarrow> subject_url c (spec_subject (sch_spec s)) = subject_at sr s"
  by (simp add: client_of_def subject_url_def subject_at_def)

text \<open>A status that records a successful registration of the specification as it is.\<close>

definition registered :: "Schema \<Rightarrow> bool" where
  "registered s \<longleftrightarrow>
     ready_status s = Some ConditionTrue \<and>
     status_observedGeneration (sch_status s) = meta_generation (sch_meta s) \<and>
     status_schemaID (sch_status s) \<noteq> None \<and> status_version (sch_status s) \<noteq> None \<and>
     status_registeredAt (sch_status s) \<noteq> None"

lemma registered_status_registered:
  "condition_laws E \<Longrightarrow> registered (registered_status E w now resp s)"
  by (simp add: registered_def registered_status_def ready_status_set)

lemma compat_step_keeps:
  assumes keep: "\<And>subject level r w w'. SetCompatibility E c subject level w = (r, w') \<Longrightarrow> f (ext w') = f (ext w)"
  shows "f (ext (set_compatibility_if_given E c s w)) = f (ext w)"
  using keep [of "spec_subject (sch_spec s)" "spec_compatibilityLevel (sch_spec s)" w]
  by (cases "SetCompatibility E c (spec_subject (sch_spec s)) (spec_compatibilityLevel (sch_spec s)) w")
    (simp add: set_compatibility_if_given_def)

lemma store_steps:
  assumes "api_laws E view"
  shows "buildClient E s w = (r1, w') \<Longrightarrow> view (ext w') = view (ext w)"
    and "RegisterSchema E c subject q w = (r2, w') \<Longrightarrow> view (ext w') = view (ext w)"
    and "DeleteSubject E c subject w = (r3, w') \<Longrightarrow> view (ext w') = view (ext w)"
    and "view (ext (set_compatibility_if_given E c s w)) = view (ext w)"
proof -
  note calls = api_calls [OF assms]
  show "buildClient E s w = (r1, w') \<Longrightarrow> view (ext w') = view (ext w)"
    using calls(5) calls(4) by (rule buildClient_keeps)
  show "RegisterSchema E c subject q w = (r2, w') \<Longrightarrow> view (ext w') = view (ext w)"
    using calls(6) by (rule client_keeps(1))
  show "DeleteSubject E c subject w = (r3, w') \<Longrightarrow> view (ext w') = view (ext w)"
    using calls(6) by (rule client_keeps(2))
  show "view (ext (set_compatibility_if_given E c s w)) = view (ext w)"
    using client_keeps(3) [where f = view, OF calls(6)] by (rule compat_step_keeps)
qed

lemma subjects_steps:
  assumes "registry_laws E subjects"
  shows "subjects (ext (set_compatibility_if_given E c s w)) = subjects (ext w)"
    and "update_registered E key resp w = (r, w') \<Longrightarrow> subjects (ext w') = subjects (ext w)"
proof -
  show "subjects (ext (set_compatibility_if_given E c s w)) = subjects (ext w)"
    using registry_effects(3) [OF assms] by (rule compat_step_keeps)
  show "update_registered E key resp w = (r, w') \<Longrightarrow> subjects (ext w') = subjects (ext w)"
    using registry_calls(4,6,9) [OF assms]
    by (auto simp: update_registered_def split: prod.splits sum.splits option.splits)
qed

lemma failure_stored:
  assumes "api_laws E view" "condition_laws E" "view (ext w) key = Some s"
    and "setConditionFailed E s reason msg w = (None, w')"
  shows "\<exists>s'. view (ext w') = (view (ext w))(key \<mapsto> s') \<and> same_but_status s' s \<and>
    ready_status s' = Some ConditionFalse"
proof -
  have key: "object_key (sch_meta s) = key" by (rule api_key [OF assms(1,3)])
  obtain out w1 where g: "k8s_get_schema E (object_key (sch_meta s)) w = (out, w1)"
    by (cases "k8s_get_schema E (object_key (sch_meta s)) w")
  note read = api_calls(1) [OF assms(1) g]
  have out: "out = Inr s"
    using read assms(3,4) g api_calls(8) [OF assms(1)]
    by (cases out) (auto simp: key setConditionFailed_def)
  let ?s' = "set_schema_condition E w1 (ready_condition ConditionFalse reason msg (meta_generation (sch_meta s))) s"
  have u: "k8s_update_schema_status E ?s' w1 = (None, w')"
    using assms(4) g out api_calls(8) [OF assms(1)] by (simp add: setConditionFailed_def)
  have same: "same_but_status ?s' s" by (simp add: same_but_status_def set_schema_condition_def)
  have "view (ext w') = (view (ext w1))(key \<mapsto> ?s')"
    using api_calls(3) [OF assms(1) u _ same] read assms(3) by (simp add: key)
  then show ?thesis using read same ready_status_set [OF assms(2)] by auto
qed

lemma success_stored:
  assumes "api_laws E view" "condition_laws E" "view (ext w) key = Some s"
    and "update_registered E key resp w = (r, w')" "snd r = None"
  shows "\<exists>s'. view (ext w') = (view (ext w))(key \<mapsto> s') \<and> same_but_status s' s \<and> registered s' \<and>
    status_schemaID (sch_status s') = Some (res_id resp) \<and> fst r = no_requeue"
proof -
  have key: "object_key (sch_meta s) = key" by (rule api_key [OF assms(1,3)])
  obtain out w1 where g: "k8s_get_schema E key w = (out, w1)" by (cases "k8s_get_schema E key w")
  note read = api_calls(1) [OF assms(1) g]
  have out: "out = Inr s"
    using read assms(3-5) g by (cases out) (auto simp: update_registered_def)
  obtain now w2 where t: "read_clock E w1 = (now, w2)" by (cases "read_clock E w1")
  let ?s' = "registered_status E w2 now resp s"
  have u: "k8s_update_schema_status E ?s' w2 = (None, w')" and r: "fst r = no_requeue"
    using assms(4,5) g out t by (auto simp: update_registered_def split: prod.splits option.splits)
  have same: "same_but_status ?s' s"
    by (simp add: same_but_status_def registered_status_def set_schema_condition_def)
  have meta: "sch_meta ?s' = sch_meta s" "status_schemaID (sch_status ?s') = Some (res_id resp)"
    by (simp_all add: registered_status_def)
  have "view (ext w') = (view (ext w2))(key \<mapsto> ?s')"
    using api_calls(3) [OF assms(1) u _ same] api_calls(7) [OF assms(1) t] read assms(3)
    by (simp add: meta key)
  then show ?thesis
    using read api_calls(7) [OF assms(1) t] same r meta(2) registered_status_registered [OF assms(2)] by auto
qed

end
