(* ===== verification/SchemaOrder.thy ===== *)
theory SchemaOrder
  imports SchemaProtocol
begin

text \<open>
  What acceptance by the protocol means: the state of the monitor after a sequence of calls
  is evidence about those calls, so each guard of \<open>monitor_step\<close> becomes a statement about
  what must have happened earlier in the run. The section ends with the ordering properties of
  \<open>schema_reconcile\<close>, which combine this reading with the refinement of \<open>SchemaProtocol\<close>.
\<close>

section \<open>Evidence in a sequence of calls\<close>

text \<open>
  These predicates look at the kind of a call only, as the monitor does; whose subject and which
  registry a call is about is in \<open>SchemaTraffic\<close> and \<open>SchemaEvidence\<close>.
\<close>

definition is_method :: "string \<Rightarrow> event \<Rightarrow> bool" where
  "is_method meth e \<longleftrightarrow> (case e of HttpDone hc rq out \<Rightarrow> req_method rq = meth | _ \<Rightarrow> False)"

definition is_http :: "event \<Rightarrow> bool" where
  "is_http e \<longleftrightarrow> (case e of HttpDone hc rq out \<Rightarrow> True | _ \<Rightarrow> False)"

definition shows_finalizer :: "event \<Rightarrow> bool" where
  "shows_finalizer e \<longleftrightarrow>
     (case e of
        GotSchema k (Inr s) \<Rightarrow> has_finalizer s
      | UpdatedSchema s None \<Rightarrow> has_finalizer s
      | _ \<Rightarrow> False)"

definition shows_cleanup :: "event \<Rightarrow> bool" where
  "shows_cleanup e \<longleftrightarrow>
     (case e of HttpDone hc rq out \<Rightarrow> req_method rq = MethodDelete \<and> cleanup_confirmed out | _ \<Rightarrow> False)"

definition shows_registration :: "go_int \<Rightarrow> event \<Rightarrow> bool" where
  "shows_registration i e \<longleftrightarrow>
     (case e of HttpDone hc rq out \<Rightarrow> req_method rq = MethodPost \<and> registered_id out = Some i | _ \<Rightarrow> False)"

fun first_schema :: "event list \<Rightarrow> Schema option" where
  "first_schema [] = None"
| "first_schema (e # es) = (case e of GotSchema k (Inr s) \<Rightarrow> Some s | _ \<Rightarrow> first_schema es)"

lemmas event_preds =
  is_method_def is_http_def shows_finalizer_def shows_cleanup_def shows_registration_def

lemma first_schema_append:
  "first_schema (es @ fs) = (case first_schema es of Some s \<Rightarrow> Some s | None \<Rightarrow> first_schema fs)"
  by (induction es) (auto split: event.splits sum.splits)

lemma first_schema_single [simp]:
  "first_schema [e] = (case e of GotSchema k (Inr s) \<Rightarrow> Some s | _ \<Rightarrow> None)"
  by (auto split: event.splits sum.splits)

text \<open>
  What the monitor says of the calls made so far, one clause for each of its components.
\<close>

definition read_evidence :: "'w env \<Rightarrow> event list \<Rightarrow> monitor \<Rightarrow> bool" where
  "read_evidence E es m \<longleftrightarrow>
     (case first_schema es of
        None \<Rightarrow> \<not> m_seen m \<and> \<not> m_deleting m
      | Some s \<Rightarrow> m_seen m \<and> m_deleting m = is_deleted E s)"

definition finalizer_evidence :: "event list \<Rightarrow> monitor \<Rightarrow> bool" where
  "finalizer_evidence es m \<longleftrightarrow> (m_finalizer m \<longrightarrow> list_ex shows_finalizer es)"

definition cleanup_evidence :: "event list \<Rightarrow> monitor \<Rightarrow> bool" where
  "cleanup_evidence es m \<longleftrightarrow>
     (m_cleaned m \<longrightarrow> list_ex shows_cleanup es) \<and> (\<not> m_http m \<longrightarrow> \<not> list_ex is_http es)"

definition post_evidence :: "event list \<Rightarrow> monitor \<Rightarrow> bool" where
  "post_evidence es m \<longleftrightarrow>
     length (filter (is_method MethodPost) es) = (if m_posted m then 1 else 0) \<and>
     (m_deleting m \<longrightarrow> \<not> m_posted m) \<and> (m_posted m \<longrightarrow> m_seen m)"

definition registration_evidence :: "event list \<Rightarrow> monitor \<Rightarrow> bool" where
  "registration_evidence es m \<longleftrightarrow> (\<forall>i. m_registered m = Some i \<longrightarrow> list_ex (shows_registration i) es)"

lemma read_evidence_step:
  assumes "read_evidence E es m" "monitor_step E e m = Some m'"
  shows "read_evidence E (es @ [e]) m'"
  using assms
  by (cases e) (auto simp: read_evidence_def first_schema_append http_step_def
      split: option.splits sum.splits if_splits)

lemma finalizer_evidence_step:
  assumes "finalizer_evidence es m" "monitor_step E e m = Some m'"
  shows "finalizer_evidence (es @ [e]) m'"
  using assms
  by (cases e) (auto simp: finalizer_evidence_def http_step_def event_preds
      split: option.splits sum.splits if_splits)

lemma cleanup_evidence_step:
  assumes "cleanup_evidence es m" "monitor_step E e m = Some m'"
  shows "cleanup_evidence (es @ [e]) m'"
  using assms
  by (cases e) (auto simp: cleanup_evidence_def http_step_def event_preds
      split: option.splits sum.splits if_splits)

lemma post_evidence_step:
  assumes "post_evidence es m" "monitor_step E e m = Some m'"
  shows "post_evidence (es @ [e]) m'"
  using assms
  by (cases e) (auto simp: post_evidence_def http_step_def event_preds method_defs
      split: option.splits sum.splits if_splits)

lemma registration_evidence_step:
  assumes "registration_evidence es m" "monitor_step E e m = Some m'"
  shows "registration_evidence (es @ [e]) m'"
  using assms
  by (cases e) (auto simp: registration_evidence_def http_step_def event_preds
      split: option.splits sum.splits if_splits)

definition evidence :: "'w env \<Rightarrow> event list \<Rightarrow> monitor \<Rightarrow> bool" where
  "evidence E es m \<longleftrightarrow>
     read_evidence E es m \<and> finalizer_evidence es m \<and> cleanup_evidence es m \<and>
     post_evidence es m \<and> registration_evidence es m"

lemmas evidence_defs =
  evidence_def read_evidence_def finalizer_evidence_def cleanup_evidence_def post_evidence_def
  registration_evidence_def

lemma evidence_start: "evidence E [] monitor0"
  by (simp add: evidence_defs monitor0_def)

lemma evidence_step:
  "evidence E es m \<Longrightarrow> monitor_step E e m = Some m' \<Longrightarrow> evidence E (es @ [e]) m'"
  unfolding evidence_def
  by (blast intro: read_evidence_step finalizer_evidence_step cleanup_evidence_step
      post_evidence_step registration_evidence_step)

lemma evidence_run: "monitor_run E es monitor0 = Some m \<Longrightarrow> evidence E es m"
proof (induction es arbitrary: m rule: rev_induct)
  case Nil
  then show ?case by (simp add: evidence_start)
next
  case (snoc e es)
  then show ?case
    by (auto simp: monitor_run_append intro: evidence_step split: option.splits)
qed

lemma accepted_nth:
  assumes "accepted E es" "i < length es"
  obtains m m' where "monitor_step E (es ! i) m = Some m'" "evidence E (take i es) m"
proof -
  have es: "es = take i es @ es ! i # drop (Suc i) es"
    by (rule id_take_nth_drop [OF assms(2)])
  have acc: "monitor_run E (take i es @ es ! i # drop (Suc i) es) monitor0 \<noteq> None"
    using assms(1) es by (simp add: accepted_def)
  then obtain m where m: "monitor_run E (take i es) monitor0 = Some m"
    by (auto simp: monitor_run_append split: option.splits)
  moreover obtain m' where "monitor_step E (es ! i) m = Some m'"
    using acc m by (auto simp: monitor_run_append split: option.splits)
  ultimately show ?thesis using that evidence_run by blast
qed

lemma accepted_evidence:
  assumes "accepted E es"
  obtains m where "evidence E es m"
  using assms evidence_run by (auto simp: accepted_def)

section \<open>What an accepted sequence of calls looks like\<close>

lemma accepted_http_finalizer:
  assumes "accepted E es" "i < length es" "is_http (es ! i)"
  shows "list_ex shows_finalizer (take i es)"
  using assms(1,2)
proof (rule accepted_nth)
  fix m m' assume "monitor_step E (es ! i) m = Some m'" "evidence E (take i es) m"
  then show ?thesis
    using assms(3)
    by (cases "es ! i") (auto simp: evidence_defs http_step_def is_http_def split: if_splits)
qed

lemma accepted_status:
  assumes "accepted E es" "i < length es" "es ! i = UpdatedSchemaStatus s r"
  shows "ready_status s = Some ConditionFalse \<or>
    ready_status s = Some ConditionTrue \<and>
      (\<exists>n. status_schemaID (sch_status s) = Some n \<and> list_ex (shows_registration n) (take i es))"
  using assms(1,2)
proof (rule accepted_nth)
  fix m m' assume "monitor_step E (es ! i) m = Some m'" "evidence E (take i es) m"
  then show ?thesis
    using assms(3) by (auto simp: evidence_defs status_allowed_def split: if_splits option.splits)
qed

lemma accepted_posts:
  assumes "accepted E es"
  shows "length (filter (is_method MethodPost) es) \<le> 1"
proof -
  obtain m where "evidence E es m" using assms by (rule accepted_evidence)
  then show ?thesis by (auto simp: evidence_defs)
qed

text \<open>
  The deletion state is fixed by the first Schema the run reads: a run either only deletes
  or only registers.
\<close>

lemma first_schema_take: "first_schema (take i es) = Some s \<Longrightarrow> first_schema es = Some s"
  by (metis append_take_drop_id first_schema_append option.simps(5))

lemma read_evidence_first:
  assumes "evidence E (take i es) m" "m_seen m" "first_schema es = Some s"
  shows "m_deleting m = is_deleted E s"
proof -
  obtain s' where s': "first_schema (take i es) = Some s'" "m_deleting m = is_deleted E s'"
    using assms(1,2) by (auto simp: evidence_def read_evidence_def split: option.splits)
  have "s' = s" using first_schema_take [OF s'(1)] assms(3) by simp
  with s'(2) show ?thesis by simp
qed

lemma accepted_direction:
  assumes "accepted E es" "i < length es" "first_schema es = Some s"
    "es ! i = HttpDone hc rq out"
  shows "req_method rq = MethodDelete \<longleftrightarrow> is_deleted E s"
  using assms(1,2)
proof (rule accepted_nth)
  fix m m' assume "monitor_step E (es ! i) m = Some m'" and ev: "evidence E (take i es) m"
  then have st: "http_step rq out m = Some m'" by (simp add: assms(4))
  then have "m_seen m" by (simp add: http_step_def split: if_splits)
  then have "m_deleting m = is_deleted E s" by (rule read_evidence_first [OF ev _ assms(3)])
  then show ?thesis using st by (simp add: http_step_def split: if_splits)
qed

lemma accepted_deleting_status:
  assumes "accepted E es" "first_schema es = Some s" "is_deleted E s" "i < length es"
  shows "es ! i \<noteq> UpdatedSchemaStatus s' r"
proof
  assume e: "es ! i = UpdatedSchemaStatus s' r"
  show False
    using assms(1,4)
  proof (rule accepted_nth)
    fix m m' assume "monitor_step E (es ! i) m = Some m'" and ev: "evidence E (take i es) m"
    then have "m_seen m" "\<not> m_deleting m" by (simp_all add: e split: if_splits)
    then show False using read_evidence_first [OF ev _ assms(2)] assms(3) by simp
  qed
qed

text \<open>The calls a Schema run may make at all.\<close>

definition schema_call :: "event \<Rightarrow> bool" where
  "schema_call e \<longleftrightarrow>
     (case e of
        ListedSchemas ns r \<Rightarrow> False
      | ListedRegistries ns r \<Rightarrow> False
      | UpdatedRegistryStatus sr r \<Rightarrow> False
      | _ \<Rightarrow> True)"

lemma accepted_calls: "accepted E es \<Longrightarrow> list_all schema_call es"
proof -
  have "monitor_run E es m \<noteq> None \<Longrightarrow> list_all schema_call es" for m
  proof (induction es arbitrary: m)
    case Nil
    then show ?case by simp
  next
    case (Cons e es)
    then obtain m' where "monitor_step E e m = Some m'" "monitor_run E es m' \<noteq> None"
      by (auto split: option.splits)
    then show ?case using Cons.IH by (cases e) (auto simp: schema_call_def)
  qed
  then show "accepted E es \<Longrightarrow> list_all schema_call es"
    by (simp add: accepted_def)
qed

end
