(* ===== verification/SchemaTraffic.thy ===== *)
theory SchemaTraffic
  imports SchemaOrder
begin

text \<open>
  What a Schema run says to the outside: every request it sends is one of the four requests
  about the subject of the Schema, made by a client built from the SchemaRegistry the Schema
  refers to; and what its last call is when it ends without an error.
\<close>

section \<open>Requests are about the subject, through the referenced registry\<close>

definition schema_requests :: "SchemaRegistryClient \<Rightarrow> Schema \<Rightarrow> HttpRequest list" where
  "schema_requests c s =
     (let subject = spec_subject (sch_spec s) in
      [delete_request c subject, post_request c subject (register_request s),
       latest_request c subject, compat_request c subject (spec_compatibilityLevel (sch_spec s))])"

text \<open>\<open>read\<close> are the calls made before; the client comes from a SchemaRegistry among them.\<close>

definition on_behalf_of :: "Schema \<Rightarrow> event list \<Rightarrow> event \<Rightarrow> bool" where
  "on_behalf_of s read e \<longleftrightarrow>
     (case e of
        HttpDone hc rq out \<Rightarrow>
          \<exists>sr c. GotRegistry (registry_key s) (Inr sr) \<in> set read \<and> client_of sr c \<and>
            hc = c_httpClient c \<and> rq \<in> set (schema_requests c s)
      | _ \<Rightarrow> True)"

definition traffic :: "Schema \<Rightarrow> event list \<Rightarrow> bool" where
  "traffic s es \<longleftrightarrow> (\<forall>e \<in> set es. on_behalf_of s es e)"

lemma on_behalf_of_mono: "on_behalf_of s xs e \<Longrightarrow> set xs \<subseteq> set ys \<Longrightarrow> on_behalf_of s ys e"
  by (auto simp: on_behalf_of_def split: event.splits)

lemma not_http_on_behalf [simp]: "\<not> is_http e \<Longrightarrow> on_behalf_of s xs e"
  by (auto simp: on_behalf_of_def is_http_def split: event.splits)

lemma traffic_append:
  assumes "traffic s xs" "\<forall>e \<in> set ys. on_behalf_of s (xs @ ys) e"
  shows "traffic s (xs @ ys)"
  using assms by (auto simp: traffic_def intro: on_behalf_of_mono)

lemma quiet_traffic: "\<not> list_ex is_http es \<Longrightarrow> traffic s es"
  by (auto simp: traffic_def list_ex_iff)

lemma traffic_quiet_append: "traffic s xs \<Longrightarrow> \<not> list_ex is_http ys \<Longrightarrow> traffic s (xs @ ys)"
  by (rule traffic_append) (auto simp: list_ex_iff)

lemma traffic_quiet_before: "traffic s ys \<Longrightarrow> \<not> list_ex is_http xs \<Longrightarrow> traffic s (xs @ ys)"
  by (auto simp: traffic_def list_ex_iff intro: on_behalf_of_mono)

lemma resolve_not_http: "list_all is_resolve es \<Longrightarrow> \<not> list_ex is_http es"
  by (induction es) (auto simp: is_resolve_def is_http_def split: event.splits)

lemma build_contract_client:
  assumes "build_contract s (Inr c) es"
  obtains sr where "GotRegistry (registry_key s) (Inr sr) \<in> set es" "client_of sr c"
proof -
  obtain out es' where es: "es = GotRegistry (registry_key s) out # es'"
    and out: "case out of Inl e \<Rightarrow> False | Inr sr \<Rightarrow> client_of sr c"
    using assms unfolding build_contract_def by (force split: sum.splits)
  then show ?thesis by (cases out) (auto intro: that)
qed

text \<open>The events of an operation of a client built from a SchemaRegistry that was read.\<close>

lemma client_traffic:
  assumes "build_contract s (Inr c) xs"
    and "\<forall>e \<in> set ys. \<exists>rq out. e = HttpDone (c_httpClient c) rq out \<and> rq \<in> set (schema_requests c s)"
    and "set xs \<subseteq> set zs" "e \<in> set ys"
  shows "on_behalf_of s zs e"
proof -
  obtain sr where "GotRegistry (registry_key s) (Inr sr) \<in> set zs" "client_of sr c"
    using build_contract_client [OF assms(1)] assms(3) by auto
  moreover obtain rq out where "e = HttpDone (c_httpClient c) rq out" "rq \<in> set (schema_requests c s)"
    using assms(2,4) by blast
  ultimately show ?thesis by (auto simp: on_behalf_of_def)
qed

lemma delete_sends:
  "delete_contract c (spec_subject (sch_spec s)) r es \<Longrightarrow> e \<in> set es \<Longrightarrow>
    \<exists>rq out. e = HttpDone (c_httpClient c) rq out \<and> rq \<in> set (schema_requests c s)"
  by (auto simp: delete_contract_def schema_requests_def Let_def)

lemma register_sends:
  "register_contract c (spec_subject (sch_spec s)) (register_request s) r es \<Longrightarrow> e \<in> set es \<Longrightarrow>
    \<exists>rq out. e = HttpDone (c_httpClient c) rq out \<and> rq \<in> set (schema_requests c s)"
  by (auto simp: register_contract_def schema_requests_def Let_def split: option.splits)

lemma compat_sends:
  "compat_contract c (spec_subject (sch_spec s)) (spec_compatibilityLevel (sch_spec s)) r es \<Longrightarrow>
    e \<in> set es \<Longrightarrow>
    \<exists>rq out. e = HttpDone (c_httpClient c) rq out \<and> rq \<in> set (schema_requests c s)"
  by (auto simp: compat_contract_def schema_requests_def Let_def)

section \<open>Contracts of the two halves of a run\<close>

text \<open>
  The final call of a run that read everything it asked for and returned no error: the
  status it stored, Ready true without a requeue or Ready false with one.
\<close>

definition settled :: "Result \<times> go_error option \<Rightarrow> event list \<Rightarrow> bool" where
  "settled r es \<longleftrightarrow>
     snd r = None \<longrightarrow> (\<forall>k e. GotSchema k (Inl e) \<notin> set es) \<longrightarrow>
     (\<exists>s. es \<noteq> [] \<and> last es = UpdatedSchemaStatus s None \<and>
        (requeueAfter (fst r) = 0 \<and> ready_status s = Some ConditionTrue \<or>
         requeueAfter (fst r) = time_Minute \<and> ready_status s = Some ConditionFalse))"

lemma setConditionFailed_emits:
  assumes "condition_laws E" and "setConditionFailed E s reason msg w = (r, w')"
  shows "\<exists>es. log w' = log w @ es \<and> \<not> list_ex is_http es \<and> settled (requeue_minute, r) es"
proof -
  obtain out w1 where g: "k8s_get_schema E (env_object_key E (sch_meta s)) w = (out, w1)"
    by (cases "k8s_get_schema E (env_object_key E (sch_meta s)) w")
  note l1 = op_log(1) [OF g]
  show ?thesis
  proof (cases out)
    case (Inl e)
    then show ?thesis using assms(2) g l1
      by (auto simp: setConditionFailed_def settled_def is_http_def)
  next
    case (Inr s1)
    let ?s2 = "set_schema_condition E w1
      (ready_condition ConditionFalse reason msg (meta_generation (sch_meta s1))) s1"
    have u: "k8s_update_schema_status E ?s2 w1 = (r, w')"
      using assms(2) g Inr by (simp add: setConditionFailed_def)
    then show ?thesis using l1 op_log(7) [OF u] Inr
      by (auto simp: settled_def is_http_def requeue_minute_def ready_status_set [OF assms(1)])
  qed
qed

lemma update_registered_emits:
  assumes "condition_laws E" and "update_registered E key resp w = (r, w')"
  shows "\<exists>es. log w' = log w @ es \<and> \<not> list_ex is_http es \<and> settled r es"
proof -
  obtain out w1 where g: "k8s_get_schema E key w = (out, w1)" by (cases "k8s_get_schema E key w")
  note l1 = op_log(1) [OF g]
  show ?thesis
  proof (cases out)
    case (Inl e)
    then show ?thesis using assms(2) g l1
      by (auto simp: update_registered_def settled_def is_http_def)
  next
    case (Inr s)
    obtain now w2 where t: "read_clock E w1 = (now, w2)" by (cases "read_clock E w1")
    obtain u w3 where u: "k8s_update_schema_status E (registered_status E w2 now resp s) w2 = (u, w3)"
      by (cases "k8s_update_schema_status E (registered_status E w2 now resp s) w2")
    have r: "w' = w3" "r = (no_requeue, u)"
      using assms(2) g Inr t u by (auto simp: update_registered_def split: option.splits)
    then show ?thesis
      using l1 read_clock_log [OF t] op_log(7) [OF u] Inr
      by (auto simp: settled_def is_http_def no_requeue_def registered_status_def
          ready_status_set [OF assms(1)])
  qed
qed

lemma settled_prepend: "settled r ys \<Longrightarrow> settled r (xs @ ys)"
  by (auto simp: settled_def)

lemma reconcile_registration_emits:
  assumes "condition_laws E" and "reconcile_registration E key s w = (r, w')"
  shows "\<exists>es. log w' = log w @ es \<and> traffic s es \<and> settled r es"
proof -
  obtain b w1 where b: "buildClient E s w = (b, w1)" by (cases "buildClient E s w")
  then obtain es1 where l1: "log w1 = log w @ es1" and bc: "build_contract s b es1"
    by (rule build_op.eventsE)
  have q1: "\<not> list_ex is_http es1"
    using bc by (intro resolve_not_http build_contract_resolve)
  show ?thesis
  proof (cases b)
    case (Inl e)
    obtain re where f: "setConditionFailed E s ''ClientBuildFailed'' (error_text e) w1 = (re, w')"
      and r: "r = (requeue_minute, re)"
      using assms(2) b Inl by (auto simp: reconcile_registration_def split: prod.splits)
    obtain es2 where "log w' = log w1 @ es2" "\<not> list_ex is_http es2" "settled r es2"
      using setConditionFailed_emits [OF assms(1) f] r by blast
    then show ?thesis using l1 q1 by (auto intro!: quiet_traffic settled_prepend)
  next
    case (Inr c)
    let ?subj = "spec_subject (sch_spec s)"
    obtain g w2 where g: "RegisterSchema E c ?subj (register_request s) w1 = (g, w2)"
      by (cases "RegisterSchema E c ?subj (register_request s) w1")
    then obtain es2 where l2: "log w2 = log w1 @ es2"
      and rc: "register_contract c ?subj (register_request s) g es2"
      by (rule register_op.eventsE)
    have bc': "build_contract s (Inr c) es1" using bc Inr by simp
    have t12: "traffic s (es1 @ es2)"
      using client_traffic [OF bc', of es2] register_sends [OF rc]
      by (intro traffic_append quiet_traffic [OF q1]) auto
    show ?thesis
    proof (cases g)
      case Inl2: (Inl e)
      obtain re where f: "setConditionFailed E s ''RegistrationFailed'' (error_text e) w2 = (re, w')"
        and r: "r = (requeue_minute, re)"
        using assms(2) b Inr g Inl2 by (auto simp: reconcile_registration_def split: prod.splits)
      obtain es3 where l3: "log w' = log w2 @ es3" "\<not> list_ex is_http es3" "settled r es3"
        using setConditionFailed_emits [OF assms(1) f] r by blast
      then have "log w' = log w @ ((es1 @ es2) @ es3)" using l1 l2 by simp
      then show ?thesis using traffic_quiet_append [OF t12 l3(2)] settled_prepend [OF l3(3)] by blast
    next
      case Inr2: (Inr resp)
      let ?w3 = "set_compatibility_if_given E c s w2"
      have u: "update_registered E key resp ?w3 = (r, w')"
        using assms(2) b Inr g Inr2 by (simp add: reconcile_registration_def)
      obtain es3 where l3: "log ?w3 = log w2 @ es3"
        and s3: "\<forall>e \<in> set es3. \<exists>rq out. e = HttpDone (c_httpClient c) rq out \<and> rq \<in> set (schema_requests c s)"
      proof (cases "spec_compatibilityLevel (sch_spec s) = []")
        case True
        then show ?thesis using that [of "[]"] by (simp add: set_compatibility_if_given_def)
      next
        case False
        obtain rr w3 where sc: "SetCompatibility E c ?subj (spec_compatibilityLevel (sch_spec s)) w2 = (rr, w3)"
          by (cases "SetCompatibility E c ?subj (spec_compatibilityLevel (sch_spec s)) w2")
        then obtain es where "log w3 = log w2 @ es"
            "compat_contract c ?subj (spec_compatibilityLevel (sch_spec s)) rr es"
          by (rule compat_op.eventsE)
        then show ?thesis using that [of es] compat_sends False sc
          by (auto simp: set_compatibility_if_given_def)
      qed
      have t123: "traffic s ((es1 @ es2) @ es3)"
        using client_traffic [OF bc' s3] by (intro traffic_append t12) auto
      obtain es4 where l4: "log w' = log ?w3 @ es4" "\<not> list_ex is_http es4" "settled r es4"
        using update_registered_emits [OF assms(1) u] by blast
      then have "log w' = log w @ (((es1 @ es2) @ es3) @ es4)" using l1 l2 l3 by simp
      then show ?thesis using traffic_quiet_append [OF t123 l4(2)] settled_prepend [OF l4(3)] by blast
    qed
  qed
qed

lemma reconcile_deletion_emits:
  assumes "reconcile_deletion E s w = (r, w')"
  shows "\<exists>es. log w' = log w @ es \<and> traffic s es \<and> fst r = no_requeue \<and>
    (\<forall>k out. GotSchema k out \<notin> set es)"
proof (cases "env_contains_finalizer E (meta_finalizers (sch_meta s)) schemaFinalizer")
  case False
  then show ?thesis using assms
    by (auto simp: reconcile_deletion_def traffic_def)
next
  case True
  obtain d w1 where d: "deleteFromRegistry E s w = (d, w1)" by (cases "deleteFromRegistry E s w")
  obtain b w0 where b: "buildClient E s w = (b, w0)" by (cases "buildClient E s w")
  then obtain es1 where l1: "log w0 = log w @ es1" and bc: "build_contract s b es1"
    by (rule build_op.eventsE)
  note res = build_contract_resolve [OF bc]
  have noget: "GotSchema k out \<notin> set es1" for k out
    using res by (auto simp: list_all_iff)
  have "\<exists>es. log w1 = log w @ es \<and> traffic s es \<and> (\<forall>k out. GotSchema k out \<notin> set es)"
  proof (cases b)
    case (Inl e)
    then show ?thesis
      using d b l1 noget quiet_traffic [OF resolve_not_http [OF res]]
      by (auto simp: deleteFromRegistry_def)
  next
    case (Inr c)
    then have "DeleteSubject E c (spec_subject (sch_spec s)) w0 = (d, w1)"
      using d b by (simp add: deleteFromRegistry_def)
    then obtain es2 where l2: "log w1 = log w0 @ es2"
      and dc: "delete_contract c (spec_subject (sch_spec s)) d es2"
      by (rule delete_op.eventsE)
    have "traffic s (es1 @ es2)"
      using client_traffic [of s c es1 es2] bc Inr delete_sends [OF dc]
      by (intro traffic_append quiet_traffic resolve_not_http res) auto
    moreover have "GotSchema k out \<notin> set es2" for k out
      using dc by (auto simp: delete_contract_def)
    ultimately show ?thesis using l1 l2 noget by auto
  qed
  then obtain es where es: "log w1 = log w @ es" "traffic s es" "\<forall>k out. GotSchema k out \<notin> set es"
    by blast
  show ?thesis
  proof (cases d)
    case (Some e)
    then show ?thesis using assms True d es by (auto simp: reconcile_deletion_def)
  next
    case None
    then obtain s1 u where u: "k8s_update_schema E s1 w1 = (u, w')" and r: "fst r = no_requeue"
      using assms True d
      by (auto simp: reconcile_deletion_def Let_def split: prod.splits option.splits)
    have "traffic s (es @ [UpdatedSchema s1 u])"
      by (rule traffic_quiet_append [OF es(2)]) (simp add: is_http_def)
    then show ?thesis using es op_log(6) [OF u] r by auto
  qed
qed

section \<open>Whole runs\<close>

text \<open>Every request of a run is made for a Schema the run read under its key.\<close>

definition own_traffic :: "ObjectKey \<Rightarrow> event list \<Rightarrow> bool" where
  "own_traffic key es \<longleftrightarrow>
     (\<forall>e \<in> set es. is_http e \<longrightarrow> (\<exists>s. GotSchema key (Inr s) \<in> set es \<and> on_behalf_of s es e))"

lemma reconcile_adding_finalizer_emits:
  assumes "condition_laws E" and "reconcile_adding_finalizer E key s w = (r, w')"
  shows "\<exists>es. log w' = log w @ es \<and> own_traffic key es \<and> settled r es"
proof -
  obtain u w1 where u: "k8s_update_schema E (add_finalizer_to E s) w = (u, w1)"
    by (cases "k8s_update_schema E (add_finalizer_to E s) w")
  note l1 = op_log(6) [OF u]
  show ?thesis
  proof (cases u)
    case (Some e)
    then show ?thesis using assms(2) u l1
      by (auto simp: reconcile_adding_finalizer_def own_traffic_def settled_def is_http_def)
  next
    case None
    obtain out w2 where g: "k8s_get_schema E key w1 = (out, w2)" by (cases "k8s_get_schema E key w1")
    let ?pre = "[UpdatedSchema (add_finalizer_to E s) u, GotSchema key out]"
    have l2: "log w2 = log w @ ?pre" using l1 op_log(1) [OF g] by simp
    show ?thesis
    proof (cases out)
      case (Inl e)
      then show ?thesis using assms(2) u None g l2
        by (auto simp: reconcile_adding_finalizer_def own_traffic_def settled_def is_http_def)
    next
      case (Inr s')
      then have "reconcile_registration E key s' w2 = (r, w')"
        using assms(2) u None g by (simp add: reconcile_adding_finalizer_def)
      then obtain es where es: "log w' = log w2 @ es" "traffic s' es" "settled r es"
        using reconcile_registration_emits [OF assms(1)] by blast
      have "traffic s' (?pre @ es)"
        by (rule traffic_quiet_before [OF es(2)]) (simp add: is_http_def)
      then have "own_traffic key (?pre @ es)"
        using Inr by (auto simp: traffic_def own_traffic_def)
      then show ?thesis using l2 es(1) settled_prepend [OF es(3), of ?pre]
        by (intro exI [of _ "?pre @ es"]) simp
    qed
  qed
qed

lemma own_trafficI: "traffic s es \<Longrightarrow> own_traffic key (GotSchema key (Inr s) # es)"
  using traffic_quiet_before [of s es "[GotSchema key (Inr s)]"]
  by (auto simp: own_traffic_def traffic_def is_http_def)

lemma own_traffic_Cons:
  assumes "own_traffic key es"
  shows "own_traffic key (GotSchema key r # es)"
  unfolding own_traffic_def
proof (intro ballI impI)
  fix e assume "e \<in> set (GotSchema key r # es)" "is_http e"
  then have "e \<in> set es" "is_http e" by (auto simp: is_http_def)
  with assms obtain s where "GotSchema key (Inr s) \<in> set es" "on_behalf_of s es e"
    by (auto simp: own_traffic_def)
  moreover from this have "on_behalf_of s (GotSchema key r # es) e"
    by (auto intro: on_behalf_of_mono)
  ultimately show "\<exists>s. GotSchema key (Inr s) \<in> set (GotSchema key r # es) \<and>
      on_behalf_of s (GotSchema key r # es) e" by auto
qed

text \<open>
  A run that read a live Schema is settled, one that read a deleted Schema never asks to be
  requeued, and one that could not read it made no other call.
\<close>

definition run_contract :: "'w env \<Rightarrow> ObjectKey \<Rightarrow> Result \<times> go_error option \<Rightarrow> event list \<Rightarrow> bool" where
  "run_contract E key r es \<longleftrightarrow>
     own_traffic key es \<and>
     (case first_schema es of
        None \<Rightarrow> (\<exists>e. es = [GotSchema key (Inl e)] \<and> r = (no_requeue, env_ignore_not_found E e))
      | Some s \<Rightarrow> if is_deleted E s then fst r = no_requeue else settled r es)"

lemma schema_reconcile_emits:
  assumes "condition_laws E" and "schema_reconcile E key w = (r, w')"
  shows "\<exists>es. log w' = log w @ es \<and> run_contract E key r es"
proof -
  obtain out w1 where g: "k8s_get_schema E key w = (out, w1)" by (cases "k8s_get_schema E key w")
  note l1 = op_log(1) [OF g]
  show ?thesis
  proof (cases out)
    case (Inl e)
    then show ?thesis using assms(2) g l1
      by (auto simp: schema_reconcile_def run_contract_def own_traffic_def is_http_def)
  next
    case (Inr s)
    note run = assms(2) [unfolded schema_reconcile_def g Inr prod.case sum.case]
    have first: "first_schema (GotSchema key out # es) = Some s" for es by (simp add: Inr)
    have "\<exists>es. log w' = log w1 @ es \<and> run_contract E key r (GotSchema key out # es)"
    proof (cases "is_deleted E s")
      case True
      with run have "reconcile_deletion E s w1 = (r, w')" by simp
      then obtain es where "log w' = log w1 @ es" "traffic s es" "fst r = no_requeue"
        using reconcile_deletion_emits by blast
      then show ?thesis using True Inr by (auto simp: run_contract_def own_trafficI)
    next
      case live: False
      show ?thesis
      proof (cases "env_contains_finalizer E (meta_finalizers (sch_meta s)) schemaFinalizer")
        case True
        with run live have "reconcile_registration E key s w1 = (r, w')" by simp
        then obtain es where "log w' = log w1 @ es" "traffic s es" "settled r es"
          using reconcile_registration_emits [OF assms(1)] by blast
        then show ?thesis using live Inr settled_prepend [of r es "[GotSchema key out]"]
          by (auto simp: run_contract_def own_trafficI)
      next
        case False
        with run live have "reconcile_adding_finalizer E key s w1 = (r, w')" by simp
        then obtain es where es: "log w' = log w1 @ es"
          "own_traffic key es" "settled r es"
          using reconcile_adding_finalizer_emits [OF assms(1)] by blast
        then show ?thesis
          using live settled_prepend [OF es(3), of "[GotSchema key out]"]
            own_traffic_Cons [OF es(2), of out]
          by (intro exI [of _ es]) (simp add: run_contract_def first del: first_schema.simps)
      qed
    qed
    then show ?thesis using l1 by auto
  qed
qed

end
