(* ===== verification/SchemaEvidence.thy ===== *)
theory SchemaEvidence
  imports SchemaTraffic SchemaFrame
begin

text \<open>
  What a write of a Schema run rests on, with the objects named: the update that removes the
  finalizer on the deletion of that Schema's subject, and the status after a registration on the
  Schema whose text was posted and on the one that was read afterwards.
\<close>

section \<open>The removal of the finalizer\<close>

text \<open>
  Among the calls is a DELETE of the subject of the Schema, answered with 200 or 404, and sent by
  a client built from the SchemaRegistry the Schema refers to, which was read as well.
\<close>

definition subject_cleaned :: "Schema \<Rightarrow> event list \<Rightarrow> bool" where
  "subject_cleaned s calls \<longleftrightarrow>
     (\<exists>sr c resp. GotRegistry (registry_key s) (Inr sr) \<in> set calls \<and> client_of sr c \<and>
        HttpDone (c_httpClient c) (delete_request c (spec_subject (sch_spec s))) (Inr resp) \<in> set calls \<and>
        resp_status resp \<in> {StatusOK, StatusNotFound})"

lemma subject_cleaned_mono: "subject_cleaned s xs \<Longrightarrow> set xs \<subseteq> set ys \<Longrightarrow> subject_cleaned s ys"
  unfolding subject_cleaned_def by blast

lemma deleteFromRegistry_cleans:
  assumes "deleteFromRegistry E s w = (None, w1)"
  shows "\<exists>es. log w1 = log w @ es \<and> list_all no_object es \<and>
    (subject_cleaned s es \<or> \<not> list_ex is_http es \<and> (\<exists>e. buildClient E s w = (Inl e, w1)))"
proof -
  obtain b w0 where b: "buildClient E s w = (b, w0)" by (cases "buildClient E s w")
  then obtain es1 where l1: "log w0 = log w @ es1" and bc: "build_contract s b es1"
    by (rule build_op.eventsE)
  have q1: "list_all no_object es1"
    using build_contract_resolve [OF bc] by (auto simp: no_object_def list_all_iff)
  show ?thesis
  proof (cases b)
    case (Inl e)
    then show ?thesis
      using assms b l1 q1 resolve_not_http [OF build_contract_resolve [OF bc]]
      by (auto simp: deleteFromRegistry_def)
  next
    case (Inr c)
    then have "DeleteSubject E c (spec_subject (sch_spec s)) w0 = (None, w1)"
      using assms b by (simp add: deleteFromRegistry_def)
    then obtain es2 where l2: "log w1 = log w0 @ es2"
      and "delete_contract c (spec_subject (sch_spec s)) None es2"
      by (rule delete_op.eventsE)
    then obtain resp where es2: "resp_status resp \<in> {StatusOK, StatusNotFound}" "es2 =
        [HttpDone (c_httpClient c) (delete_request c (spec_subject (sch_spec s))) (Inr resp)]"
      by (auto simp: delete_contract_def)
    obtain sr where "GotRegistry (registry_key s) (Inr sr) \<in> set es1" "client_of sr c"
      using bc Inr build_contract_client by blast
    then have "subject_cleaned s (es1 @ es2)" using es2 by (auto simp: subject_cleaned_def)
    moreover have "list_all no_object (es1 @ es2)" using q1 es2 by (simp add: no_object_def)
    ultimately show ?thesis using l1 l2 by auto
  qed
qed

lemma no_object_not_update: "list_all no_object es \<Longrightarrow> UpdatedSchema s u \<notin> set es"
  by (auto simp: list_all_iff no_object_def)

text \<open>The one update of a deletion run.\<close>

lemma reconcile_deletion_update:
  assumes "reconcile_deletion E s0 w = (r, w')" "log w' = log w @ es"
    and "i < length es" "es ! i = UpdatedSchema s u"
  shows "same_but_finalizers s s0 \<and>
    (subject_cleaned s0 (take i es) \<or> \<not> list_ex is_http (take i es) \<and>
      (\<exists>e w1. buildClient E s0 w = (Inl e, w1) \<and> log w1 = log w @ take i es))"
proof -
  have c: "env_contains_finalizer E (meta_finalizers (sch_meta s0)) schemaFinalizer"
    using assms by (auto simp: reconcile_deletion_def split: if_splits)
  have upd: "UpdatedSchema s u \<in> set es" using assms(3,4) nth_mem by fastforce
  obtain d w1 where d: "deleteFromRegistry E s0 w = (d, w1)" by (cases "deleteFromRegistry E s0 w")
  show ?thesis
  proof (cases d)
    case (Some e)
    then have "w' = w1" using assms(1) c d by (simp add: reconcile_deletion_def)
    moreover obtain es1 where "log w1 = log w @ es1" "quiet 4 es1"
      using deleteFromRegistry_quiet [OF d] by blast
    ultimately show ?thesis using assms(2) upd no_object_not_update by (auto simp: quiet_def)
  next
    case None
    let ?s = "s0\<lparr>sch_meta := (sch_meta s0)\<lparr>meta_finalizers :=
      env_remove_finalizer E (meta_finalizers (sch_meta s0)) schemaFinalizer\<rparr>\<rparr>"
    obtain es1 where l1: "log w1 = log w @ es1" and q: "list_all no_object es1"
      and ev: "subject_cleaned s0 es1 \<or>
        \<not> list_ex is_http es1 \<and> (\<exists>e. buildClient E s0 w = (Inl e, w1))"
      using deleteFromRegistry_cleans d None by blast
    obtain v w2 where v: "k8s_update_schema E ?s w1 = (v, w2)" by (cases "k8s_update_schema E ?s w1")
    have "w' = w2" using assms(1) c d None v
      by (auto simp: reconcile_deletion_def Let_def split: option.splits)
    then have es: "es = es1 @ [UpdatedSchema ?s v]" using assms(2) l1 op_log(6) [OF v] by simp
    have "\<not> i < length es1"
      using no_object_not_update [OF q, of s u] assms(4) es by (metis nth_append nth_mem)
    then have i: "i = length es1" using assms(3) es by simp
    then have "s = ?s" using assms(4) es by simp
    then have "same_but_finalizers s s0" by (simp add: same_but_finalizers_def)
    then show ?thesis using ev l1 i es by auto
  qed
qed

lemma accepted_removal_deleting:
  assumes "accepted E es" "i < length es" "first_schema es = Some s0"
    and "es ! i = UpdatedSchema s u" "\<not> has_finalizer s"
  shows "is_deleted E s0"
  using assms(1,2)
proof (rule accepted_nth)
  fix m m' assume st: "monitor_step E (es ! i) m = Some m'" and ev: "evidence E (take i es) m"
  then have "m_seen m" "m_deleting m" using assms(4,5) by (simp_all split: if_splits)
  then show "is_deleted E s0" using read_evidence_first [OF ev _ assms(3)] by simp
qed

section \<open>The status after a registration\<close>

text \<open>A run that adds the finalizer and sends a request went on to register.\<close>

lemma adding_finalizer_goes_on:
  assumes "reconcile_adding_finalizer E key s w = (r, w')"
    and "log w' = log w @ xs @ HttpDone hc rq out # ys"
  shows "\<exists>s1 w1. reconcile_registration E key s1 w1 = (r, w') \<and>
    log w1 = log w @ [UpdatedSchema (add_finalizer_to E s) None, GotSchema key (Inr s1)]"
proof -
  obtain u w1 where u: "k8s_update_schema E (add_finalizer_to E s) w = (u, w1)"
    by (cases "k8s_update_schema E (add_finalizer_to E s) w")
  obtain o2 w2 where g: "k8s_get_schema E key w1 = (o2, w2)" by (cases "k8s_get_schema E key w1")
  note l = op_log(6) [OF u] op_log(1) [OF g]
  have "u = None" using assms u l(1)
    by (cases u) (auto simp: reconcile_adding_finalizer_def append_eq_Cons_conv Cons_eq_append_conv)
  moreover from this obtain s1 where "o2 = Inr s1" using assms u g l
    by (cases o2) (auto simp: reconcile_adding_finalizer_def append_eq_Cons_conv Cons_eq_append_conv)
  ultimately show ?thesis using assms(1) u g l by (auto simp: reconcile_adding_finalizer_def)
qed

lemma unique_middle:
  assumes "xs @ a # ys = xs' @ b # ys'" "P a" "\<not> list_ex P xs'" "\<not> list_ex P ys'"
  shows "xs = xs' \<and> a = b \<and> ys = ys'"
  using assms by (auto simp: append_eq_append_conv2 append_eq_Cons_conv Cons_eq_append_conv)

lemma not_http_not_post: "\<not> list_ex is_http es \<Longrightarrow> \<not> list_ex (is_method m) es"
  by (auto simp: list_ex_iff is_http_def is_method_def split: event.splits)

text \<open>The Schema read after the registration is the one the status is stored for.\<close>

definition reports_ready :: "go_int \<Rightarrow> Schema \<Rightarrow> Schema \<Rightarrow> bool" where
  "reports_ready n s2 s \<longleftrightarrow>
     same_but_status s s2 \<and> ready_status s = Some ConditionTrue \<and>
     status_schemaID (sch_status s) = Some n \<and>
     status_observedGeneration (sch_status s) = meta_generation (sch_meta s2)"

lemma update_registered_reports:
  assumes "condition_laws E" "update_registered E key resp w = (r, w')" "log w' = log w @ es"
    and "GotSchema key (Inr s2) \<in> set es"
  shows "\<exists>s u. es = [GotSchema key (Inr s2), UpdatedSchemaStatus s u] \<and> r = (no_requeue, u) \<and>
    reports_ready (res_id resp) s2 s"
proof -
  obtain out w1 where g: "k8s_get_schema E key w = (out, w1)" by (cases "k8s_get_schema E key w")
  note l1 = op_log(1) [OF g]
  show ?thesis
  proof (cases out)
    case (Inl e)
    then show ?thesis using assms g l1 by (auto simp: update_registered_def)
  next
    case (Inr s0)
    obtain now w2 where t: "read_clock E w1 = (now, w2)" by (cases "read_clock E w1")
    let ?s = "registered_status E w2 now resp s0"
    obtain u w3 where u: "k8s_update_schema_status E ?s w2 = (u, w3)"
      by (cases "k8s_update_schema_status E ?s w2")
    have r: "w' = w3" "r = (no_requeue, u)"
      using assms(2) g Inr t u by (auto simp: update_registered_def split: option.splits)
    then have es: "es = [GotSchema key (Inr s0), UpdatedSchemaStatus ?s u]"
      using assms(3) l1 read_clock_log [OF t] op_log(7) [OF u] Inr by simp
    then have "s0 = s2" using assms(4) by simp
    moreover have "reports_ready (res_id resp) s0 ?s"
      by (simp add: reports_ready_def registered_status_def ready_status_set [OF assms(1)])
        (simp add: same_but_status_def set_schema_condition_def)
    ultimately show ?thesis using es r(2) by blast
  qed
qed

lemma compat_events:
  "\<exists>es. log (set_compatibility_if_given E c s w) = log w @ es \<and>
    \<not> list_ex (is_method MethodPost) es \<and> (\<forall>k out. GotSchema k out \<notin> set es)"
proof (cases "spec_compatibilityLevel (sch_spec s) = []")
  case True
  then show ?thesis by (simp add: set_compatibility_if_given_def)
next
  case False
  let ?op = "SetCompatibility E c (spec_subject (sch_spec s)) (spec_compatibilityLevel (sch_spec s)) w"
  obtain es where "log (snd ?op) = log w @ es"
    "compat_contract c (spec_subject (sch_spec s)) (spec_compatibilityLevel (sch_spec s)) (fst ?op) es"
    using compat_op.eventsE [of E c _ _ w "fst ?op" "snd ?op"] by (metis prod.collapse)
  then show ?thesis using False
    by (auto simp: set_compatibility_if_given_def compat_contract_def is_method_def method_defs
        intro!: exI [of _ es])
qed

text \<open>What follows the answer to the registration, and what it ends with when a Schema is read again.\<close>

definition after_registration ::
  "'w env \<Rightarrow> ObjectKey \<Rightarrow> SchemaRegistryClient \<Rightarrow> Schema \<Rightarrow> go_error + SchemaResponse \<Rightarrow>
    'w world \<Rightarrow> (Result \<times> go_error option) \<times> 'w world" where
  "after_registration E key c s g w =
     (case g of
        Inl err \<Rightarrow>
          (case setConditionFailed E s ''RegistrationFailed'' (error_text err) w of
             (e, w') \<Rightarrow> ((requeue_minute, e), w'))
      | Inr resp \<Rightarrow> update_registered E key resp (set_compatibility_if_given E c s w))"

lemma after_registration_events:
  assumes "condition_laws E" "after_registration E key c s g w = (r, w')"
  shows "\<exists>es. log w' = log w @ es \<and> \<not> list_ex (is_method MethodPost) es \<and>
    (\<forall>resp s2. g = Inr resp \<longrightarrow> GotSchema key (Inr s2) \<in> set es \<longrightarrow>
      (\<exists>s u. last es = UpdatedSchemaStatus s u \<and> r = (no_requeue, u) \<and> reports_ready (res_id resp) s2 s))"
proof (cases g)
  case (Inl e)
  then obtain re where "setConditionFailed E s ''RegistrationFailed'' (error_text e) w = (re, w')"
    using assms(2) by (auto simp: after_registration_def split: prod.splits)
  then obtain es where "log w' = log w @ es" "\<not> list_ex is_http es"
    using setConditionFailed_emits [OF assms(1)] by blast
  then show ?thesis using Inl not_http_not_post by auto
next
  case (Inr resp)
  let ?w1 = "set_compatibility_if_given E c s w"
  have u: "update_registered E key resp ?w1 = (r, w')"
    using assms(2) Inr by (simp add: after_registration_def)
  obtain es1 where l1: "log ?w1 = log w @ es1" "\<not> list_ex (is_method MethodPost) es1"
    "\<forall>k out. GotSchema k out \<notin> set es1" using compat_events by blast
  obtain es2 where l2: "log w' = log ?w1 @ es2" "\<not> list_ex is_http es2"
    using update_registered_emits [OF assms(1) u] by blast
  have "\<exists>s u. last (es1 @ es2) = UpdatedSchemaStatus s u \<and> r = (no_requeue, u) \<and> reports_ready (res_id resp) s2 s"
    if "GotSchema key (Inr s2) \<in> set (es1 @ es2)" for s2
    using update_registered_reports [OF assms(1) u l2(1), of s2] that l1(3) by auto
  then show ?thesis
    using l1 l2(1) not_http_not_post [OF l2(2)] Inr by (intro exI [of _ "es1 @ es2"]) auto
qed

text \<open>A run with a POST built a client, registered, and went on.\<close>

lemma reconcile_registration_posted:
  assumes "condition_laws E" "reconcile_registration E key s w = (r, w')"
    and "log w' = log w @ es" "list_ex (is_method MethodPost) es"
  obtains c w1 g w2 es1 es2 es3 where
    "RegisterSchema E c (spec_subject (sch_spec s)) (register_request s) w1 = (g, w2)"
    "after_registration E key c s g w2 = (r, w')"
    "es = es1 @ es2 @ es3" "list_all is_resolve es1" "log w2 = log w1 @ es2" "log w' = log w2 @ es3"
proof -
  obtain b w1 where b: "buildClient E s w = (b, w1)" by (cases "buildClient E s w")
  then obtain es1 where l1: "log w1 = log w @ es1" and "build_contract s b es1"
    by (rule build_op.eventsE)
  then have res: "list_all is_resolve es1" using build_contract_resolve by blast
  show ?thesis
  proof (cases b)
    case (Inl e)
    then obtain re where f: "setConditionFailed E s ''ClientBuildFailed'' (error_text e) w1 = (re, w')"
      using assms(2) b by (auto simp: reconcile_registration_def split: prod.splits)
    obtain es2 where "log w' = log w1 @ es2" "\<not> list_ex is_http es2"
      using setConditionFailed_emits [OF assms(1) f] by blast
    then have "\<not> list_ex is_http es" using assms(3) l1 resolve_not_http [OF res] by auto
    then show ?thesis using assms(4) not_http_not_post by blast
  next
    case (Inr c)
    obtain g w2 where g: "RegisterSchema E c (spec_subject (sch_spec s)) (register_request s) w1 = (g, w2)"
      by (cases "RegisterSchema E c (spec_subject (sch_spec s)) (register_request s) w1")
    then obtain es2 where l2: "log w2 = log w1 @ es2" by (rule register_op.eventsE)
    have a: "after_registration E key c s g w2 = (r, w')"
      using assms(2) b Inr g by (simp add: reconcile_registration_def after_registration_def)
    obtain es3 where l3: "log w' = log w2 @ es3"
      using after_registration_events [OF assms(1) a] by (elim exE conjE)
    show ?thesis using that [OF g a _ res l2 l3] assms(3) l1 l2 l3 by simp
  qed
qed

lemma registration_posted:
  assumes "register_contract c subject q g es" "list_ex (is_method MethodPost) es"
  obtains out es' where "es = HttpDone (c_httpClient c) (post_request c subject q) out # es'"
    "\<not> list_ex (is_method MethodPost) es'" "\<forall>k out. GotSchema k out \<notin> set es'"
    "\<forall>n. registered_id out = Some n \<longrightarrow> (\<exists>resp. g = Inr resp \<and> res_id resp = n)"
  using assms
  by (auto simp: register_contract_def is_method_def method_defs split: option.splits)

text \<open>What a run makes of an accepted registration.\<close>

lemma reconcile_registration_reports:
  assumes "condition_laws E" "reconcile_registration E key s1 w = (r, w')"
    and "log w' = log w @ xs @ HttpDone hc rq out # ys" "req_method rq = MethodPost"
    and "registered_id out = Some n" "GotSchema key (Inr s2) \<in> set ys"
  shows "\<exists>c s u. rq = post_request c (spec_subject (sch_spec s1)) (register_request s1) \<and>
    last ys = UpdatedSchemaStatus s u \<and> r = (no_requeue, u) \<and> reports_ready n s2 s \<and>
    \<not> list_ex (is_method MethodPost) ys \<and> (\<forall>k out. GotSchema k out \<notin> set xs)"
proof -
  let ?ev = "HttpDone hc rq out"
  have P: "is_method MethodPost ?ev" using assms(4) by (simp add: is_method_def)
  then have "list_ex (is_method MethodPost) (xs @ ?ev # ys)" by simp
  then obtain c w1 g w2 es1 es2 es3 where
    g: "RegisterSchema E c (spec_subject (sch_spec s1)) (register_request s1) w1 = (g, w2)"
    and a: "after_registration E key c s1 g w2 = (r, w')"
    and es: "xs @ ?ev # ys = es1 @ es2 @ es3" "list_all is_resolve es1"
    and l: "log w2 = log w1 @ es2" "log w' = log w2 @ es3"
    using reconcile_registration_posted [OF assms(1-3)] by blast
  have q1: "\<not> list_ex (is_method MethodPost) es1" by (rule not_http_not_post [OF resolve_not_http [OF es(2)]])
  have q3: "\<not> list_ex (is_method MethodPost) es3"
    and rep: "\<And>resp s2. g = Inr resp \<Longrightarrow> GotSchema key (Inr s2) \<in> set es3 \<Longrightarrow>
      \<exists>s u. last es3 = UpdatedSchemaStatus s u \<and> r = (no_requeue, u) \<and> reports_ready (res_id resp) s2 s"
    using after_registration_events [OF assms(1) a] l(2) by auto
  have "list_ex (is_method MethodPost) (es1 @ es2 @ es3)" using P es(1) [symmetric] by simp
  then have "list_ex (is_method MethodPost) es2" using q1 q3 by simp
  then obtain out0 es2' where
    es2: "es2 = HttpDone (c_httpClient c) (post_request c (spec_subject (sch_spec s1)) (register_request s1)) out0 # es2'"
    and q2: "\<not> list_ex (is_method MethodPost) es2'" "\<forall>k out. GotSchema k out \<notin> set es2'"
    and id: "\<forall>n. registered_id out0 = Some n \<longrightarrow> (\<exists>resp. g = Inr resp \<and> res_id resp = n)"
    using registration_posted [OF register_op.events_contract [OF g l(1)]] by blast
  have "xs = es1 \<and> ?ev = hd es2 \<and> ys = es2' @ es3"
    by (rule unique_middle [of _ _ _ _ _ _ "is_method MethodPost"]) (use es es2 P q1 q2 q3 in auto)
  then have split: "xs = es1" "rq = post_request c (spec_subject (sch_spec s1)) (register_request s1)"
    "out = out0" "ys = es2' @ es3" using es2 by simp_all
  have got: "GotSchema key (Inr s2) \<in> set es3" using assms(6) split(4) q2(2) by simp
  obtain resp where "g = Inr resp" "res_id resp = n" using id assms(5) split(3) by blast
  then obtain s u where "last es3 = UpdatedSchemaStatus s u" "r = (no_requeue, u)" "reports_ready n s2 s"
    using rep got by blast
  moreover have "es3 \<noteq> []" using got by auto
  moreover have "\<forall>k out. GotSchema k out \<notin> set es1" using es(2) by (auto simp: list_all_iff)
  ultimately show ?thesis using split q2(1) q3 by auto
qed

end
