(* ===== verification/RegistryRun.thy ===== *)
theory RegistryRun
  imports RegistryController
begin

text \<open>
  The contract of a SchemaRegistry reconciliation: the calls a run makes, in order, and what
  its result and the status it writes say about the answer to the health check.
\<close>

section \<open>The calls of a run\<close>

definition registry_call :: "event \<Rightarrow> bool" where
  "registry_call e \<longleftrightarrow>
     (case e of
        GotRegistry k r \<Rightarrow> True
      | GotSecret k r \<Rightarrow> True
      | UpdatedRegistryStatus sr r \<Rightarrow> True
      | HttpDone hc rq out \<Rightarrow> req_method rq = MethodGet
      | _ \<Rightarrow> False)"

lemma registry_call_simps [simp]:
  "registry_call (GotRegistry k rr)" "registry_call (GotSecret k rs)"
  "registry_call (UpdatedRegistryStatus sr u)"
  "registry_call (HttpDone hc rq out) \<longleftrightarrow> req_method rq = MethodGet"
  by (simp_all add: registry_call_def)

definition registry_ready :: "SchemaRegistry \<Rightarrow> string option" where
  "registry_ready sr =
     map_option cond_status (find_condition ''Ready'' (sr_conditions (sr_status sr)))"

text \<open>The status of a run, as a function of whether the registry answered the health check.\<close>

definition reports :: "bool \<Rightarrow> SchemaRegistry \<Rightarrow> bool" where
  "reports up sr \<longleftrightarrow>
     registry_ready sr = Some (if up then ConditionTrue else ConditionFalse) \<and>
     sr_connectionStatus (sr_status sr) = (if up then ''Connected'' else ''Unreachable'')"

lemma reports_set_condition:
  assumes "condition_laws E" "cond_type c = ''Ready''"
    "cond_status c = (if up then ConditionTrue else ConditionFalse)"
    "t = (if up then ''Connected'' else ''Unreachable'')"
  shows "reports up (set_connection_status t (set_registry_condition E w c sr))"
proof -
  obtain t' where "find_condition ''Ready'' (env_set_status_condition E (ext w) (sr_conditions (sr_status sr)) c)
      = Some (c\<lparr>cond_lastTransitionTime := t'\<rparr>)"
    using condition_lawsD(1) [OF assms(1), of c "ext w" "sr_conditions (sr_status sr)"] assms(2) by auto
  then show ?thesis
    using assms(3,4)
    by (simp add: reports_def registry_ready_def set_connection_status_def set_registry_condition_def)
qed

lemma health_status_reports:
  "condition_laws E \<Longrightarrow> reports (h = None) (health_status E w h sr)"
  by (cases h) (auto simp: health_status_def ready_condition_def intro!: reports_set_condition)

lemma health_status_frame [simp]:
  "sr_spec (health_status E w h sr) = sr_spec sr"
  "sr_meta (health_status E w h sr) = sr_meta sr"
  "sr_lastChecked (sr_status (health_status E w h sr)) = sr_lastChecked (sr_status sr)"
  "sr_observedGeneration (sr_status (health_status E w h sr)) = sr_observedGeneration (sr_status sr)"
  by (auto simp: health_status_def set_connection_status_def set_registry_condition_def
      split: option.splits)

text \<open>
  The two tails of a run: the failure path after the credentials could not be loaded, and
  the status update after a health check with result \<open>h\<close>.
\<close>

definition failed_tail :: "'w env \<Rightarrow> Result \<times> go_error option \<Rightarrow> event list \<Rightarrow> bool" where
  "failed_tail E r es \<longleftrightarrow>
     fst r = no_requeue \<and>
     ((\<exists>k e. es = [GotRegistry k (Inl e)] \<and> snd r = env_ignore_not_found E e) \<or>
      (\<exists>k sr sr'. es = [GotRegistry k (Inr sr), UpdatedRegistryStatus sr' (snd r)] \<and> reports False sr'))"

definition checked_tail ::
  "'w env \<Rightarrow> ObjectKey \<Rightarrow> bool \<Rightarrow> Result \<times> go_error option \<Rightarrow> event list \<Rightarrow> bool" where
  "checked_tail E key up r es \<longleftrightarrow>
     (\<exists>e. es = [GotRegistry key (Inl e)] \<and> r = (no_requeue, env_ignore_not_found E e)) \<or>
     (\<exists>sr sr' u now. es = [GotRegistry key (Inr sr), UpdatedRegistryStatus sr' u] \<and>
        reports up sr' \<and> sr_spec sr' = sr_spec sr \<and> sr_meta sr' = sr_meta sr \<and>
        sr_lastChecked (sr_status sr') = Some now \<and>
        sr_observedGeneration (sr_status sr') = meta_generation (sr_meta sr) \<and>
        r = (if u = None then requeue_five_minutes else no_requeue, u))"

definition registry_contract ::
  "'w env \<Rightarrow> ObjectKey \<Rightarrow> Result \<times> go_error option \<Rightarrow> event list \<Rightarrow> bool" where
  "registry_contract E key r es \<longleftrightarrow>
     (\<exists>e. es = [GotRegistry key (Inl e)] \<and> r = (no_requeue, env_ignore_not_found E e)) \<or>
     (\<exists>sr reads tail. es = GotRegistry key (Inr sr) # reads @ tail \<and>
        list_all (is_secret_read sr) reads \<and> failed_tail E r tail) \<or>
     (\<exists>sr reads c h probe tail. es = GotRegistry key (Inr sr) # reads @ probe @ tail \<and>
        list_all (is_secret_read sr) reads \<and> client_of sr c \<and>
        health_contract c h probe \<and> checked_tail E key (h = None) r tail)"

lemma registry_setConditionFailed_emits:
  assumes "condition_laws E" and "registry_setConditionFailed E sr reason msg w = (r, w')"
  shows "\<exists>es. log w' = log w @ es \<and> failed_tail E (no_requeue, r) es"
proof -
  let ?key = "env_object_key E (sr_meta sr)"
  obtain out w1 where g: "k8s_get_registry E ?key w = (out, w1)"
    by (cases "k8s_get_registry E ?key w")
  note l1 = op_log(2) [OF g]
  show ?thesis
  proof (cases out)
    case (Inl e)
    then show ?thesis using assms(2) g l1
      by (auto simp: registry_setConditionFailed_def failed_tail_def)
  next
    case (Inr sr1)
    let ?sr2 = "set_connection_status ''Unreachable'' (set_registry_condition E w1
      (ready_condition ConditionFalse reason msg (meta_generation (sr_meta sr1))) sr1)"
    have u: "k8s_update_registry_status E ?sr2 w1 = (r, w')"
      using assms(2) g Inr by (simp add: registry_setConditionFailed_def)
    have "reports False ?sr2"
      by (rule reports_set_condition [OF assms(1)]) (simp_all add: ready_condition_def)
    then show ?thesis using l1 op_log(8) [OF u] Inr by (auto simp: failed_tail_def)
  qed
qed

lemma update_health_emits:
  assumes "condition_laws E" and "update_health E key h w = (r, w')"
  shows "\<exists>es. log w' = log w @ es \<and> checked_tail E key (h = None) r es"
proof -
  obtain out w1 where g: "k8s_get_registry E key w = (out, w1)" by (cases "k8s_get_registry E key w")
  note l1 = op_log(2) [OF g]
  show ?thesis
  proof (cases out)
    case (Inl e)
    then show ?thesis using assms(2) g l1 by (auto simp: update_health_def checked_tail_def)
  next
    case (Inr sr)
    obtain now w2 where t: "read_clock E w1 = (now, w2)" by (cases "read_clock E w1")
    let ?sr' = "health_status E w2 h (observed now sr)"
    obtain u w3 where u: "k8s_update_registry_status E ?sr' w2 = (u, w3)"
      by (cases "k8s_update_registry_status E ?sr' w2")
    have "w' = w3" "r = (if u = None then requeue_five_minutes else no_requeue, u)"
      using assms(2) g Inr t u by (auto simp: update_health_def split: option.splits)
    moreover have "log w3 = log w @ [GotRegistry key (Inr sr), UpdatedRegistryStatus ?sr' u]"
      using l1 read_clock_log [OF t] op_log(8) [OF u] Inr by simp
    ultimately show ?thesis
      using health_status_reports [OF assms(1), of h w2 "observed now sr"]
      by (auto simp: checked_tail_def observed_def)
  qed
qed

lemma registry_reconcile_emits:
  assumes "condition_laws E" and "registry_reconcile E key w = (r, w')"
  shows "\<exists>es. log w' = log w @ es \<and> registry_contract E key r es"
proof -
  obtain out w1 where g: "k8s_get_registry E key w = (out, w1)" by (cases "k8s_get_registry E key w")
  note l1 = op_log(2) [OF g]
  show ?thesis
  proof (cases out)
    case (Inl e)
    then show ?thesis using assms(2) g l1 by (auto simp: registry_reconcile_def registry_contract_def)
  next
    case (Inr sr)
    obtain a w2 where a: "loadAuthConfig E sr w1 = (a, w2)" by (cases "loadAuthConfig E sr w1")
    then obtain reads where l2: "log w2 = log w1 @ reads" and ac: "auth_contract sr a reads"
      by (rule auth_loader.eventsE)
    then have reads: "list_all (is_secret_read sr) reads" by (simp add: auth_contract_def)
    show ?thesis
    proof (cases a)
      case Inl2: (Inl e)
      obtain f where f: "registry_setConditionFailed E sr ''AuthLoadFailed'' (error_text e) w2 = (f, w')"
        and r: "r = (no_requeue, f)"
        using assms(2) g a Inr Inl2 by (auto simp: registry_reconcile_def split: prod.splits)
      obtain es where "log w' = log w2 @ es" "failed_tail E r es"
        using registry_setConditionFailed_emits [OF assms(1) f] r by blast
      then show ?thesis using l1 l2 Inr reads by (auto simp: registry_contract_def)
    next
      case Inr2: (Inr authConfig)
      obtain c where c: "NewClient (sr_url (sr_spec sr)) authConfig (clientTimeout sr)
          (sr_insecureSkipVerify (sr_spec sr)) = Inr c"
        using NewClient_total by blast
      then have client: "client_of sr c"
        using ac Inr2 by (intro NewClient_client_of) (auto simp: auth_contract_def)
      obtain h w3 where h: "HealthCheck E c w2 = (h, w3)" by (cases "HealthCheck E c w2")
      then obtain probe where l3: "log w3 = log w2 @ probe" and hc: "health_contract c h probe"
        by (rule health_op.eventsE)
      have "update_health E key h w3 = (r, w')"
        using assms(2) g a Inr Inr2 c h by (simp add: registry_reconcile_def)
      then obtain tail where "log w' = log w3 @ tail" "checked_tail E key (h = None) r tail"
        using update_health_emits [OF assms(1)] by blast
      then have "log w' = log w @ (GotRegistry key (Inr sr) # reads @ probe @ tail)"
        "checked_tail E key (h = None) r tail"
        using l1 l2 l3 Inr by simp_all
      then show ?thesis using reads client hc unfolding registry_contract_def by blast
    qed
  qed
qed

section \<open>Reading the contract\<close>

lemma secret_read_call: "is_secret_read sr e \<Longrightarrow> registry_call e"
  by (auto simp: is_secret_read_def)

lemma health_contract_calls:
  "health_contract c h es \<Longrightarrow> list_all registry_call es"
  by (auto simp: health_contract_def)

lemma tail_calls:
  "failed_tail E r es \<Longrightarrow> list_all registry_call es"
  "checked_tail E key up r es \<Longrightarrow> list_all registry_call es"
  by (auto simp: failed_tail_def checked_tail_def)

lemma secret_reads_calls: "list_all (is_secret_read sr) es \<Longrightarrow> list_all registry_call es"
  by (auto simp: list_all_iff dest: secret_read_call)

lemma registry_contract_calls:
  "registry_contract E key r es \<Longrightarrow> list_all registry_call es"
  by (auto simp: registry_contract_def
      dest!: secret_reads_calls tail_calls health_contract_calls)

definition probed :: "SchemaRegistry \<Rightarrow> event \<Rightarrow> bool" where
  "probed sr e \<longleftrightarrow>
     (\<exists>c resp. e = HttpDone (c_httpClient c) (health_request c) (Inr resp) \<and>
        client_of sr c \<and> resp_status resp = StatusOK)"

text \<open>A status that reports the registry as connected rests on a probe answered with 200.\<close>

lemma registry_contract_connected:
  assumes "registry_contract E key r es"
    and "UpdatedRegistryStatus sr' u \<in> set es" "sr_connectionStatus (sr_status sr') = ''Connected''"
  shows "\<exists>sr e. GotRegistry key (Inr sr) \<in> set es \<and> e \<in> set es \<and> probed sr e"
proof -
  have reads: "UpdatedRegistryStatus sr' u \<notin> set xs" if "list_all (is_secret_read sr) xs" for xs sr
    using that by (auto simp: list_all_iff is_secret_read_def)
  have probes: "UpdatedRegistryStatus sr' u \<notin> set xs" if "health_contract c h xs" for xs c h
    using that by (auto simp: health_contract_def)
  obtain sr reads c h probe tail where es: "es = GotRegistry key (Inr sr) # reads @ probe @ tail"
    and rd: "list_all (is_secret_read sr) reads"
    and cl: "client_of sr c" and hc: "health_contract c h probe" and tl: "checked_tail E key (h = None) r tail"
    using assms(1)
  proof (elim registry_contract_def [THEN iffD1, THEN disjE] disjE exE conjE)
    fix sr reads tail
    assume "es = GotRegistry key (Inr sr) # reads @ tail" "list_all (is_secret_read sr) reads"
      "failed_tail E r tail"
    then show ?thesis using assms(2,3) reads by (auto simp: failed_tail_def reports_def)
  qed (use assms(2) that in auto)
  have "UpdatedRegistryStatus sr' u \<in> set tail"
    using assms(2) es reads [OF rd] probes [OF hc] by simp
  then have "reports (h = None) sr'" using tl by (auto simp: checked_tail_def)
  then have "h = None" using assms(3) by (simp add: reports_def split: if_splits)
  then obtain resp where "probe = [HttpDone (c_httpClient c) (health_request c) (Inr resp)]"
    and "resp_status resp = StatusOK" using hc by (auto simp: health_contract_def)
  moreover from this have "probed sr (HttpDone (c_httpClient c) (health_request c) (Inr resp))"
    using cl by (auto simp: probed_def)
  ultimately have "GotRegistry key (Inr sr) \<in> set es"
    "HttpDone (c_httpClient c) (health_request c) (Inr resp) \<in> set es" using es by simp_all
  then show ?thesis using \<open>probed sr _\<close> by blast
qed

text \<open>
  Monitoring goes on: a run asks to be called again in five minutes only after it stored a
  health status, and does so whenever it sent the probe and every later step succeeded.
\<close>

definition monitored :: "event \<Rightarrow> bool" where
  "monitored e \<longleftrightarrow>
     (\<exists>sr up. e = UpdatedRegistryStatus sr None \<and> reports up sr \<and>
        sr_lastChecked (sr_status sr) \<noteq> None \<and>
        sr_observedGeneration (sr_status sr) = meta_generation (sr_meta sr))"

lemma requeue_five_minutes_neq [simp]:
  "requeue_five_minutes \<noteq> no_requeue" "no_requeue \<noteq> requeue_five_minutes"
  by (simp_all add: requeue_five_minutes_def no_requeue_def time_Minute_def time_Second_def)

lemma checked_tail_requeue:
  assumes "checked_tail E key up r es"
  shows "fst r = requeue_five_minutes \<Longrightarrow> snd r = None \<and> es \<noteq> [] \<and> monitored (last es)"
    and "snd r = None \<Longrightarrow> (\<forall>e. GotRegistry key (Inl e) \<notin> set es) \<Longrightarrow> fst r = requeue_five_minutes"
  using assms by (auto simp: checked_tail_def monitored_def split: if_splits)

lemma registry_contract_requeue:
  assumes "registry_contract E key r es" "fst r = requeue_five_minutes"
  shows "snd r = None \<and> es \<noteq> [] \<and> monitored (last es)"
proof -
  obtain xs up tail where "es = xs @ tail" "checked_tail E key up r tail"
    using assms by (auto simp: registry_contract_def failed_tail_def) (metis append_Cons append_assoc)
  with checked_tail_requeue(1) [OF this(2) assms(2)] show ?thesis by auto
qed

definition sends_http :: "event list \<Rightarrow> bool" where
  "sends_http es \<longleftrightarrow> (\<exists>hc rq out. HttpDone hc rq out \<in> set es)"

lemma registry_contract_continues:
  assumes "registry_contract E key r es" "sends_http es" "snd r = None"
    and "\<forall>e. GotRegistry key (Inl e) \<notin> set es"
  shows "fst r = requeue_five_minutes"
proof -
  have quiet: "\<not> sends_http xs" if "list_all (is_secret_read sr) xs" for xs sr
    using that by (auto simp: list_all_iff is_secret_read_def sends_http_def)
  have silent: "\<not> sends_http (GotRegistry key out # reads @ tail)"
    if "list_all (is_secret_read sr) reads" "failed_tail E r tail" for out sr reads tail
    using that quiet [of sr reads] by (auto simp: failed_tail_def sends_http_def)
  have "\<exists>xs up tail. es = xs @ tail \<and> checked_tail E key up r tail"
    using assms(1) unfolding registry_contract_def
  proof (elim disjE exE conjE)
    fix sr reads c h probe tail
    assume "es = GotRegistry key (Inr sr) # reads @ probe @ tail" "checked_tail E key (h = None) r tail"
    then have "es = (GotRegistry key (Inr sr) # reads @ probe) @ tail" by simp
    then show ?thesis using \<open>checked_tail E key (h = None) r tail\<close> by blast
  qed (use assms(2) silent in \<open>auto simp: sends_http_def\<close>)
  then show ?thesis using checked_tail_requeue(2) assms(3,4) by fastforce
qed

end
