(* ===== verification/RegistryWebhook.thy ===== *)
theory RegistryWebhook
  imports Admission
begin

text \<open>
  The validating webhook for SchemaRegistry,
  \<open>internal/webhook/v1alpha1/schemaregistry_webhook.go\<close>.
\<close>

section \<open>The code\<close>

abbreviation auth_path :: "path_element list" where
  "auth_path \<equiv> [PName ''spec'', PName ''auth'']"

definition auth_errors :: "ApiAuthConfig \<Rightarrow> field_error list" where
  "auth_errors auth =
     (if auth_type auth = AuthTypeBasic then
        (case auth_basicAuth auth of
           None \<Rightarrow> [FieldRequired (auth_path @ [PName ''basicAuth''])
                      ''basicAuth must be set when auth type is BASIC'']
         | Some b \<Rightarrow>
             if basic_secretRef b = []
             then [FieldRequired (auth_path @ [PName ''basicAuth'', PName ''secretRef''])
                     ''basicAuth.secretRef must not be empty''] else [])
      else if auth_type auth = AuthTypeBearer then
        (case auth_bearerAuth auth of
           None \<Rightarrow> [FieldRequired (auth_path @ [PName ''bearerAuth''])
                      ''bearerAuth must be set when auth type is BEARER'']
         | Some b \<Rightarrow>
             if bearer_secretRef b = []
             then [FieldRequired (auth_path @ [PName ''bearerAuth'', PName ''secretRef''])
                     ''bearerAuth.secretRef must not be empty''] else [])
      else if auth_type auth = AuthTypeMTLS then
        (case auth_mtls auth of
           None \<Rightarrow> [FieldRequired (auth_path @ [PName ''mtls''])
                      ''mtls must be set when auth type is MTLS'']
         | Some m \<Rightarrow>
             if mtls_certSecretRef m = []
             then [FieldRequired (auth_path @ [PName ''mtls'', PName ''certSecretRef''])
                     ''mtls.certSecretRef must not be empty''] else [])
      else [])"

definition validateSchemaRegistrySpec :: "SchemaRegistry \<Rightarrow> admission_error option" where
  "validateSchemaRegistrySpec obj =
     aggregate
       ((if sr_url (sr_spec obj) = []
         then [FieldRequired [PName ''spec'', PName ''url''] ''url must not be empty''] else []) @
        (if sint (sr_timeout (sr_spec obj)) < 0
         then [FieldInvalid [PName ''spec'', PName ''timeout''] (BadInt (sr_timeout (sr_spec obj)))
                 ''timeout must be >= 0''] else []) @
        (case sr_auth (sr_spec obj) of None \<Rightarrow> [] | Some auth \<Rightarrow> auth_errors auth))"

definition registry_ValidateCreate :: "SchemaRegistry \<Rightarrow> admission_error option" where
  "registry_ValidateCreate obj = validateSchemaRegistrySpec obj"

definition registry_ValidateUpdate :: "SchemaRegistry \<Rightarrow> SchemaRegistry \<Rightarrow> admission_error option" where
  "registry_ValidateUpdate oldObj newObj = validateSchemaRegistrySpec newObj"

definition registry_ValidateDelete :: "SchemaRegistry \<Rightarrow> admission_error option" where
  "registry_ValidateDelete obj = None"

section \<open>Properties\<close>

definition auth_ok :: "ApiAuthConfig \<Rightarrow> bool" where
  "auth_ok auth \<longleftrightarrow>
     (auth_type auth = AuthTypeBasic \<longrightarrow> (\<exists>b. auth_basicAuth auth = Some b \<and> basic_secretRef b \<noteq> [])) \<and>
     (auth_type auth = AuthTypeBearer \<longrightarrow> (\<exists>b. auth_bearerAuth auth = Some b \<and> bearer_secretRef b \<noteq> [])) \<and>
     (auth_type auth = AuthTypeMTLS \<longrightarrow> (\<exists>m. auth_mtls auth = Some m \<and> mtls_certSecretRef m \<noteq> []))"

definition registry_ok :: "SchemaRegistry \<Rightarrow> bool" where
  "registry_ok obj \<longleftrightarrow>
     sr_url (sr_spec obj) \<noteq> [] \<and> 0 \<le> sint (sr_timeout (sr_spec obj)) \<and>
     (\<forall>auth. sr_auth (sr_spec obj) = Some auth \<longrightarrow> auth_ok auth)"

lemma auth_errors_Nil: "auth_errors auth = [] \<longleftrightarrow> auth_ok auth"
  by (auto simp: auth_errors_def auth_ok_def split: option.splits)

lemma validateSchemaRegistrySpec_None: "validateSchemaRegistrySpec obj = None \<longleftrightarrow> registry_ok obj"
  by (auto simp: validateSchemaRegistrySpec_def registry_ok_def auth_errors_Nil split: option.splits)

interpretation registry_admission: admission
  registry_ValidateCreate registry_ValidateUpdate registry_ValidateDelete registry_ok "\<lambda>_. ()"
  by unfold_locales
    (simp_all add: registry_ValidateCreate_def registry_ValidateUpdate_def registry_ValidateDelete_def
      validateSchemaRegistrySpec_None)

end
