(* ===== verification/GoUrl.thy ===== *)
theory GoUrl
  imports GoHttp GoJson
begin

text \<open>
  What \<open>net/url\<close> and \<open>net/http\<close> make of the string given to \<open>http.NewRequest\<close>: the fragment is cut
  off, the query is split from the path, and the path goes out as \<open>URL.EscapedPath\<close> writes it, in
  the target of the request line. URLs are those with the scheme \<open>http\<close> or \<open>https\<close>; other
  schemes have no request target.
\<close>

section \<open>Escaping of a path\<close>

definition is_alnum :: "char \<Rightarrow> bool" where
  "is_alnum c \<longleftrightarrow> byte_in 48 57 c \<or> byte_in 65 90 c \<or> byte_in 97 122 c"

text \<open>\<open>shouldEscape\<close> and \<open>validEncoded\<close> in the mode \<open>encodePath\<close>.\<close>

definition should_escape :: "char \<Rightarrow> bool" where
  "should_escape c \<longleftrightarrow> \<not> is_alnum c \<and> c \<notin> set ''-_.~$&+,/:;=@''"

definition valid_encoded :: "string \<Rightarrow> bool" where
  "valid_encoded s \<longleftrightarrow>
     list_all (\<lambda>c. c \<in> set ''!$&()*+,;=:@[]%'' \<or> c = CHR 0x27 \<or> \<not> should_escape c) s"

definition upper_hex :: "nat \<Rightarrow> char" where
  "upper_hex n = (if n < 10 then char_of (48 + n) else char_of (55 + n))"

definition escape_char :: "char \<Rightarrow> string" where
  "escape_char c =
     (if should_escape c
      then [CHR ''%'', upper_hex (of_char c div 16), upper_hex (of_char c mod 16)] else [c])"

definition escape_path :: "string \<Rightarrow> string" where
  "escape_path s = concat (map escape_char s)"

fun unescape_path :: "string \<Rightarrow> string option" where
  "unescape_path [] = Some []"
| "unescape_path (c # cs) =
     (if c = CHR ''%'' then
        (case cs of
           a # b # r \<Rightarrow>
             (case hex_val a of None \<Rightarrow> None | Some p \<Rightarrow>
              case hex_val b of None \<Rightarrow> None | Some q \<Rightarrow>
              map_option (\<lambda>t. char_of (p * 16 + q) # t) (unescape_path r))
         | _ \<Rightarrow> None)
      else map_option (\<lambda>t. c # t) (unescape_path cs))"

section \<open>URLs and request targets\<close>

text \<open>\<open>strings.Cut\<close> at a single byte.\<close>

definition cut_at :: "char \<Rightarrow> string \<Rightarrow> string \<times> string option" where
  "cut_at c s =
     (takeWhile (\<lambda>d. d \<noteq> c) s,
      case dropWhile (\<lambda>d. d \<noteq> c) s of [] \<Rightarrow> None | d # t \<Rightarrow> Some t)"

record Url =
  url_scheme :: string
  url_host :: string
  url_path :: string
  url_rawPath :: string
  url_query :: "string option"

definition cut_scheme :: "string \<Rightarrow> (string \<times> string) option" where
  "cut_scheme u =
     (if take 7 u = ''http://'' then Some (''http'', drop 7 u)
      else if take 8 u = ''https://'' then Some (''https'', drop 8 u)
      else None)"

definition parse_url :: "string \<Rightarrow> Url option" where
  "parse_url u =
     (case cut_scheme (fst (cut_at (CHR ''#'') u)) of
        None \<Rightarrow> None
      | Some (scheme, rest) \<Rightarrow>
          (case cut_at (CHR ''?'') rest of (r, query) \<Rightarrow>
             (let p = dropWhile (\<lambda>d. d \<noteq> CHR ''/'') r in
              case unescape_path p of
                None \<Rightarrow> None
              | Some path \<Rightarrow>
                  Some \<lparr>url_scheme = scheme, url_host = takeWhile (\<lambda>d. d \<noteq> CHR ''/'') r,
                        url_path = path, url_rawPath = (if p = escape_path path then [] else p),
                        url_query = query\<rparr>)))"

definition escaped_path :: "Url \<Rightarrow> string" where
  "escaped_path u =
     (if url_rawPath u \<noteq> [] \<and> valid_encoded (url_rawPath u) \<and>
         unescape_path (url_rawPath u) = Some (url_path u)
      then url_rawPath u else escape_path (url_path u))"

definition request_uri :: "Url \<Rightarrow> string" where
  "request_uri u =
     (if escaped_path u = [] then ''/'' else escaped_path u) @
     (case url_query u of None \<Rightarrow> [] | Some q \<Rightarrow> CHR ''?'' # q)"

text \<open>
  Where a request for a URL goes and what is in its request line; and what a server reads there,
  with the path decoded.
\<close>

definition request_target :: "string \<Rightarrow> (string \<times> string \<times> string) option" where
  "request_target u = map_option (\<lambda>p. (url_scheme p, url_host p, request_uri p)) (parse_url u)"

definition resource :: "string \<Rightarrow> (string \<times> string \<times> string option \<times> string option) option" where
  "resource u =
     map_option (\<lambda>(scheme, host, t). (scheme, host, unescape_path (fst (cut_at (CHR ''?'') t)),
         snd (cut_at (CHR ''?'') t))) (request_target u)"

section \<open>Escaping is undone by unescaping\<close>

lemma hex_val_upper: "n < 16 \<Longrightarrow> hex_val (upper_hex n) = Some n"
  by (auto simp: hex_val_def upper_hex_def Let_def)

lemma of_char_less_256: "(of_char c :: nat) < 256"
  by (metis of_char_mod_256 mod_less_divisor zero_less_numeral)

lemma high_nibble: "(of_char c :: nat) div 16 < 16"
  by (rule less_mult_imp_div_less) (simp add: of_char_less_256)

lemma unescape_escape_char:
  "unescape_path (escape_char c @ r) = map_option (\<lambda>t. c # t) (unescape_path r)"
proof (cases "should_escape c")
  case True
  have "char_of (of_char c div 16 * 16 + of_char c mod 16 :: nat) = c"
    by (simp add: div_mult_mod_eq)
  then show ?thesis using True by (simp add: escape_char_def hex_val_upper high_nibble)
next
  case False
  then have "c \<noteq> CHR ''%''" by (auto simp: should_escape_def is_alnum_def byte_in_def)
  then show ?thesis using False by (simp add: escape_char_def)
qed

lemma unescape_escape: "unescape_path (escape_path s) = Some s"
proof (induction s)
  case Nil
  then show ?case by (simp add: escape_path_def)
next
  case (Cons c s)
  then show ?case
    using unescape_escape_char [of c "escape_path s"] by (simp add: escape_path_def)
qed

lemma upper_hex_no_question: "n < 16 \<Longrightarrow> upper_hex n \<noteq> CHR ''?''"
  by (auto simp: upper_hex_def dest!: arg_cong [where f = "of_char :: char \<Rightarrow> nat"])

lemma escape_path_no_question: "CHR ''?'' \<notin> set (escape_path s)"
proof (induction s)
  case Nil
  then show ?case by (simp add: escape_path_def)
next
  case (Cons c s)
  have "CHR ''?'' \<notin> set (escape_char c)"
    using upper_hex_no_question [OF high_nibble [of c]] upper_hex_no_question [of "of_char c mod 16"]
    by (auto simp: escape_char_def should_escape_def is_alnum_def byte_in_def)
  then show ?case using Cons.IH by (simp add: escape_path_def)
qed

lemma unescape_plain: "CHR ''%'' \<notin> set s \<Longrightarrow> unescape_path s = Some s"
  by (induction s) auto

section \<open>Reserved characters in a URL\<close>

lemma takeWhile_until:
  assumes "c \<notin> set s"
  shows "takeWhile (\<lambda>d. d \<noteq> c) s = s" and "dropWhile (\<lambda>d. d \<noteq> c) s = []"
  using assms by (induction s) auto

lemma cut_at_none:
  assumes "c \<notin> set s"
  shows "cut_at c s = (s, None)"
  unfolding cut_at_def takeWhile_until [OF assms] by simp

text \<open>What follows a \<open>#\<close> is not sent at all.\<close>

lemma fst_cut_at_append: "fst (cut_at c (s @ c # t)) = fst (cut_at c s)"
proof (cases "c \<in> set s")
  case True
  then show ?thesis by (simp add: cut_at_def)
next
  case False
  then have "takeWhile (\<lambda>d. d \<noteq> c) (s @ c # t) = s" by (subst takeWhile_append2) auto
  then show ?thesis unfolding cut_at_def takeWhile_until(1) [OF False] by simp
qed

lemma request_target_fragment: "request_target (u @ CHR ''#'' # t) = request_target u"
  by (simp add: request_target_def parse_url_def fst_cut_at_append)

text \<open>What follows a \<open>?\<close> is sent as the query of the path before it.\<close>

lemma cut_at_append: "c \<notin> set s \<Longrightarrow> cut_at c (s @ c # t) = (s, Some t)"
  by (induction s) (auto simp: cut_at_def)

text \<open>
  A base URL with a path that is joined to it: without reserved characters a server reads the
  path that was written.
\<close>

definition unreserved :: "string \<Rightarrow> bool" where
  "unreserved s \<longleftrightarrow> CHR ''#'' \<notin> set s \<and> CHR ''?'' \<notin> set s \<and> CHR ''%'' \<notin> set s"

definition plain_base :: "string \<Rightarrow> bool" where
  "plain_base b \<longleftrightarrow> unreserved b \<and> cut_scheme b \<noteq> None"

lemma unreserved_append [simp]: "unreserved (s @ t) \<longleftrightarrow> unreserved s \<and> unreserved t"
  by (auto simp: unreserved_def)

lemma cut_scheme_append:
  "cut_scheme b = Some (scheme, rest) \<Longrightarrow> cut_scheme (b @ x) = Some (scheme, rest @ x)"
proof -
  assume a: "cut_scheme b = Some (scheme, rest)"
  have len: "take n b = p \<Longrightarrow> length p = n \<Longrightarrow> n \<le> length b" for n and p :: string by auto
  show ?thesis
  proof (cases "take 7 b = ''http://''")
    case True
    then have "7 \<le> length b" using len [of 7 "''http://''"] by simp
    then show ?thesis using a True by (simp add: cut_scheme_def)
  next
    case False
    then have h: "take 8 b = ''https://''" "rest = drop 8 b" "scheme = ''https''"
      using a by (auto simp: cut_scheme_def split: if_splits)
    then have "8 \<le> length b" using len [of 8 "''https://''"] by simp
    then show ?thesis using False h by (simp add: cut_scheme_def)
  qed
qed

lemma request_target_query:
  assumes "cut_scheme u \<noteq> None" "CHR ''#'' \<notin> set u" "CHR ''?'' \<notin> set u" "CHR ''#'' \<notin> set x"
  shows "request_target (u @ CHR ''?'' # x) =
    map_option (\<lambda>(scheme, host, t). (scheme, host, t @ CHR ''?'' # x)) (request_target u)"
proof -
  obtain scheme rest where s: "cut_scheme u = Some (scheme, rest)" using assms(1) by auto
  have "CHR ''?'' \<notin> set rest"
    using s assms(3) by (auto simp: cut_scheme_def dest: in_set_dropD split: if_splits)
  moreover have "cut_scheme (u @ CHR ''?'' # x) = Some (scheme, rest @ CHR ''?'' # x)"
    by (rule cut_scheme_append [OF s])
  moreover have "CHR ''#'' \<notin> set (u @ CHR ''?'' # x)" using assms(2,4) by simp
  ultimately show ?thesis
    using s assms(2)
    by (auto simp: request_target_def parse_url_def cut_at_none cut_at_append Let_def
        request_uri_def escaped_path_def split: option.splits)
qed

lemma take_dropWhile_slash:
  assumes "x \<noteq> []" "hd x = CHR ''/''"
  shows "takeWhile (\<lambda>d. d \<noteq> CHR ''/'') (r @ x) = takeWhile (\<lambda>d. d \<noteq> CHR ''/'') r"
    and "dropWhile (\<lambda>d. d \<noteq> CHR ''/'') (r @ x) = dropWhile (\<lambda>d. d \<noteq> CHR ''/'') r @ x"
  using assms by (induction r) (auto simp: neq_Nil_conv)

lemma parsed_path_sent:
  assumes "unescape_path p = Some path" "CHR ''?'' \<notin> set p" "p \<noteq> []" "url_path u = path"
    and "url_rawPath u = (if p = escape_path path then [] else p)" "url_query u = None"
  shows "cut_at (CHR ''?'') (request_uri u) = (escaped_path u, None)"
    and "unescape_path (escaped_path u) = Some path" "escaped_path u \<noteq> []"
proof -
  show dec: "unescape_path (escaped_path u) = Some path"
    using assms(4) by (auto simp: escaped_path_def unescape_escape)
  have "path \<noteq> []" using assms(1,3)
    by (cases p) (auto split: if_splits list.splits option.splits)
  then show ne: "escaped_path u \<noteq> []" using dec by auto
  have "CHR ''?'' \<notin> set (escaped_path u)"
    using assms(2,5) escape_path_no_question by (auto simp: escaped_path_def)
  then show "cut_at (CHR ''?'') (request_uri u) = (escaped_path u, None)"
    using ne assms(6) by (simp add: request_uri_def cut_at_none)
qed

lemma resource_plain:
  assumes "cut_scheme b = Some (scheme, rest)" "unreserved b" "unreserved x" "x \<noteq> []" "hd x = CHR ''/''"
  shows "resource (b @ x) = Some (scheme, takeWhile (\<lambda>d. d \<noteq> CHR ''/'') rest,
    Some (dropWhile (\<lambda>d. d \<noteq> CHR ''/'') rest @ x), None)"
proof -
  have sub: "set rest \<subseteq> set b"
    using assms(1) by (auto simp: cut_scheme_def dest: in_set_dropD split: if_splits)
  let ?p = "dropWhile (\<lambda>d. d \<noteq> CHR ''/'') rest @ x"
  have ps: "set ?p \<subseteq> set b \<union> set x" using sub by (auto dest: set_dropWhileD)
  then have un: "unescape_path ?p = Some ?p" and nq: "CHR ''?'' \<notin> set ?p" and ne: "?p \<noteq> []"
    using assms(2-4) by (auto simp: unreserved_def intro!: unescape_plain)
  have "CHR ''#'' \<notin> set (b @ x)" "CHR ''?'' \<notin> set (rest @ x)"
    using assms(2,3) sub by (auto simp: unreserved_def)
  then have "parse_url (b @ x) = Some \<lparr>url_scheme = scheme,
      url_host = takeWhile (\<lambda>d. d \<noteq> CHR ''/'') rest, url_path = ?p,
      url_rawPath = (if ?p = escape_path ?p then [] else ?p), url_query = None\<rparr>"
    by (simp add: parse_url_def cut_at_none cut_scheme_append [OF assms(1)]
        take_dropWhile_slash [OF assms(4,5)] un Let_def)
  then show ?thesis
    using parsed_path_sent [OF un nq ne] by (simp add: resource_def request_target_def)
qed

lemma resource_join_inject:
  assumes "plain_base b" "unreserved x" "x \<noteq> []" "hd x = CHR ''/''"
    and "unreserved y" "y \<noteq> []" "hd y = CHR ''/''"
  shows "resource (b @ x) = resource (b @ y) \<longleftrightarrow> x = y"
proof -
  obtain scheme rest where s: "cut_scheme b = Some (scheme, rest)" "unreserved b"
    using assms(1) by (auto simp: plain_base_def)
  show ?thesis
    using resource_plain [OF s assms(2-4)] resource_plain [OF s assms(5-7)] by simp
qed

end
