(* ===== verification/RegistryRequests.thy ===== *)
theory RegistryRequests
  imports SchemaController RegistryWebhook SchemaWebhook GoUrl
begin

text \<open>
  What the requests of the client carry: the JSON bodies and their decoding, the
  authentication and content type headers, the URLs and what they reach; and the timeout of
  the client that sends them.
\<close>

section \<open>Integers as JSON numbers\<close>

lemma show_nat_first: "0 < n \<Longrightarrow> hd (show_nat n) \<noteq> CHR ''0''"
proof (induction n rule: show_nat.induct)
  case (1 n)
  show ?case
  proof (cases "n < 10")
    case True
    then have "of_char (digit_char n) = (48 + n :: nat)" by simp
    then have "digit_char n \<noteq> CHR ''0''" using 1 by auto
    then show ?thesis using True by (simp add: show_nat.simps [of n])
  next
    case False
    then show ?thesis using 1 by (simp add: show_nat.simps [of n] hd_append)
  qed
qed

lemma scan_int_show_nat: "scan_int (show_nat n) = Some (show_nat n, [])"
proof -
  obtain c cs where s: "show_nat n = c # cs" by (cases "show_nat n") auto
  have d: "is_digit c" "list_all is_digit cs" using show_nat_digits [of n] s by auto
  show ?thesis
  proof (cases "c = CHR ''0''")
    case True
    then have "n = 0" using show_nat_first [of n] s by (cases "n = 0") auto
    moreover have "digit_char 0 = CHR ''0''" by code_simp
    ultimately show ?thesis by (simp add: show_nat.simps [of 0] scan_int_def)
  next
    case False
    have "takeWhile is_digit cs = cs" "dropWhile is_digit cs = []"
      using d(2) by (simp_all add: list_all_iff)
    then show ?thesis using False d(1) by (simp add: scan_int_def s)
  qed
qed

lemma num_ok_fmt_d: "num_ok (fmt_d w)"
proof -
  obtain n where n: "fmt_d w = show_nat n \<or> fmt_d w = CHR ''-'' # show_nat n"
    by (cases "sint w < 0") (auto simp: fmt_d_def show_int_def)
  have u: "scan_unsigned (show_nat n) = Some (show_nat n, [])"
    by (simp add: scan_unsigned_def scan_int_show_nat scan_frac_def scan_exp_def)
  obtain c cs where s: "show_nat n = c # cs" by (cases "show_nat n") auto
  show ?thesis
    using n u hd_show_nat_not_minus [OF s] by (auto simp: num_ok_def scan_number_def s)
qed

section \<open>Bodies\<close>

text \<open>A request whose strings are UTF-8, as those of every object stored as JSON are.\<close>

definition request_utf8 :: "RegisterSchemaRequest \<Rightarrow> bool" where
  "request_utf8 q \<longleftrightarrow>
     utf8_valid (rq_schema q) \<and> utf8_valid (rq_schemaType q) \<and>
     list_all (\<lambda>r. utf8_valid (cref_name r) \<and> utf8_valid (cref_subject r)) (rq_references q)"

lemma request_json_wf: "request_utf8 q \<Longrightarrow> 3 \<le> d \<Longrightarrow> json_wf d (request_json q)"
  by (auto simp: request_json_def request_utf8_def reference_json_def list_all_iff num_ok_fmt_d
      split: prod.splits)

lemma reference_json_inject: "reference_json r = reference_json r' \<longleftrightarrow> r = r'"
  by (cases r; cases r') (auto simp: reference_json_def fmt_d_inject)

lemma request_json_inject: "request_json q = request_json q' \<longleftrightarrow> q = q'"
proof
  assume eq: "request_json q = request_json q'"
  have "map reference_json (rq_references q) = map reference_json (rq_references q')"
    using eq by (auto simp: request_json_def split: if_splits)
  then have "rq_references q = rq_references q'"
    by (rule map_injective) (simp add: inj_def reference_json_inject)
  moreover have "rq_schema q = rq_schema q'" "rq_schemaType q = rq_schemaType q'"
    using eq by (auto simp: request_json_def)
  ultimately show "q = q'" by (cases q; cases q') simp
qed simp

lemma render_request_inject:
  assumes "request_utf8 q" "request_utf8 q'" "render (request_json q) = render (request_json q')"
  shows "q = q'"
proof -
  have "json_parse (render (request_json p)) = Some (request_json p)" if "request_utf8 p" for p
    using that by (intro json_parse_render request_json_wf) (simp_all add: max_nesting_depth_def)
  then show ?thesis using assms request_json_inject by (metis option.inject)
qed

text \<open>The server's answers: an object with the members the registry documents.\<close>

definition id_answer :: "go_int \<Rightarrow> json" where
  "id_answer i = JObj [(''id'', JNum (fmt_d i))]"

definition version_object :: "string \<Rightarrow> go_int \<Rightarrow> go_int \<Rightarrow> string \<Rightarrow> json" where
  "version_object subject v i text =
     JObj [(''subject'', JStr subject), (''version'', JNum (fmt_d v)), (''id'', JNum (fmt_d i)),
           (''schema'', JStr text)]"

lemma fold_key_names:
  "fold_key ''id'' = ''ID''" "fold_key ''version'' = ''VERSION''" "fold_key ''schema'' = ''SCHEMA''"
  "fold_key ''subject'' = ''SUBJECT''"
  by code_simp+

lemma unmarshal_id_answer: "unmarshal_id (render (id_answer i)) = Some i"
proof -
  have "json_parse (render (id_answer i)) = Some (id_answer i)"
    by (rule json_parse_render)
      (simp add: id_answer_def num_ok_fmt_d max_nesting_depth_def utf8_valid_ascii)
  then show ?thesis
    by (simp add: unmarshal_id_def id_answer_def store_struct_def store_id_def fold_key_names
        store_int_def parse_int64_fmt_d del: fold_key.simps)
qed

lemma decode_version_object:
  assumes "utf8_valid subject" "utf8_valid text"
    and "resp_body resp = render (version_object subject v i text) @ rest"
    and "num_stop rest"
  shows "map_option res_version (decode_response resp) = Some v"
proof -
  have "json_wf max_nesting_depth (version_object subject v i text)"
    using assms(1,2) by (simp add: version_object_def num_ok_fmt_d max_nesting_depth_def utf8_valid_ascii)
  from parse_render(1) [OF this assms(4)]
  have "json_decode_first eof (resp_body resp) = Some (version_object subject v i text)" for eof
    by (simp add: json_decode_first_def assms(3) version_object_def)
  then show ?thesis
    by (simp add: decode_response_def version_object_def store_struct_def store_response_def
        fold_key_names store_int_def store_string_def parse_int64_fmt_d del: fold_key.simps)
qed

section \<open>Headers\<close>

text \<open>The \<open>Authorization\<close> header the configuration of a client asks for.\<close>

definition auth_header :: "AuthConfig \<Rightarrow> string option" where
  "auth_header a =
     (if ac_type a = ''BASIC'' then Some (basic_auth_value (ac_username a) (ac_password a))
      else if ac_type a = ''BEARER'' then Some (''Bearer '' @ ac_bearerToken a)
      else None)"

lemma plain_request_headers:
  "header_get (plain_request c m u) ''Authorization'' = auth_header (c_auth c)"
  "header_get (plain_request c m u) ''Content-Type'' = None"
  by (simp_all add: plain_request_def addAuth_def set_basic_auth_def auth_header_def)
    (simp_all add: header_get_def)

lemma json_request_headers:
  "header_get (json_request c m u b) ''Authorization'' = auth_header (c_auth c)"
  "header_get (json_request c m u b) ''Content-Type'' = Some ''application/vnd.schemaregistry.v1+json''"
  by (simp_all add: json_request_def content_type_json_def addAuth_def set_basic_auth_def auth_header_def)
    (simp_all add: header_get_def)

section \<open>What an operation of the client sends\<close>

text \<open>Any one call of an operation of the client, about a subject.\<close>

definition client_call ::
  "'w env \<Rightarrow> SchemaRegistryClient \<Rightarrow> string \<Rightarrow> RegisterSchemaRequest \<Rightarrow> string \<Rightarrow>
    'w world \<Rightarrow> 'w world \<Rightarrow> bool" where
  "client_call E c subject q level w w' \<longleftrightarrow>
     w' = snd (HealthCheck E c w) \<or> w' = snd (RegisterSchema E c subject q w) \<or>
     w' = snd (getLatestVersionForSubject E c subject w) \<or> w' = snd (DeleteSubject E c subject w) \<or>
     w' = snd (SetCompatibility E c subject level w)"

lemma contract_sends:
  "health_contract c r es \<Longrightarrow> HttpDone hc rq out \<in> set es \<Longrightarrow>
    hc = c_httpClient c \<and> rq = health_request c"
  "register_contract c subject q rr es \<Longrightarrow> HttpDone hc rq out \<in> set es \<Longrightarrow>
    hc = c_httpClient c \<and> rq \<in> {post_request c subject q, latest_request c subject}"
  "latest_contract c subject rv es \<Longrightarrow> HttpDone hc rq out \<in> set es \<Longrightarrow>
    hc = c_httpClient c \<and> rq = latest_request c subject"
  "delete_contract c subject r es \<Longrightarrow> HttpDone hc rq out \<in> set es \<Longrightarrow>
    hc = c_httpClient c \<and> rq = delete_request c subject"
  "compat_contract c subject level r es \<Longrightarrow> HttpDone hc rq out \<in> set es \<Longrightarrow>
    hc = c_httpClient c \<and> rq = compat_request c subject level"
  by (auto simp: health_contract_def register_contract_def latest_contract_def delete_contract_def
      compat_contract_def split: option.splits)

lemma client_call_sends:
  assumes "client_call E c subject q level w w'" "log w' = log w @ es" "HttpDone hc rq out \<in> set es"
  shows "hc = c_httpClient c \<and> rq \<in> {health_request c, post_request c subject q,
    latest_request c subject, delete_request c subject, compat_request c subject level}"
  using assms(1) unfolding client_call_def
proof (elim disjE)
  assume "w' = snd (HealthCheck E c w)"
  then have "health_contract c (fst (HealthCheck E c w)) es"
    using assms(2) by (intro health_op.events_contract [of E c w _ w']) simp_all
  then show ?thesis using contract_sends(1) assms(3) by blast
next
  assume "w' = snd (RegisterSchema E c subject q w)"
  then have "register_contract c subject q (fst (RegisterSchema E c subject q w)) es"
    using assms(2) by (intro register_op.events_contract [of E c subject q w _ w']) simp_all
  then show ?thesis using contract_sends(2) assms(3) by blast
next
  assume "w' = snd (getLatestVersionForSubject E c subject w)"
  then have "getLatestVersionForSubject E c subject w =
      (fst (getLatestVersionForSubject E c subject w), w')" by simp
  from getLatestVersion_emits [OF this]
  have "latest_contract c subject (fst (getLatestVersionForSubject E c subject w)) es"
    using assms(2) by auto
  then show ?thesis using contract_sends(3) assms(3) by blast
next
  assume "w' = snd (DeleteSubject E c subject w)"
  then have "delete_contract c subject (fst (DeleteSubject E c subject w)) es"
    using assms(2) by (intro delete_op.events_contract [of E c subject w _ w']) simp_all
  then show ?thesis using contract_sends(4) assms(3) by blast
next
  assume "w' = snd (SetCompatibility E c subject level w)"
  then have "compat_contract c subject level (fst (SetCompatibility E c subject level w)) es"
    using assms(2) by (intro compat_op.events_contract [of E c subject level w _ w']) simp_all
  then show ?thesis using contract_sends(5) assms(3) by blast
qed

text \<open>The URL of each request.\<close>

lemma addAuth_url [simp]: "req_url (addAuth c rq) = req_url rq" "req_body (addAuth c rq) = req_body rq"
  by (simp_all add: addAuth_def set_basic_auth_def)

lemma request_urls [simp]:
  "req_url (health_request c) = subjects_url c"
  "req_url (delete_request c s) = subject_url c s"
  "req_url (latest_request c s) = latest_url c s"
  "req_url (post_request c s q) = versions_url c s"
  "req_url (compat_request c s l) = config_url c s"
  by (simp_all add: request_defs plain_request_def json_request_def content_type_json_def)

lemma request_bodies:
  "req_body (health_request c) = None" "req_body (delete_request c s) = None"
  "req_body (latest_request c s) = None" "req_body (post_request c s q) \<noteq> None"
  "req_body (compat_request c s l) \<noteq> None"
  by (simp_all add: request_defs plain_request_def json_request_def content_type_json_def)

lemma health_request_distinct:
  "delete_request c s \<noteq> health_request c" "post_request c s q \<noteq> health_request c"
  "compat_request c s l \<noteq> health_request c" "latest_request c s \<noteq> health_request c"
proof -
  have ne: "rq \<noteq> rq'" if "req_method rq \<noteq> req_method rq' \<or> req_url rq \<noteq> req_url rq'" for rq rq'
    using that by auto
  show "delete_request c s \<noteq> health_request c" "post_request c s q \<noteq> health_request c"
    "compat_request c s l \<noteq> health_request c" "latest_request c s \<noteq> health_request c"
    by (rule ne, simp add: method_defs latest_url_def subjects_url_def)+
qed

lemmas health_request_distinct' [simp] = health_request_distinct health_request_distinct [symmetric]

section \<open>URLs\<close>

text \<open>
  A subject is written into the path as it is. Without a slash and without the characters that
  \<open>url.Parse\<close> gives a meaning, the URL of an operation determines the subject and the operation,
  and so does what a server reads in the request line.
\<close>

definition plain_subject :: "string \<Rightarrow> bool" where
  "plain_subject s \<longleftrightarrow> s \<noteq> [] \<and> CHR ''/'' \<notin> set s \<and> unreserved s"

lemma append_slash_inject:
  assumes "CHR ''/'' \<notin> set s" "CHR ''/'' \<notin> set t"
    and "s @ x = t @ y" "x = [] \<or> hd x = CHR ''/''" "y = [] \<or> hd y = CHR ''/''"
  shows "s = t \<and> x = y"
proof -
  have front: "takeWhile (\<lambda>c. c \<noteq> CHR ''/'') (u @ v) = u"
    if "CHR ''/'' \<notin> set u" "v = [] \<or> hd v = CHR ''/''" for u v
    using that by (induction u) (auto, cases v, auto)
  have "s = t" using front [OF assms(1,4)] front [OF assms(2,5)] assms(3) by simp
  then show ?thesis using assms(3) by simp
qed

lemma subject_urls_inject:
  assumes "plain_subject s" "plain_subject t"
  shows "versions_url c s = versions_url c t \<longleftrightarrow> s = t"
    and "subject_url c s = subject_url c t \<longleftrightarrow> s = t"
    and "latest_url c s = latest_url c t \<longleftrightarrow> s = t"
    and "config_url c s = config_url c t \<longleftrightarrow> s = t"
    and "versions_url c s \<noteq> subject_url c t" "latest_url c s \<noteq> subject_url c t"
    and "versions_url c s \<noteq> latest_url c t" "subjects_url c \<noteq> subject_url c s"
  using assms append_slash_inject [of s t "''/versions''" "[]"]
    append_slash_inject [of s t "''/versions/latest''" "[]"]
    append_slash_inject [of s t "''/versions''" "''/versions/latest''"]
  by (auto simp: versions_url_def subject_url_def latest_url_def config_url_def subjects_url_def
      plain_subject_def)

definition client_urls :: "SchemaRegistryClient \<Rightarrow> string \<Rightarrow> string list" where
  "client_urls c subject =
     [subjects_url c, versions_url c subject, latest_url c subject, subject_url c subject,
      config_url c subject]"

lemmas url_defs = subjects_url_def versions_url_def latest_url_def subject_url_def config_url_def

lemma client_url_path:
  assumes "plain_subject s" "u \<in> set (client_urls c s)"
  shows "\<exists>x. u = c_baseURL c @ x \<and> unreserved x \<and> x \<noteq> [] \<and> hd x = CHR ''/''"
  using assms by (auto simp: client_urls_def url_defs plain_subject_def unreserved_def)

lemma client_urls_inject:
  assumes "plain_subject s" "plain_subject t"
  shows "versions_url c s = versions_url c t \<longleftrightarrow> s = t" "subject_url c s = subject_url c t \<longleftrightarrow> s = t"
    "latest_url c s = latest_url c t \<longleftrightarrow> s = t" "config_url c s = config_url c t \<longleftrightarrow> s = t"
    "versions_url c s \<noteq> subject_url c t" "versions_url c s \<noteq> latest_url c t"
    "versions_url c s \<noteq> config_url c t" "versions_url c s \<noteq> subjects_url c"
    "subject_url c s \<noteq> latest_url c t" "subject_url c s \<noteq> config_url c t"
    "subject_url c s \<noteq> subjects_url c" "latest_url c s \<noteq> config_url c t"
    "latest_url c s \<noteq> subjects_url c" "config_url c s \<noteq> subjects_url c"
  using subject_urls_inject [OF assms] subject_urls_inject [OF assms(2,1)]
  by (auto simp: url_defs)

text \<open>No two of these URLs are read as the same resource.\<close>

lemma client_resources_inject:
  assumes "plain_base (c_baseURL c)" "plain_subject s" "plain_subject t"
    and "u \<in> set (client_urls c s)" "v \<in> set (client_urls c t)"
  shows "resource u = resource v \<longleftrightarrow> u = v"
proof -
  obtain x where x: "u = c_baseURL c @ x" "unreserved x" "x \<noteq> []" "hd x = CHR ''/''"
    using client_url_path [OF assms(2,4)] by blast
  obtain y where y: "v = c_baseURL c @ y" "unreserved y" "y \<noteq> []" "hd y = CHR ''/''"
    using client_url_path [OF assms(3,5)] by blast
  show ?thesis using resource_join_inject [OF assms(1) x(2-4) y(2-4)] x(1) y(1) by simp
qed

lemma subject_url_slash:
  "subject_url c (s @ ''/versions/latest'') = latest_url c s"
  "subject_url c (s @ ''/versions'') = versions_url c s"
  by (simp_all add: subject_url_def latest_url_def versions_url_def)

lemma subject_url_fragment:
  "request_target (subject_url c (s @ CHR ''#'' # x)) = request_target (subject_url c s)"
  "request_target (versions_url c (s @ CHR ''#'' # x)) = request_target (subject_url c s)"
  "request_target (latest_url c (s @ CHR ''#'' # x)) = request_target (subject_url c s)"
  "request_target (config_url c (s @ CHR ''#'' # x)) = request_target (config_url c s)"
  using request_target_fragment [of "subject_url c s"] request_target_fragment [of "config_url c s"]
  by (simp_all add: url_defs)

lemma subject_url_query:
  assumes "plain_base (c_baseURL c)" "plain_subject s" "CHR ''#'' \<notin> set x"
  shows "request_target (subject_url c (s @ CHR ''?'' # x)) =
    map_option (\<lambda>(scheme, host, t). (scheme, host, t @ CHR ''?'' # x)) (request_target (subject_url c s))"
proof -
  obtain scheme rest where "cut_scheme (c_baseURL c) = Some (scheme, rest)" "unreserved (c_baseURL c)"
    using assms(1) by (auto simp: plain_base_def)
  then have "cut_scheme (subject_url c s) \<noteq> None" "unreserved (subject_url c s)"
    using cut_scheme_append [of "c_baseURL c"] assms(2)
    by (auto simp: subject_url_def plain_subject_def unreserved_def)
  then show ?thesis
    using request_target_query [of "subject_url c s" x] assms(3) by (simp add: subject_url_def unreserved_def)
qed

section \<open>The timeout\<close>

lemma sint_scale:
  fixes t :: go_int
  assumes "0 \<le> sint t" "sint t \<le> 9223372036"
  shows "sint (t * time_Second) = sint t * 1000000000"
proof -
  have s: "sint time_Second = 1000000000"
    by code_simp
  show ?thesis
    using assms by (simp add: sint_word_ariths(3) s signed_take_bit_int_eq_self)
qed

lemma clientTimeout_value:
  assumes "0 \<le> sint (sr_timeout (sr_spec sr))" "sint (sr_timeout (sr_spec sr)) \<le> 9223372036"
  shows "sint (clientTimeout sr) =
    (if sr_timeout (sr_spec sr) = 0 then 30 else sint (sr_timeout (sr_spec sr))) * 1000000000"
proof -
  let ?t = "sr_timeout (sr_spec sr)"
  have prod: "sint (?t * time_Second) = sint ?t * 1000000000" by (rule sint_scale [OF assms])
  show ?thesis
  proof (cases "?t = 0")
    case True
    have "sint (30 * time_Second) = sint (30 :: go_int) * 1000000000" by (rule sint_scale) simp_all
    then show ?thesis using True by (simp add: clientTimeout_def)
  next
    case False
    then have "sint ?t \<noteq> 0" by (metis signed_eq_0_iff)
    then have "?t * time_Second \<noteq> 0" using prod by (metis mult_eq_0_iff sint_0 zero_neq_numeral)
    then show ?thesis using False prod by (simp add: clientTimeout_def Let_def)
  qed
qed

end
