(* ===== verification/RefCluster.thy ===== *)
theory RefCluster
  imports SchemaStore RegistryRun RegistryRequests
begin

text \<open>
  A concrete environment: a cluster whose objects are lists, a registry that answers from a
  script and keeps the subjects by its answers, and list-based versions of the library functions.
  It satisfies the documented laws (\<open>finalizer_laws\<close>, \<open>condition_laws\<close>, \<open>list_laws\<close>, \<open>api_laws\<close>,
  \<open>registry_laws\<close>), so the theorems that assume them apply to it, and its runs can be evaluated. It is an instance of the environment and models nothing
  of the repository.
\<close>

section \<open>The cluster\<close>

record cluster =
  cl_schemas :: "Schema list"
  cl_registries :: "SchemaRegistry list"
  cl_secrets :: "Secret list"
  cl_answers :: "(go_error + HttpResponse) list"
  cl_subjects :: "string list"
  cl_clock :: instant

definition not_found :: go_error where
  "not_found = Foreign 404 ''not found''"

definition lookup :: "('o \<Rightarrow> ObjectKey) \<Rightarrow> 'o list \<Rightarrow> ObjectKey \<Rightarrow> go_error + 'o" where
  "lookup key objs k = (case find (\<lambda>x. key x = k) objs of None \<Rightarrow> Inl not_found | Some x \<Rightarrow> Inr x)"

definition secret_object_key :: "Secret \<Rightarrow> ObjectKey" where
  "secret_object_key s = \<lparr>key_namespace = secret_namespace s, key_name = secret_name s\<rparr>"

abbreviation schema_object_key :: "Schema \<Rightarrow> ObjectKey" where
  "schema_object_key s \<equiv> object_key (sch_meta s)"

abbreviation registry_object_key :: "SchemaRegistry \<Rightarrow> ObjectKey" where
  "registry_object_key r \<equiv> object_key (sr_meta r)"

text \<open>
  An update replaces the metadata and the specification, a status update the status; an
  object marked for deletion goes away with its last finalizer.
\<close>

definition finished :: "Schema \<Rightarrow> bool" where
  "finished s \<longleftrightarrow> meta_deletionTimestamp (sch_meta s) \<noteq> None \<and> meta_finalizers (sch_meta s) = []"

definition ref_update_schema :: "Schema \<Rightarrow> cluster \<Rightarrow> go_error option \<times> cluster" where
  "ref_update_schema s x =
     (if schema_object_key s \<in> set (map schema_object_key (cl_schemas x)) then
        (None, x\<lparr>cl_schemas := filter (\<lambda>o'. \<not> (schema_object_key o' = schema_object_key s \<and> finished o'))
           (map (\<lambda>o'. if schema_object_key o' = schema_object_key s
                      then o'\<lparr>sch_meta := sch_meta s, sch_spec := sch_spec s\<rparr> else o') (cl_schemas x))\<rparr>)
      else (Some not_found, x))"

definition ref_update_schema_status :: "Schema \<Rightarrow> cluster \<Rightarrow> go_error option \<times> cluster" where
  "ref_update_schema_status s x =
     (if schema_object_key s \<in> set (map schema_object_key (cl_schemas x)) then
        (None, x\<lparr>cl_schemas := map (\<lambda>o'. if schema_object_key o' = schema_object_key s
                      then o'\<lparr>sch_status := sch_status s\<rparr> else o') (cl_schemas x)\<rparr>)
      else (Some not_found, x))"

definition ref_update_registry_status :: "SchemaRegistry \<Rightarrow> cluster \<Rightarrow> go_error option \<times> cluster" where
  "ref_update_registry_status r x =
     (if registry_object_key r \<in> set (map registry_object_key (cl_registries x)) then
        (None, x\<lparr>cl_registries := map (\<lambda>o'. if registry_object_key o' = registry_object_key r
                      then o'\<lparr>sr_status := sr_status r\<rparr> else o') (cl_registries x)\<rparr>)
      else (Some not_found, x))"

text \<open>
  The registry answers from the script, and refuses the connection when it is used up. An
  accepted registration or deletion changes the subjects.
\<close>

definition ref_subjects :: "HttpRequest \<Rightarrow> HttpResponse \<Rightarrow> string list \<Rightarrow> string list" where
  "ref_subjects rq resp us =
     (if req_method rq = MethodPost \<and> resp_status resp = StatusOK
      then take (length (req_url rq) - length ''/versions'') (req_url rq) # us
      else if req_method rq = MethodDelete \<and> resp_status resp \<in> {StatusOK, StatusNotFound}
      then filter (\<lambda>u. u \<noteq> req_url rq) us
      else us)"

definition ref_http_do ::
  "HttpClient \<Rightarrow> HttpRequest \<Rightarrow> cluster \<Rightarrow> (go_error + HttpResponse) \<times> cluster" where
  "ref_http_do c r x =
     (case cl_answers x of
        [] \<Rightarrow> (Inl (Foreign 1 ''connection refused''), x)
      | a # as \<Rightarrow> (a, x\<lparr>cl_answers := as,
          cl_subjects := (case a of Inl e \<Rightarrow> cl_subjects x | Inr resp \<Rightarrow> ref_subjects r resp (cl_subjects x))\<rparr>))"

definition ref_key_pair :: "string \<Rightarrow> string \<Rightarrow> go_error + TlsCertificate" where
  "ref_key_pair crt key =
     (if crt = [] \<or> key = [] then Inl (Foreign 3 ''tls: failed to find any PEM data'')
      else Inr \<lparr>cert_chain = [crt], cert_key = key\<rparr>)"

text \<open>In-place update of the condition of a type; the time changes only with the status.\<close>

fun ref_set_condition :: "instant \<Rightarrow> Condition list \<Rightarrow> Condition \<Rightarrow> Condition list" where
  "ref_set_condition now [] c = [c\<lparr>cond_lastTransitionTime := now\<rparr>]"
| "ref_set_condition now (d # ds) c =
     (if cond_type d = cond_type c then
        c\<lparr>cond_lastTransitionTime :=
            if cond_status d = cond_status c then cond_lastTransitionTime d else now\<rparr> # ds
      else d # ref_set_condition now ds c)"

definition ref_env :: "cluster env" where
  "ref_env =
     \<lparr>env_get_schema = \<lambda>k x. (lookup schema_object_key (cl_schemas x) k, x),
      env_get_registry = \<lambda>k x. (lookup registry_object_key (cl_registries x) k, x),
      env_get_secret = \<lambda>k x. (lookup secret_object_key (cl_secrets x) k, x),
      env_list_schemas = \<lambda>ns x. (Inr (filter (\<lambda>s. meta_namespace (sch_meta s) = ns) (cl_schemas x)), x),
      env_list_registries =
        \<lambda>ns x. (Inr (filter (\<lambda>r. meta_namespace (sr_meta r) = ns) (cl_registries x)), x),
      env_update_schema = ref_update_schema,
      env_update_schema_status = ref_update_schema_status,
      env_update_registry_status = ref_update_registry_status,
      env_http_do = ref_http_do,
      env_now = \<lambda>x. (cl_clock x, x\<lparr>cl_clock := cl_clock x + 1\<rparr>),
      env_new_request_error = \<lambda>m u. None,
      env_json_error = \<lambda>body. Foreign 2 ''invalid character'',
      env_printable = \<lambda>r. True,
      env_x509_key_pair = ref_key_pair,
      env_append_certs = \<lambda>pool pem. if pem = [] then pool else pool @ [pem],
      env_ignore_not_found = \<lambda>e. if e = not_found then None else Some e,
      env_time_is_zero = \<lambda>t. t = None,
      env_contains_finalizer = \<lambda>fs f. f \<in> set fs,
      env_add_finalizer = \<lambda>fs f. if f \<in> set fs then fs else fs @ [f],
      env_remove_finalizer = \<lambda>fs f. filter (\<lambda>g. g \<noteq> f) fs,
      env_set_status_condition = \<lambda>x. ref_set_condition (cl_clock x),
      env_object_key = object_key\<rparr>"

section \<open>The documented laws hold\<close>

lemma ref_finalizer_laws: "finalizer_laws ref_env"
  by (auto simp: finalizer_laws_def ref_env_def)

lemma ref_set_condition_find:
  "\<exists>t. find_condition (cond_type c) (ref_set_condition now cs c) = Some (c\<lparr>cond_lastTransitionTime := t\<rparr>)"
  by (induction cs) (auto simp: find_condition_def)

lemma ref_set_condition_except:
  "conditions_except (cond_type c) (ref_set_condition now cs c) = conditions_except (cond_type c) cs"
  by (induction cs) (auto simp: conditions_except_def)

lemma ref_condition_laws: "condition_laws ref_env"
  by (simp add: condition_laws_def ref_env_def ref_set_condition_find ref_set_condition_except)

lemma ref_list_laws: "list_laws ref_env"
  by (auto simp: list_laws_def ref_env_def)

definition ref_view :: "cluster \<Rightarrow> store" where
  "ref_view x k = find (\<lambda>s. schema_object_key s = k) (cl_schemas x)"

lemma lookup_view:
  "lookup schema_object_key (cl_schemas x) k = (case ref_view x k of None \<Rightarrow> Inl not_found | Some s \<Rightarrow> Inr s)"
  by (simp add: lookup_def ref_view_def)

lemma ref_update_view:
  assumes "ref_update_schema s x = (None, x')" "ref_view x (schema_object_key s) = Some old"
    and "same_but_finalizers s old"
  shows "ref_view x' = (ref_view x)(schema_object_key s := settle s)"
proof -
  let ?k = "schema_object_key s"
  let ?f = "\<lambda>o'. if schema_object_key o' = ?k then o'\<lparr>sch_meta := sch_meta s, sch_spec := sch_spec s\<rparr> else o'"
  let ?ys = "filter (\<lambda>o'. \<not> (schema_object_key o' = ?k \<and> finished o')) (map ?f (cl_schemas x))"
  have x': "cl_schemas x' = ?ys"
    using assms(1) by (auto simp: ref_update_schema_def split: if_splits)
  have other: "find (\<lambda>s. schema_object_key s = k) (filter (\<lambda>o'. \<not> (schema_object_key o' = ?k \<and> finished o')) (map ?f xs)) =
      find (\<lambda>s. schema_object_key s = k) xs" if "k \<noteq> ?k" for k xs
    using that by (induction xs) auto
  have own: "find (\<lambda>s. schema_object_key s = ?k) (filter (\<lambda>o'. \<not> (schema_object_key o' = ?k \<and> finished o')) (map ?f xs)) =
      (if finished s then None else
       map_option (\<lambda>o'. o'\<lparr>sch_meta := sch_meta s, sch_spec := sch_spec s\<rparr>)
         (find (\<lambda>s. schema_object_key s = ?k) xs))" for xs
    by (induction xs) (auto simp: finished_def)
  have "old\<lparr>sch_meta := sch_meta s, sch_spec := sch_spec s\<rparr> = s"
    using assms(3) by (cases s; cases old) (auto simp: same_but_finalizers_def)
  then show ?thesis
    using assms(2) other own [of "cl_schemas x"]
    by (intro ext) (auto simp: ref_view_def x' settle_def finished_def)
qed

lemma ref_status_view:
  assumes "ref_update_schema_status s x = (None, x')" "ref_view x (schema_object_key s) = Some old"
    and "same_but_status s old"
  shows "ref_view x' = (ref_view x)(schema_object_key s \<mapsto> s)"
proof -
  let ?k = "schema_object_key s"
  let ?f = "\<lambda>o'. if schema_object_key o' = ?k then o'\<lparr>sch_status := sch_status s\<rparr> else o'"
  have x': "cl_schemas x' = map ?f (cl_schemas x)"
    using assms(1) by (auto simp: ref_update_schema_status_def split: if_splits)
  have other: "find (\<lambda>s. schema_object_key s = k) (map ?f xs) = find (\<lambda>s. schema_object_key s = k) xs"
    if "k \<noteq> ?k" for k xs
    using that by (induction xs) auto
  have own: "find (\<lambda>s. schema_object_key s = ?k) (map ?f xs) =
      map_option (\<lambda>o'. o'\<lparr>sch_status := sch_status s\<rparr>) (find (\<lambda>s. schema_object_key s = ?k) xs)" for xs
    by (induction xs) auto
  have "old\<lparr>sch_status := sch_status s\<rparr> = s"
    using assms(3) by (simp add: same_but_status_def)
  then show ?thesis
    using assms(2) other own [of "cl_schemas x"] by (intro ext) (auto simp: ref_view_def x')
qed

lemma ref_api_laws: "api_laws ref_env ref_view"
  unfolding api_laws_def
proof (intro conjI allI impI)
  show "schema_object_key s = k" if "ref_view x k = Some s" for x k s
    using that by (auto simp: ref_view_def find_Some_iff)
next
  fix k x r x' assume g: "env_get_schema ref_env k x = (r, x')"
  then show "ref_view x' = ref_view x" by (auto simp: ref_env_def)
  show "ref_view x k = Some s" if "r = Inr s" for s
    using g that by (auto simp: ref_env_def lookup_view split: option.splits)
  show "ref_view x k = None" if "r = Inl e" "env_ignore_not_found ref_env e = None" for e
    using g that by (auto simp: ref_env_def lookup_view split: option.splits)
next
  show "ref_view x' = (ref_view x)(schema_object_key s := settle s)"
    if "env_update_schema ref_env s x = (None, x')" "ref_view x (schema_object_key s) = Some old"
      "same_but_finalizers s old" for s x x' old
    using ref_update_view [OF _ that(2,3)] that(1) by (simp add: ref_env_def)
next
  show "ref_view x' = (ref_view x)(schema_object_key s \<mapsto> s)"
    if "env_update_schema_status ref_env s x = (None, x')" "ref_view x (schema_object_key s) = Some old"
      "same_but_status s old" for s x x' old
    using ref_status_view [OF _ that(2,3)] that(1) by (simp add: ref_env_def)
qed (auto simp: ref_env_def ref_view_def ref_http_do_def split: list.splits)

definition ref_subject_set :: "cluster \<Rightarrow> string set" where
  "ref_subject_set x = set (cl_subjects x)"

lemma ref_registry_laws: "registry_laws ref_env ref_subject_set"
  unfolding registry_laws_def
  by (intro conjI allI impI)
    (auto simp: ref_env_def ref_subject_set_def ref_http_do_def ref_subjects_def method_defs
      ref_update_schema_def ref_update_schema_status_def split: list.splits sum.splits if_splits)

lemmas ref_laws = ref_finalizer_laws ref_condition_laws ref_list_laws

section \<open>Sample objects\<close>

definition sample_meta :: "string \<Rightarrow> string \<Rightarrow> ObjectMeta" where
  "sample_meta ns n =
     \<lparr>meta_name = n, meta_namespace = ns, meta_generation = 1, meta_deletionTimestamp = None,
      meta_finalizers = []\<rparr>"

definition sample_registry :: SchemaRegistry where
  "sample_registry =
     \<lparr>sr_meta = sample_meta ''kafka'' ''main'',
      sr_spec = \<lparr>sr_url = ''http://registry:8081'', sr_auth = None, sr_insecureSkipVerify = False,
                 sr_timeout = 0\<rparr>,
      sr_status = \<lparr>sr_connectionStatus = [], sr_lastChecked = None, sr_observedGeneration = 0,
                   sr_conditions = []\<rparr>\<rparr>"

definition basic_registry :: SchemaRegistry where
  "basic_registry =
     sample_registry\<lparr>sr_spec := (sr_spec sample_registry)\<lparr>sr_auth :=
       Some \<lparr>auth_type = ''BASIC'', auth_basicAuth = Some \<lparr>basic_secretRef = ''creds''\<rparr>,
             auth_bearerAuth = None, auth_mtls = None\<rparr>\<rparr>\<rparr>"

definition sample_secret :: Secret where
  "sample_secret =
     \<lparr>secret_name = ''creds'', secret_namespace = ''kafka'',
      secret_data = [(''username'', ''alice''), (''password'', ''pw'')]\<rparr>"

definition sample_schema :: Schema where
  "sample_schema =
     \<lparr>sch_meta = sample_meta ''kafka'' ''orders'',
      sch_spec = \<lparr>spec_subject = ''orders-value'', spec_schemaType = ''AVRO'', spec_schema = ''{}'',
                  spec_references = [], spec_registryRef = \<lparr>rr_name = ''main'', rr_namespace = []\<rparr>,
                  spec_compatibilityLevel = ''FULL''\<rparr>,
      sch_status = \<lparr>status_schemaID = None, status_version = None, status_registeredAt = None,
                    status_observedGeneration = 0, status_conditions = []\<rparr>\<rparr>"

definition deleted_schema :: Schema where
  "deleted_schema =
     sample_schema\<lparr>sch_meta := (sch_meta sample_schema)
       \<lparr>meta_deletionTimestamp := Some 7, meta_finalizers := [schemaFinalizer]\<rparr>\<rparr>"

definition sample_key :: ObjectKey where
  "sample_key = \<lparr>key_namespace = ''kafka'', key_name = ''orders''\<rparr>"

definition registry_sample_key :: ObjectKey where
  "registry_sample_key = \<lparr>key_namespace = ''kafka'', key_name = ''main''\<rparr>"

definition answer :: "go_int \<Rightarrow> string \<Rightarrow> go_error + HttpResponse" where
  "answer st body = Inr \<lparr>resp_status = st, resp_body = body, resp_body_error = None\<rparr>"

definition sample_world ::
  "Schema list \<Rightarrow> SchemaRegistry list \<Rightarrow> (go_error + HttpResponse) list \<Rightarrow> cluster world" where
  "sample_world ss rs answers =
     \<lparr>ext = \<lparr>cl_schemas = ss, cl_registries = rs, cl_secrets = [sample_secret],
             cl_answers = answers, cl_subjects = [], cl_clock = 100\<rparr>,
      log = []\<rparr>"

text \<open>A new Schema is registered, a deleted one cleaned up, a registry probed.\<close>

definition register_world :: "cluster world" where
  "register_world =
     sample_world [sample_schema] [sample_registry]
       [answer 200 (render (id_answer 42)),
        answer 200 (render (version_object ''orders-value'' 3 42 ''{}'')),
        answer 200 []]"

definition delete_world :: "cluster world" where
  "delete_world =
     (let w = sample_world [deleted_schema] [sample_registry] [answer 200 []] in
      w\<lparr>ext := (ext w)\<lparr>cl_subjects := [''http://registry:8081/subjects/orders-value'']\<rparr>\<rparr>)"

text \<open>The registry is there, the Secret with its credentials is not.\<close>

definition lost_secret_world :: "cluster world" where
  "lost_secret_world =
     (let w = sample_world [deleted_schema] [basic_registry] [] in
      w\<lparr>ext := (ext w)\<lparr>cl_secrets := []\<rparr>\<rparr>)"

definition unread_world :: "cluster world" where
  "unread_world =
     (let w = sample_world [] [basic_registry] [] in w\<lparr>ext := (ext w)\<lparr>cl_secrets := []\<rparr>\<rparr>)"

definition health_world :: "cluster world" where
  "health_world = sample_world [] [sample_registry] [answer 200 []]"

definition register_run :: "(Result \<times> go_error option) \<times> cluster world" where
  "register_run = schema_reconcile ref_env sample_key register_world"

definition delete_run :: "(Result \<times> go_error option) \<times> cluster world" where
  "delete_run = schema_reconcile ref_env sample_key delete_world"

definition health_run :: "(Result \<times> go_error option) \<times> cluster world" where
  "health_run = registry_reconcile ref_env registry_sample_key health_world"

end
