(* ===== verification/SchemaProperties.thy ===== *)
theory SchemaProperties
  imports SchemaEvidence RefCluster
begin

text \<open>
  The properties of a Schema reconciliation, for every environment that keeps the documented
  laws and every run in it, each applied to a run of the sample cluster.
\<close>

section \<open>Sample runs\<close>

lemma sample_logs [simp]: "log register_world = []" "log delete_world = []"
  by (simp_all add: register_world_def delete_world_def sample_world_def Let_def)

lemma register_run_eq:
  "schema_reconcile ref_env sample_key register_world = (fst register_run, snd register_run)"
  "log (snd register_run) = log register_world @ log (snd register_run)"
  by (simp_all add: register_run_def)

lemma delete_run_eq:
  "schema_reconcile ref_env sample_key delete_world = (fst delete_run, snd delete_run)"
  "log (snd delete_run) = log delete_world @ log (snd delete_run)"
  by (simp_all add: delete_run_def)

lemma register_run_length: "length (log (snd register_run)) = 9"
  by code_simp

lemma register_run_post:
  "case log (snd register_run) ! 4 of HttpDone hc rq out \<Rightarrow> req_method rq = MethodPost | _ \<Rightarrow> False"
  by code_simp

lemma register_run_status:
  "case log (snd register_run) ! 8 of
     UpdatedSchemaStatus s r \<Rightarrow> ready_status s = Some ConditionTrue \<and> r = None | _ \<Rightarrow> False"
  by code_simp

lemma register_run_first: "first_schema (log (snd register_run)) = Some sample_schema"
  by code_simp

lemma register_run_result: "fst register_run = (no_requeue, None)"
  by code_simp

lemma register_run_gets: "list_all (\<lambda>e. case e of GotSchema k (Inl e) \<Rightarrow> False | _ \<Rightarrow> True)
    (log (snd register_run))"
  by code_simp

lemma delete_run_length: "length (log (snd delete_run)) = 4"
  by code_simp

lemma delete_run_removal:
  "case log (snd delete_run) ! 3 of UpdatedSchema s r \<Rightarrow> \<not> has_finalizer s | _ \<Rightarrow> False"
  by code_simp

lemma delete_run_request:
  "case log (snd delete_run) ! 2 of HttpDone hc rq out \<Rightarrow> True | _ \<Rightarrow> False"
  by code_simp

lemma delete_run_first: "first_schema (log (snd delete_run)) = Some deleted_schema"
  by code_simp

lemma delete_run_result: "fst delete_run = (no_requeue, None)"
  by code_simp

lemma sample_deleted: "is_deleted ref_env deleted_schema" "\<not> is_deleted ref_env sample_schema"
  "has_finalizer deleted_schema"
  by (simp_all add: ref_env_def deleted_schema_def sample_schema_def sample_meta_def)

section \<open>The order of the calls\<close>

lemma run_accepted:
  assumes "finalizer_laws E" "condition_laws E" "schema_reconcile E key w = (r, w')"
    and "log w' = log w @ es"
  shows "accepted E es"
  using schema_reconcile_accepted [OF assms(1-3)] assms(4) by auto

lemma schema_reconcile_first:
  assumes "schema_reconcile E key w = (r, w')" "log w' = log w @ es"
  shows "\<exists>es'. es = GotSchema key (fst (k8s_get_schema E key w)) # es'"
proof -
  obtain out w1 where g: "k8s_get_schema E key w = (out, w1)" by (cases "k8s_get_schema E key w")
  note l1 = op_log(1) [OF g]
  have "\<exists>es'. log w' = log w1 @ es'"
  proof (cases out)
    case (Inl e)
    then show ?thesis using assms(1) g by (simp add: schema_reconcile_def)
  next
    case (Inr s)
    then show ?thesis
      using assms(1) g reconcile_deletion_framed [of E s w1 r w' "[s]"]
        reconcile_adding_finalizer_framed [of E key s w1 r w' "[s]"]
        reconcile_registration_framed [of E key s w1 r w' "[s]"]
      by (auto simp: schema_reconcile_def split: if_splits)
  qed
  then show ?thesis using assms(2) l1 g by auto
qed

text \<open>
  C4. Refinement: in every environment that keeps the documented laws, the calls a Schema
  reconciliation makes are a run of the protocol of \<open>SchemaProtocol\<close>.
\<close>

theorem schema_run_refines_protocol:
  assumes "finalizer_laws E" "condition_laws E" "schema_reconcile E key w = (r, w')"
    and "log w' = log w @ es"
  shows "accepted E es"
  by (rule run_accepted [OF assms])

theorem schema_run_refines_protocol_witness:
  "accepted ref_env (log (snd register_run)) \<and> length (log (snd register_run)) = 9"
  using schema_run_refines_protocol [OF ref_finalizer_laws ref_condition_laws register_run_eq]
    register_run_length by simp

text \<open>
  C5. Before any request is sent to the registry, the run has seen the finalizer stored: it
  read a Schema that carries it, or its own update adding it was accepted. So no subject is
  touched that a later deletion of the resource would not clean up.
\<close>

theorem requests_only_behind_finalizer:
  assumes "finalizer_laws E" "condition_laws E" "schema_reconcile E key w = (r, w')"
    and "log w' = log w @ es" "i < length es" "is_http (es ! i)"
  shows "list_ex shows_finalizer (take i es)"
  using accepted_http_finalizer [OF run_accepted [OF assms(1-4)] assms(5,6)] .

theorem requests_only_behind_finalizer_witness:
  "list_ex shows_finalizer (take 4 (log (snd register_run)))"
proof -
  have "is_http (log (snd register_run) ! 4)"
    using register_run_post by (auto simp: is_http_def split: event.splits)
  then show ?thesis
    using requests_only_behind_finalizer [OF ref_finalizer_laws ref_condition_laws register_run_eq, of 4]
      register_run_length by simp
qed

text \<open>
  C6. An update that stores a Schema without the finalizer stores it for a Schema that the run read
  as being deleted, unchanged but for the finalizers, and rests on one of two things. Either the
  DELETE of that Schema's own subject, sent by a client built from the SchemaRegistry it refers to,
  was answered with 200 or 404 before; or no client could be built for it, and no request was sent.
\<close>

theorem finalizer_removed_after_cleanup:
  assumes "finalizer_laws E" "condition_laws E" "schema_reconcile E key w = (r, w')"
    and "log w' = log w @ es" "i < length es" "es ! i = UpdatedSchema s u" "\<not> has_finalizer s"
  shows "\<exists>s0 w1. k8s_get_schema E key w = (Inr s0, w1) \<and> is_deleted E s0 \<and> same_but_finalizers s s0 \<and>
    ((\<exists>sr c resp. GotRegistry (registry_key s0) (Inr sr) \<in> set (take i es) \<and> client_of sr c \<and>
        HttpDone (c_httpClient c) (delete_request c (spec_subject (sch_spec s0))) (Inr resp) \<in> set (take i es) \<and>
        resp_status resp \<in> {StatusOK, StatusNotFound}) \<or>
     \<not> list_ex is_http (take i es) \<and>
       (\<exists>e w2. buildClient E s0 w1 = (Inl e, w2) \<and> log w2 = log w @ take i es))"
proof -
  obtain out w1 where g: "k8s_get_schema E key w = (out, w1)" by (cases "k8s_get_schema E key w")
  note l1 = op_log(1) [OF g]
  obtain s0 where s0: "out = Inr s0"
  proof (cases out)
    case (Inl e)
    then have "es = [GotSchema key (Inl e)]" using assms(3,4) g l1 by (simp add: schema_reconcile_def)
    then show ?thesis using assms(5,6) by simp
  qed
  obtain es' where es: "es = GotSchema key (Inr s0) # es'"
    using schema_reconcile_first [OF assms(3,4)] g s0 by auto
  then have del: "is_deleted E s0"
    using accepted_removal_deleting [OF run_accepted [OF assms(1-4)] assms(5) _ assms(6,7)] by simp
  then have run: "reconcile_deletion E s0 w1 = (r, w')"
    using assms(3) g s0 by (simp add: schema_reconcile_def)
  obtain j where j: "i = Suc j" "es' ! j = UpdatedSchema s u" "j < length es'"
    using assms(5,6) es by (cases i) auto
  have l': "log w' = log w1 @ es'" using assms(4) l1 es s0 by simp
  have t: "take i es = GotSchema key (Inr s0) # take j es'" using es j(1) by simp
  from reconcile_deletion_update [OF run l' j(3,2)] show ?thesis
    using g s0 del l1 unfolding t by (auto simp: subject_cleaned_def is_http_def)
qed

theorem finalizer_removed_after_cleanup_witness:
  "\<exists>sr c resp. GotRegistry (registry_key deleted_schema) (Inr sr) \<in> set (take 3 (log (snd delete_run))) \<and>
    client_of sr c \<and> HttpDone (c_httpClient c) (delete_request c ''orders-value'') (Inr resp)
      \<in> set (take 3 (log (snd delete_run))) \<and> resp_status resp \<in> {StatusOK, StatusNotFound}"
proof -
  obtain s u where "log (snd delete_run) ! 3 = UpdatedSchema s u" "\<not> has_finalizer s"
    using delete_run_removal by (auto split: event.splits)
  moreover have "is_http (log (snd delete_run) ! 2)"
    using delete_run_request by (auto simp: is_http_def split: event.splits)
  then have "list_ex is_http (take 3 (log (snd delete_run)))"
    using delete_run_length by (auto simp: list_ex_length intro!: exI [of _ 2])
  moreover have "\<exists>w1. k8s_get_schema ref_env sample_key delete_world = (Inr deleted_schema, w1)"
  proof -
    have "fst (k8s_get_schema ref_env sample_key delete_world) = Inr deleted_schema" by code_simp
    then show ?thesis by (metis prod.collapse)
  qed
  moreover have "spec_subject (sch_spec deleted_schema) = ''orders-value''"
    by (simp add: deleted_schema_def sample_schema_def)
  ultimately show ?thesis
    using finalizer_removed_after_cleanup [OF ref_finalizer_laws ref_condition_laws delete_run_eq, of 3]
      delete_run_length by fastforce
qed

text \<open>
  C7. Every status a run writes either says Ready false, or says Ready true together with an
  ID that the registry returned earlier in the same run in answer to the registration.
\<close>

theorem status_tells_the_truth:
  assumes "finalizer_laws E" "condition_laws E" "schema_reconcile E key w = (r, w')"
    and "log w' = log w @ es" "i < length es" "es ! i = UpdatedSchemaStatus s u"
  shows "ready_status s = Some ConditionFalse \<or>
    ready_status s = Some ConditionTrue \<and>
      (\<exists>n. status_schemaID (sch_status s) = Some n \<and> list_ex (shows_registration n) (take i es))"
  using accepted_status [OF run_accepted [OF assms(1-4)] assms(5,6)] .

theorem status_tells_the_truth_witness:
  "\<exists>n. list_ex (shows_registration n) (take 8 (log (snd register_run)))"
proof -
  obtain s u where s: "log (snd register_run) ! 8 = UpdatedSchemaStatus s u"
    "ready_status s = Some ConditionTrue"
    using register_run_status by (auto split: event.splits)
  then show ?thesis
    using status_tells_the_truth [OF ref_finalizer_laws ref_condition_laws register_run_eq, of 8 s u]
      register_run_length by (auto simp: ConditionTrue_def ConditionFalse_def)
qed

text \<open>
  C8. A run ends after at most eleven calls, whatever the environment answers, and registers at
  most once: at most one of its calls is a POST. Eleven is what a first registration over mTLS
  with a CA Secret and a compatibility level takes.
\<close>

theorem run_is_bounded:
  assumes "finalizer_laws E" "condition_laws E" "schema_reconcile E key w = (r, w')"
    and "log w' = log w @ es"
  shows "length es \<le> 11 \<and> length (filter (is_method MethodPost) es) \<le> 1"
  using accepted_posts [OF run_accepted [OF assms]] run_frame.events_contract [OF assms(3,4)]
  by (simp add: framed_def)

theorem run_is_bounded_witness:
  "length (log (snd register_run)) \<le> 11 \<and>
   length (filter (is_method MethodPost) (log (snd register_run))) \<le> 1"
  using run_is_bounded [OF ref_finalizer_laws ref_condition_laws register_run_eq] .

text \<open>
  C9. The first Schema a run reads decides its direction: if it is marked for deletion, every
  request is a DELETE and no status is written; otherwise no request is a DELETE.
\<close>

theorem deletion_decides_direction:
  assumes "finalizer_laws E" "condition_laws E" "schema_reconcile E key w = (r, w')"
    and "log w' = log w @ es" "first_schema es = Some s" "i < length es"
  shows "case es ! i of
      HttpDone hc rq out \<Rightarrow> req_method rq = MethodDelete \<longleftrightarrow> is_deleted E s
    | UpdatedSchemaStatus s' u \<Rightarrow> \<not> is_deleted E s
    | _ \<Rightarrow> True"
proof (cases "es ! i")
  case (HttpDone hc rq out)
  then show ?thesis
    using accepted_direction [OF run_accepted [OF assms(1-4)] assms(6,5)] by simp
next
  case (UpdatedSchemaStatus s' u)
  then show ?thesis
    using accepted_deleting_status [OF run_accepted [OF assms(1-4)] assms(5) _ assms(6)] by auto
qed simp_all

theorem deletion_decides_direction_witness:
  "case log (snd delete_run) ! 2 of HttpDone hc rq out \<Rightarrow> req_method rq = MethodDelete | _ \<Rightarrow> False"
  using deletion_decides_direction [OF ref_finalizer_laws ref_condition_laws delete_run_eq
      delete_run_first, of 2] delete_run_length delete_run_request sample_deleted(1)
  by (auto split: event.splits)

section \<open>What a run says and how it ends\<close>

lemma run_emits:
  assumes "condition_laws E" "schema_reconcile E key w = (r, w')" "log w' = log w @ es"
  shows "run_contract E key r es"
  using schema_reconcile_emits [OF assms(1,2)] assms(3) by auto

text \<open>
  C10. Every request of a run is one of the four requests about the subject of a Schema the
  run read under its key, sent by a client built from the SchemaRegistry that Schema refers to
  (its URL, timeout, TLS setting and authentication type), which the run read as well.
\<close>

theorem requests_on_behalf_of_schema:
  assumes "condition_laws E" "schema_reconcile E key w = (r, w')" "log w' = log w @ es"
    and "HttpDone hc rq out \<in> set es"
  shows "\<exists>s sr c. GotSchema key (Inr s) \<in> set es \<and>
    GotRegistry (registry_key s) (Inr sr) \<in> set es \<and> client_of sr c \<and>
    hc = c_httpClient c \<and> rq \<in> set (schema_requests c s)"
proof -
  have "own_traffic key es" using run_emits [OF assms(1-3)] by (simp add: run_contract_def)
  then obtain s where "GotSchema key (Inr s) \<in> set es" "on_behalf_of s es (HttpDone hc rq out)"
    using assms(4) unfolding own_traffic_def is_http_def by fastforce
  then show ?thesis by (auto simp: on_behalf_of_def)
qed

theorem requests_on_behalf_of_schema_witness:
  "\<exists>hc rq out s sr c. HttpDone hc rq out \<in> set (log (snd register_run)) \<and>
    GotSchema sample_key (Inr s) \<in> set (log (snd register_run)) \<and>
    GotRegistry (registry_key s) (Inr sr) \<in> set (log (snd register_run)) \<and> client_of sr c \<and>
    hc = c_httpClient c \<and> rq \<in> set (schema_requests c s)"
proof -
  obtain hc rq out where "log (snd register_run) ! 4 = HttpDone hc rq out"
    using register_run_post by (auto split: event.splits)
  then have e: "HttpDone hc rq out \<in> set (log (snd register_run))"
    using register_run_length nth_mem [of 4 "log (snd register_run)"] by simp
  show ?thesis
    using requests_on_behalf_of_schema [OF ref_condition_laws register_run_eq e] e by blast
qed

text \<open>A registration run that could read what it asked for and returned no error is settled.\<close>

lemma live_run_settles:
  assumes "condition_laws E" "schema_reconcile E key w = (r, w')" "log w' = log w @ es"
    and "first_schema es = Some s" "\<not> is_deleted E s" "snd r = None"
    and "\<forall>k e. GotSchema k (Inl e) \<notin> set es"
  shows "\<exists>s'. es \<noteq> [] \<and> last es = UpdatedSchemaStatus s' None \<and>
    (requeueAfter (fst r) = 0 \<and> ready_status s' = Some ConditionTrue \<or>
     requeueAfter (fst r) = time_Minute \<and> ready_status s' = Some ConditionFalse)"
  using run_emits [OF assms(1-3)] assms(4-7) by (simp add: run_contract_def settled_def)

lemma unreadable_schema_does_nothing:
  assumes "condition_laws E" "schema_reconcile E key w = (r, w')" "log w' = log w @ es"
    and "first_schema es = None"
  shows "\<exists>e. es = [GotSchema key (Inl e)] \<and> r = (no_requeue, env_ignore_not_found E e)"
  using run_emits [OF assms(1-3)] assms(4) by (simp add: run_contract_def)

section \<open>Deletion\<close>

lemma reconcile_deletion_progress:
  assumes "finalizer_laws E" "reconcile_deletion E s w = (r, w')" "has_finalizer s" "snd r = None"
  shows "\<exists>s' es. log w' = log w @ es @ [UpdatedSchema s' None] \<and> sch_spec s' = sch_spec s \<and>
    set (meta_finalizers (sch_meta s')) = set (meta_finalizers (sch_meta s)) - {schemaFinalizer}"
proof -
  have c: "env_contains_finalizer E (meta_finalizers (sch_meta s)) schemaFinalizer"
    using assms(3) finalizer_lawsD(1) [OF assms(1)] by simp
  let ?s1 = "s\<lparr>sch_meta := (sch_meta s)\<lparr>meta_finalizers :=
    env_remove_finalizer E (meta_finalizers (sch_meta s)) schemaFinalizer\<rparr>\<rparr>"
  obtain d w1 where d: "deleteFromRegistry E s w = (d, w1)" by (cases "deleteFromRegistry E s w")
  obtain es where l1: "log w1 = log w @ es" using deleteFromRegistry_accepted [OF d] by blast
  have "d = None" using assms(2,4) c d by (cases d) (auto simp: reconcile_deletion_def)
  then have u: "k8s_update_schema E ?s1 w1 = (None, w')"
    using assms(2,4) c d by (auto simp: reconcile_deletion_def split: prod.splits option.splits)
  have "set (meta_finalizers (sch_meta ?s1)) = set (meta_finalizers (sch_meta s)) - {schemaFinalizer}"
    using finalizer_lawsD(3) [OF assms(1)] by simp
  moreover have "log w' = log w @ es @ [UpdatedSchema ?s1 None]" using l1 op_log(6) [OF u] by simp
  moreover have "sch_spec ?s1 = sch_spec s" by simp
  ultimately show ?thesis by blast
qed

section \<open>How a run ends\<close>

text \<open>When controller-runtime calls \<open>Reconcile\<close> again for the same key: on an error, or after a delay.\<close>

definition asks_again :: "Result \<times> go_error option \<Rightarrow> bool" where
  "asks_again r \<longleftrightarrow> snd r \<noteq> None \<or> 0 < sint (requeueAfter (fst r))"

lemma asks_again_simps [simp]:
  "asks_again (x, Some e)" "\<not> asks_again (no_requeue, None)" "asks_again (requeue_minute, u)"
  by (simp_all add: asks_again_def no_requeue_def requeue_minute_def time_Minute_def time_Second_def)

lemma result_no_requeue: "requeueAfter x = 0 \<Longrightarrow> x = no_requeue"
  by (simp add: no_requeue_def)

definition found_gone :: "'w env \<Rightarrow> event \<Rightarrow> bool" where
  "found_gone E e \<longleftrightarrow> (\<exists>k err. e = GotSchema k (Inl err) \<and> env_ignore_not_found E err = None)"

lemma deletion_ends:
  assumes "finalizer_laws E" "condition_laws E" "schema_reconcile E key w = (r, w')" "log w' = log w @ es"
    and "first_schema es = Some s" "is_deleted E s" "snd r = None"
  shows "es = [GotSchema key (Inr s)] \<and> \<not> has_finalizer s \<or>
    (\<exists>s'. last es = UpdatedSchema s' None \<and> \<not> has_finalizer s')"
proof -
  obtain out w1 where g: "k8s_get_schema E key w = (out, w1)" by (cases "k8s_get_schema E key w")
  note l1 = op_log(1) [OF g]
  show ?thesis
  proof (cases out)
    case (Inl e)
    then have "es = [GotSchema key (Inl e)]"
      using assms(3,4) g l1 by (simp add: schema_reconcile_def)
    then show ?thesis using assms(5) by simp
  next
    case (Inr s0)
    obtain es' where es: "es = GotSchema key (Inr s0) # es'"
      using schema_reconcile_first [OF assms(3,4)] g Inr by auto
    then have s0: "s0 = s" using assms(5) by simp
    then have del: "reconcile_deletion E s w1 = (r, w')"
      using assms(3,6) g Inr by (simp add: schema_reconcile_def)
    show ?thesis
    proof (cases "has_finalizer s")
      case True
      obtain s' es1 where "log w' = log w1 @ es1 @ [UpdatedSchema s' None]"
          "set (meta_finalizers (sch_meta s')) = set (meta_finalizers (sch_meta s)) - {schemaFinalizer}"
        using reconcile_deletion_progress [OF assms(1) del True assms(7)] by blast
      moreover from this have "es = GotSchema key out # es1 @ [UpdatedSchema s' None]"
        using assms(4) l1 by simp
      ultimately show ?thesis by auto
    next
      case False
      then have "w' = w1" using del finalizer_lawsD(1) [OF assms(1)] by (simp add: reconcile_deletion_def)
      then show ?thesis using es s0 assms(4) l1 Inr False by simp
    qed
  qed
qed

lemma failed_read_stops:
  assumes "schema_reconcile E key w = (r, w')" "log w' = log w @ es"
  shows "\<forall>k e. GotSchema k (Inl e) \<in> set es \<longrightarrow>
      last es = GotSchema k (Inl e) \<and> snd r = env_ignore_not_found E e"
  using run_frame.events_contract [OF assms] stops_last [of E "snd r" es]
  by (simp add: framed_def)

lemma quiet_run_ends:
  assumes "finalizer_laws E" "condition_laws E" "schema_reconcile E key w = (r, w')"
    and "log w' = log w @ es" and ok: "snd r = None"
  shows "found_gone E (last es) \<or>
      fst r = no_requeue \<and> (\<exists>s. es = [GotSchema key (Inr s)] \<and> is_deleted E s \<and> \<not> has_finalizer s) \<or>
      fst r = no_requeue \<and> (\<exists>s. last es = UpdatedSchema s None \<and> \<not> has_finalizer s) \<or>
      fst r = no_requeue \<and> (\<exists>s. last es = UpdatedSchemaStatus s None \<and> ready_status s = Some ConditionTrue) \<or>
      fst r = requeue_minute \<and> (\<exists>s. last es = UpdatedSchemaStatus s None \<and> ready_status s = Some ConditionFalse)"
proof (cases "\<exists>k e. GotSchema k (Inl e) \<in> set es")
  case True
  then show ?thesis using failed_read_stops [OF assms(3,4)] ok by (auto simp: found_gone_def)
next
  case reads: False
  show ?thesis
  proof (cases "first_schema es")
    case None
    then show ?thesis using unreadable_schema_does_nothing [OF assms(2-4)] reads by auto
  next
    case (Some s)
    show ?thesis
    proof (cases "is_deleted E s")
      case True
      then have "fst r = no_requeue"
        using run_emits [OF assms(2-4)] Some by (simp add: run_contract_def)
      then show ?thesis using deletion_ends [OF assms(1-4) Some True ok] True by blast
    next
      case False
      obtain s' where "last es = UpdatedSchemaStatus s' None"
          "requeueAfter (fst r) = 0 \<and> ready_status s' = Some ConditionTrue \<or>
           requeueAfter (fst r) = time_Minute \<and> ready_status s' = Some ConditionFalse"
        using live_run_settles [OF assms(2-4) Some False ok] reads by blast
      then show ?thesis by (auto simp: no_requeue_def requeue_minute_def)
    qed
  qed
qed

text \<open>
  C11. No run forgets a Schema that is not settled. A run that returns no error and asks for no
  further run ended in one of four ways: the Schema is gone; it is being deleted and does not
  carry the operator's finalizer; the update that removed the finalizer was accepted; or a status
  with Ready true was stored. A run that returns no error and asks for a further one asks for it
  after a minute, with Ready false stored, unless the Schema is gone. And a read that fails ends
  the run: its error is returned unless it is a not-found error.
\<close>

theorem no_unsettled_schema_forgotten:
  assumes "finalizer_laws E" "condition_laws E" "schema_reconcile E key w = (r, w')"
    and "log w' = log w @ es"
  shows "(\<not> asks_again r \<longrightarrow>
      found_gone E (last es) \<or>
      (\<exists>s. es = [GotSchema key (Inr s)] \<and> is_deleted E s \<and> \<not> has_finalizer s) \<or>
      (\<exists>s. last es = UpdatedSchema s None \<and> \<not> has_finalizer s) \<or>
      (\<exists>s. last es = UpdatedSchemaStatus s None \<and> ready_status s = Some ConditionTrue)) \<and>
    (snd r = None \<and> fst r \<noteq> no_requeue \<longrightarrow>
      found_gone E (last es) \<or>
      requeueAfter (fst r) = time_Minute \<and>
        (\<exists>s. last es = UpdatedSchemaStatus s None \<and> ready_status s = Some ConditionFalse)) \<and>
    (\<forall>k e. GotSchema k (Inl e) \<in> set es \<longrightarrow>
      last es = GotSchema k (Inl e) \<and> snd r = env_ignore_not_found E e)"
proof -
  note stop = failed_read_stops [OF assms(3,4)] and ends = quiet_run_ends [OF assms]
  have again: "asks_again r" if "fst r = requeue_minute" using that by (cases r) simp
  show ?thesis
  proof (intro conjI impI stop)
    assume "\<not> asks_again r"
    then show "found_gone E (last es) \<or>
        (\<exists>s. es = [GotSchema key (Inr s)] \<and> is_deleted E s \<and> \<not> has_finalizer s) \<or>
        (\<exists>s. last es = UpdatedSchema s None \<and> \<not> has_finalizer s) \<or>
        (\<exists>s. last es = UpdatedSchemaStatus s None \<and> ready_status s = Some ConditionTrue)"
      using ends again by (auto simp: asks_again_def)
  next
    assume "snd r = None \<and> fst r \<noteq> no_requeue"
    then show "found_gone E (last es) \<or> requeueAfter (fst r) = time_Minute \<and>
        (\<exists>s. last es = UpdatedSchemaStatus s None \<and> ready_status s = Some ConditionFalse)"
      using ends by (auto simp: requeue_minute_def)
  qed
qed

theorem no_unsettled_schema_forgotten_witness:
  "\<exists>s'. last (log (snd register_run)) = UpdatedSchemaStatus s' None \<and>
    ready_status s' = Some ConditionTrue"
proof -
  note t = no_unsettled_schema_forgotten [OF ref_finalizer_laws ref_condition_laws register_run_eq]
  have "case last (log (snd register_run)) of UpdatedSchemaStatus s u \<Rightarrow> True | _ \<Rightarrow> False"
    by code_simp
  then show ?thesis using t register_run_result by (auto simp: found_gone_def split: event.splits)
qed

text \<open>Progress of a deletion, on the calls of the run.\<close>

lemma deletion_run_releases:
  assumes "finalizer_laws E" "k8s_get_schema E key w = (Inr s, w1)" "is_deleted E s"
    and "has_finalizer s" "schema_reconcile E key w = (r, w')" "snd r = None"
  shows "\<exists>s' es. log w' = log w1 @ es @ [UpdatedSchema s' None] \<and> sch_spec s' = sch_spec s \<and>
    set (meta_finalizers (sch_meta s')) = set (meta_finalizers (sch_meta s)) - {schemaFinalizer}"
proof -
  have "reconcile_deletion E s w1 = (r, w')"
    using assms(2,3,5) by (simp add: schema_reconcile_def)
  from reconcile_deletion_progress [OF assms(1) this assms(4,6)] show ?thesis .
qed

text \<open>
  C12. The cleanup is given up on any error of building the client, a Secret that cannot be
  read included: the run then sends no request and still stores the Schema without the
  finalizer, so that the subject stays in the registry.
\<close>

theorem unbuildable_client_skips_cleanup:
  assumes "finalizer_laws E" "k8s_get_schema E key w = (Inr s, w1)" "is_deleted E s"
    and "has_finalizer s" "buildClient E s w1 = (Inl e, w2)"
  shows "\<exists>s' u w'. schema_reconcile E key w = ((no_requeue, u), w') \<and>
    log w' = log w2 @ [UpdatedSchema s' u] \<and> \<not> has_finalizer s' \<and>
    (\<forall>es. log w' = log w @ es \<longrightarrow> \<not> list_ex is_http es)"
proof -
  let ?s1 = "s\<lparr>sch_meta := (sch_meta s)\<lparr>meta_finalizers :=
    env_remove_finalizer E (meta_finalizers (sch_meta s)) schemaFinalizer\<rparr>\<rparr>"
  obtain u w' where u: "k8s_update_schema E ?s1 w2 = (u, w')" by (cases "k8s_update_schema E ?s1 w2")
  have c: "env_contains_finalizer E (meta_finalizers (sch_meta s)) schemaFinalizer"
    using assms(4) finalizer_lawsD(1) [OF assms(1)] by simp
  have run: "schema_reconcile E key w = ((no_requeue, u), w')"
    using assms(2,3,5) c u
    by (cases u) (simp_all add: schema_reconcile_def reconcile_deletion_def deleteFromRegistry_def)
  obtain es1 where l2: "log w2 = log w1 @ es1" "build_contract s (Inl e) es1"
    using assms(5) by (rule build_op.eventsE)
  then have "\<not> list_ex is_http es1" by (intro resolve_not_http build_contract_resolve)
  moreover have "log w' = log w2 @ [UpdatedSchema ?s1 u]" by (rule op_log(6) [OF u])
  moreover have "\<not> has_finalizer ?s1" using finalizer_lawsD(3) [OF assms(1)] by simp
  ultimately show ?thesis
    using run l2(1) op_log(1) [OF assms(2)] by (auto simp: is_http_def)
qed

theorem unbuildable_client_skips_cleanup_witness:
  "\<exists>w'. schema_reconcile ref_env sample_key lost_secret_world = ((no_requeue, None), w') \<and>
    \<not> list_ex is_http (log w') \<and> cl_schemas (ext w') = []"
proof -
  let ?run = "schema_reconcile ref_env sample_key lost_secret_world"
  define w1 where "w1 = lost_secret_world\<lparr>log := [GotSchema sample_key (Inr deleted_schema)]\<rparr>"
  have g: "k8s_get_schema ref_env sample_key lost_secret_world = (Inr deleted_schema, w1)"
    unfolding w1_def by code_simp
  have "isl (fst (buildClient ref_env deleted_schema w1))"
    unfolding w1_def by code_simp
  then obtain e w2 where b: "buildClient ref_env deleted_schema w1 = (Inl e, w2)"
    by (cases "buildClient ref_env deleted_schema w1"; cases "fst (buildClient ref_env deleted_schema w1)") auto
  have r: "fst ?run = (no_requeue, None)" "cl_schemas (ext (snd ?run)) = []" by code_simp+
  have "log lost_secret_world = []" by (simp add: lost_secret_world_def sample_world_def)
  then show ?thesis
    using unbuildable_client_skips_cleanup [OF ref_finalizer_laws g sample_deleted(1,3) b] r by auto
qed

section \<open>The operator and its own webhook\<close>

text \<open>
  C13. What a run writes is what it read: an update differs from a Schema read before it in the
  finalizers only, a status update in the status only. So when that Schema was admitted, the
  Schema written is well formed again and the operator's own webhook admits the change.
\<close>

theorem writes_keep_admissible:
  assumes "schema_reconcile E key w = (r, w')" "log w' = log w @ es" "i < length es"
    and "es ! i = UpdatedSchema s' u \<or> es ! i = UpdatedSchemaStatus s' u"
  shows "\<exists>s k. GotSchema k (Inr s) \<in> set (take i es) \<and>
    (case es ! i of UpdatedSchema x v \<Rightarrow> same_but_finalizers s' s | _ \<Rightarrow> same_but_status s' s) \<and>
    (schema_ValidateCreate s = None \<longrightarrow> schema_ok s' \<and> schema_ValidateUpdate s s' = None)"
proof -
  note f = framed_written [OF run_frame.events_contract [OF assms(1,2)] assms(3)]
  obtain s k where s: "GotSchema k (Inr s) \<in> set (take i es)" "sch_spec s' = sch_spec s"
    "case es ! i of UpdatedSchema x v \<Rightarrow> same_but_finalizers s' s | _ \<Rightarrow> same_but_status s' s"
    using assms(4) f same_spec by (elim disjE) (fastforce+)
  have "schema_ok s' \<and> schema_ValidateUpdate s s' = None" if "schema_ValidateCreate s = None"
    using admitted_same_spec [OF s(2) that] schema_admission.update_iff by blast
  with s show ?thesis by (intro exI [of _ s] exI [of _ k]) simp
qed

theorem writes_keep_admissible_witness:
  "\<exists>s s' u. log (snd delete_run) ! 3 = UpdatedSchema s' u \<and> same_but_finalizers s' s \<and>
    GotSchema sample_key (Inr s) \<in> set (log (snd delete_run)) \<and> schema_ok s'"
proof -
  obtain s' u where u: "log (snd delete_run) ! 3 = UpdatedSchema s' u"
    using delete_run_removal by (auto split: event.splits)
  have reads: "list_all (\<lambda>e. case e of GotSchema k (Inr s) \<Rightarrow>
      k = sample_key \<and> schema_ValidateCreate s = None | _ \<Rightarrow> True) (log (snd delete_run))"
    by code_simp
  obtain s k where s: "GotSchema k (Inr s) \<in> set (take 3 (log (snd delete_run)))"
    "same_but_finalizers s' s" "schema_ValidateCreate s = None \<longrightarrow> schema_ok s' \<and> schema_ValidateUpdate s s' = None"
    using writes_keep_admissible [OF delete_run_eq, of 3 s' u] u delete_run_length by auto
  have m: "GotSchema k (Inr s) \<in> set (log (snd delete_run))" using s(1) by (rule in_set_takeD)
  then have "k = sample_key" "schema_ValidateCreate s = None" using reads by (auto simp: list_all_iff)
  then show ?thesis using u s m by blast
qed

section \<open>An edit during the registration\<close>

text \<open>Another actor edits the schema text, and with it the generation, while a request is answered.\<close>

definition edited_text :: "Schema \<Rightarrow> Schema" where
  "edited_text s =
     s\<lparr>sch_meta := (sch_meta s)\<lparr>meta_generation := 2\<rparr>, sch_spec := (sch_spec s)\<lparr>spec_schema := ''[]''\<rparr>\<rparr>"

definition racing_env :: "cluster env" where
  "racing_env = ref_env\<lparr>env_http_do := \<lambda>c rq x.
     (case ref_http_do c rq x of (r, x') \<Rightarrow> (r, x'\<lparr>cl_schemas := map edited_text (cl_schemas x')\<rparr>))\<rparr>"

definition racing_run :: "(Result \<times> go_error option) \<times> cluster world" where
  "racing_run = schema_reconcile racing_env sample_key register_world"

lemma racing_laws: "finalizer_laws racing_env" "condition_laws racing_env"
  using ref_finalizer_laws ref_condition_laws
  by (simp_all add: racing_env_def finalizer_laws_def condition_laws_def)

lemma racing_run_result: "fst racing_run = (no_requeue, None)"
  by code_simp

lemma racing_run_status:
  "case last (log (snd racing_run)) of
     UpdatedSchemaStatus s u \<Rightarrow> u = None \<and> ready_status s = Some ConditionTrue \<and>
       status_observedGeneration (sch_status s) = 2 \<and> meta_generation (sch_meta s) = 2 \<and>
       spec_schema (sch_spec s) = ''[]''
   | _ \<Rightarrow> False"
  by code_simp

lemma racing_run_eq:
  "schema_reconcile racing_env sample_key register_world = (fst racing_run, snd racing_run)"
  by (simp add: racing_run_def)

text \<open>The Schema a run registers is the one it read last before the POST.\<close>

lemma schema_run_reports:
  assumes "finalizer_laws E" "condition_laws E" "schema_reconcile E key w = (r, w')"
    and "log w' = log w @ xs @ HttpDone hc rq out # ys" "req_method rq = MethodPost"
    and "registered_id out = Some n" "GotSchema key (Inr s2) \<in> set ys"
  shows "\<exists>c s1 s u. GotSchema key (Inr s1) \<in> set xs \<and>
    rq = post_request c (spec_subject (sch_spec s1)) (register_request s1) \<and>
    r = (no_requeue, u) \<and> last ys = UpdatedSchemaStatus s u \<and> reports_ready n s2 s"
proof -
  let ?es = "xs @ HttpDone hc rq out # ys"
  obtain o1 w1 where g: "k8s_get_schema E key w = (o1, w1)" by (cases "k8s_get_schema E key w")
  obtain es' where es': "?es = GotSchema key o1 # es'"
    using schema_reconcile_first [OF assms(3,4)] g by auto
  then obtain xs' where xs: "xs = GotSchema key o1 # xs'" "es' = xs' @ HttpDone hc rq out # ys"
    by (cases xs) auto
  obtain s0 where s0: "o1 = Inr s0"
    using assms(3,4) g op_log(1) [OF g] xs by (cases o1) (auto simp: schema_reconcile_def)
  have "first_schema ?es = Some s0" using es' s0 by simp
  then have "\<not> is_deleted E s0"
    using accepted_direction [OF run_accepted [OF assms(1-4)], of "length xs" s0 hc rq out] assms(5)
    by (simp add: method_defs)
  then have run: "(if \<not> env_contains_finalizer E (meta_finalizers (sch_meta s0)) schemaFinalizer
      then reconcile_adding_finalizer E key s0 w1 else reconcile_registration E key s0 w1) = (r, w')"
    using assms(3) g s0 by (simp add: schema_reconcile_def)
  have l': "log w' = log w1 @ xs' @ HttpDone hc rq out # ys" using assms(4) op_log(1) [OF g] xs by simp
  show ?thesis
  proof (cases "env_contains_finalizer E (meta_finalizers (sch_meta s0)) schemaFinalizer")
    case True
    then have "reconcile_registration E key s0 w1 = (r, w')" using run by simp
    from reconcile_registration_reports [OF assms(2) this l' assms(5-7)]
    show ?thesis using xs(1) s0 by auto
  next
    case False
    then have run': "reconcile_adding_finalizer E key s0 w1 = (r, w')" using run by simp
    obtain s1 w3 where s1: "reconcile_registration E key s1 w3 = (r, w')"
      and l3: "log w3 = log w1 @ [UpdatedSchema (add_finalizer_to E s0) None, GotSchema key (Inr s1)]"
      using adding_finalizer_goes_on [OF run' l'] by auto
    then obtain xs'' where "xs' = [UpdatedSchema (add_finalizer_to E s0) None, GotSchema key (Inr s1)] @ xs''"
      and l'': "log w' = log w3 @ xs'' @ HttpDone hc rq out # ys"
      using reconcile_registration_framed [OF s1, of "[]"] l'
      by (cases xs'; cases "tl xs'") auto
    with reconcile_registration_reports [OF assms(2) s1 l'' assms(5-7)]
    show ?thesis using xs(1) by auto
  qed
qed

text \<open>
  C27. A Schema that is edited while it is registered is reported as ready for the edit. Whenever
  the Schema a run reads after its accepted registration has a generation that the run had not
  read before it, the one text it posted is that of another generation; still the run ends with
  the status Ready true, the ID of that registration and the new generation as the observed one,
  and asks for no further run.
\<close>

theorem edited_schema_reported_ready:
  assumes "finalizer_laws E" "condition_laws E" "schema_reconcile E key w = (r, w')"
    and "log w' = log w @ xs @ HttpDone hc rq out # ys" "req_method rq = MethodPost"
    and "registered_id out = Some n" "GotSchema key (Inr s2) \<in> set ys"
    and "\<forall>s. GotSchema key (Inr s) \<in> set xs \<longrightarrow> meta_generation (sch_meta s) \<noteq> meta_generation (sch_meta s2)"
  shows "\<exists>c s1 s u. GotSchema key (Inr s1) \<in> set xs \<and>
    meta_generation (sch_meta s1) \<noteq> meta_generation (sch_meta s2) \<and>
    rq = post_request c (spec_subject (sch_spec s1)) (register_request s1) \<and>
    \<not> list_ex (is_method MethodPost) (xs @ ys) \<and>
    last ys = UpdatedSchemaStatus s u \<and> same_but_status s s2 \<and> ready_status s = Some ConditionTrue \<and>
    status_schemaID (sch_status s) = Some n \<and>
    status_observedGeneration (sch_status s) = meta_generation (sch_meta s2) \<and> r = (no_requeue, u)"
proof -
  have "length (filter (is_method MethodPost) (xs @ HttpDone hc rq out # ys)) \<le> 1"
    by (rule accepted_posts [OF run_accepted [OF assms(1-4)]])
  then have "\<not> list_ex (is_method MethodPost) (xs @ ys)"
    using assms(5) by (auto simp: is_method_def list_ex_iff filter_empty_conv)
  then show ?thesis
    using schema_run_reports [OF assms(1-7)] assms(8) unfolding reports_ready_def by blast
qed

theorem edited_schema_reported_ready_witness:
  "\<exists>c s1 s hc out. log (snd racing_run) ! 4 =
      HttpDone hc (post_request c (spec_subject (sch_spec s1)) (register_request s1)) out \<and>
    last (log (snd racing_run)) = UpdatedSchemaStatus s None \<and> ready_status s = Some ConditionTrue \<and>
    meta_generation (sch_meta s1) = 1 \<and> status_observedGeneration (sch_status s) = 2 \<and>
    spec_schema (sch_spec s1) = ''{}'' \<and> spec_schema (sch_spec s) = ''[]''"
proof -
  let ?es = "log (snd racing_run)"
  have len: "length ?es = 9" by code_simp
  have "case ?es ! 4 of HttpDone hc rq out \<Rightarrow> req_method rq = MethodPost \<and> registered_id out = Some 42 | _ \<Rightarrow> False"
    by code_simp
  then obtain hc rq out where p: "?es ! 4 = HttpDone hc rq out" "req_method rq = MethodPost" "registered_id out = Some 42"
    by (auto split: event.splits)
  have "case ?es ! 7 of GotSchema k (Inr s) \<Rightarrow> k = sample_key \<and> meta_generation (sch_meta s) = 2 | _ \<Rightarrow> False"
    by code_simp
  then obtain s2 where s2: "?es ! 7 = GotSchema sample_key (Inr s2)" "meta_generation (sch_meta s2) = 2"
    by (auto split: event.splits sum.splits)
  have "drop 5 ?es ! 2 = ?es ! 7" "2 < length (drop 5 ?es)" using len by simp_all
  then have s2': "GotSchema sample_key (Inr s2) \<in> set (drop 5 ?es)" using s2(1) nth_mem by metis
  have "list_all (\<lambda>e. case e of GotSchema k (Inr s) \<Rightarrow>
      meta_generation (sch_meta s) = 1 \<and> spec_schema (sch_spec s) = ''{}'' | _ \<Rightarrow> True) (take 4 ?es)"
    by code_simp
  then have old: "\<forall>s. GotSchema sample_key (Inr s) \<in> set (take 4 ?es) \<longrightarrow>
      meta_generation (sch_meta s) = 1 \<and> spec_schema (sch_spec s) = ''{}''"
    by (auto simp: list_all_iff)
  have "log (snd racing_run) = log register_world @ take 4 ?es @ HttpDone hc rq out # drop 5 ?es"
    using id_take_nth_drop [of 4 ?es] len p(1) by simp
  from edited_schema_reported_ready [OF racing_laws racing_run_eq this p(2,3) s2'] old s2(2)
  obtain c s1 s u where r: "GotSchema sample_key (Inr s1) \<in> set (take 4 ?es)"
    "rq = post_request c (spec_subject (sch_spec s1)) (register_request s1)"
    "last (drop 5 ?es) = UpdatedSchemaStatus s u" "ready_status s = Some ConditionTrue"
    "status_observedGeneration (sch_status s) = 2" "fst racing_run = (no_requeue, u)" by auto
  moreover have "last (drop 5 ?es) = last ?es" using len by simp
  moreover have "u = None" using r(6) racing_run_result by simp
  ultimately show ?thesis using p(1) old racing_run_status by (auto split: event.splits)
qed

end
