(* ===== verification/SchemaConvergence.thy ===== *)
theory SchemaConvergence
  imports SchemaStore SchemaProperties
begin

text \<open>
  What a whole Schema reconciliation makes of the stored Schemas and of the registry, by the laws
  of \<open>SchemaStore\<close>: a live Schema converges, a deleted one and its subject are gone.
\<close>

section \<open>Registration\<close>

text \<open>
  How a registration run that returns no error leaves things. If the registry answered the
  registration with an ID, the subject is in the registry the Schema refers to and the status
  records the ID; otherwise the status says Ready false and a further run is asked for after a
  minute. \<open>X\<close> are the subjects, \<open>es\<close> the calls of the run, \<open>s'\<close> the Schema stored.
\<close>

definition accepted_post :: "event \<Rightarrow> bool" where
  "accepted_post e \<longleftrightarrow> (\<exists>i. shows_registration i e)"

definition reached :: "string set \<Rightarrow> event list \<Rightarrow> Schema \<Rightarrow> Result \<Rightarrow> Schema \<Rightarrow> bool" where
  "reached X es s x s' \<longleftrightarrow>
     (if list_ex accepted_post es then
        x = no_requeue \<and> registered s' \<and>
        (\<exists>i. status_schemaID (sch_status s') = Some i \<and> list_ex (shows_registration i) es) \<and>
        (\<exists>sr. GotRegistry (registry_key s) (Inr sr) \<in> set es \<and> subject_at sr s \<in> X)
      else x = requeue_minute \<and> ready_status s' = Some ConditionFalse)"

lemma accepted_post_simps [simp]:
  "\<not> accepted_post (GotSchema k r)" "\<not> accepted_post (UpdatedSchema s u)"
  by (simp_all add: accepted_post_def shows_registration_def)

lemma no_http_no_post: "\<not> list_ex is_http es \<Longrightarrow> \<not> list_ex accepted_post es"
  by (auto simp: list_ex_iff accepted_post_def shows_registration_def is_http_def split: event.splits)

lemma reached_extend: "reached X es s x s' \<Longrightarrow> \<not> list_ex accepted_post xs \<Longrightarrow> reached X (xs @ es) s x s'"
  by (auto simp: reached_def split: if_splits)

lemma register_contract_post:
  assumes "register_contract c subject q r es"
  shows "case r of Inl e \<Rightarrow> \<not> list_ex accepted_post es | Inr resp \<Rightarrow> list_ex (shows_registration (res_id resp)) es"
  using assms
  by (auto simp: register_contract_def accepted_post_def shows_registration_def split: option.splits)

lemma registration_stores:
  assumes "api_laws E view" "registry_laws E subjects" "condition_laws E" "view (ext w) key = Some s"
    and "reconcile_registration E key s w = (r, w')" "snd r = None" "log w' = log w @ es"
  shows "\<exists>s'. view (ext w') = (view (ext w))(key \<mapsto> s') \<and> same_but_status s' s \<and>
    reached (subjects (ext w')) es s (fst r) s'"
proof -
  obtain b w1 where b: "buildClient E s w = (b, w1)" by (cases "buildClient E s w")
  then obtain es1 where l1: "log w1 = log w @ es1" and bc: "build_contract s b es1"
    by (rule build_op.eventsE)
  have v1: "view (ext w1) = view (ext w)" by (rule store_steps(1) [OF assms(1) b])
  note q1 = no_http_no_post [OF resolve_not_http [OF build_contract_resolve [OF bc]]]
  show ?thesis
  proof (cases b)
    case (Inl e)
    then have r: "fst r = requeue_minute" "setConditionFailed E s ''ClientBuildFailed'' (error_text e) w1 = (None, w')"
      using assms(5,6) b by (auto simp: reconcile_registration_def split: prod.splits)
    obtain es2 where l2: "log w' = log w1 @ es2" "\<not> list_ex is_http es2"
      using setConditionFailed_emits [OF assms(3) r(2)] by blast
    have "\<not> list_ex accepted_post es"
      using assms(7) l1 l2(1) q1 no_http_no_post [OF l2(2)] by auto
    then show ?thesis
      using failure_stored [where key = key and s = s, OF assms(1,3) _ r(2)] assms(4) r(1) v1
      by (auto simp: reached_def)
  next
    case (Inr c)
    let ?subj = "spec_subject (sch_spec s)"
    obtain g w2 where g: "RegisterSchema E c ?subj (register_request s) w1 = (g, w2)"
      by (cases "RegisterSchema E c ?subj (register_request s) w1")
    then obtain es2 where l2: "log w2 = log w1 @ es2"
      and rc: "register_contract c ?subj (register_request s) g es2"
      by (rule register_op.eventsE)
    note post = register_contract_post [OF rc]
    have v2: "view (ext w2) = view (ext w)" using store_steps(2) [OF assms(1) g] v1 by simp
    show ?thesis
    proof (cases g)
      case Inl2: (Inl e)
      then have r: "fst r = requeue_minute"
          "setConditionFailed E s ''RegistrationFailed'' (error_text e) w2 = (None, w')"
        using assms(5,6) b Inr g by (auto simp: reconcile_registration_def split: prod.splits)
      obtain es3 where l3: "log w' = log w2 @ es3" "\<not> list_ex is_http es3"
        using setConditionFailed_emits [OF assms(3) r(2)] by blast
      have "\<not> list_ex accepted_post es"
        using assms(7) l1 l2 l3(1) q1 post Inl2 no_http_no_post [OF l3(2)] by auto
      then show ?thesis
        using failure_stored [where key = key and s = s, OF assms(1,3) _ r(2)] assms(4) r(1) v2
        by (auto simp: reached_def)
    next
      case Inr2: (Inr resp)
      let ?w3 = "set_compatibility_if_given E c s w2"
      have u: "update_registered E key resp ?w3 = (r, w')"
        using assms(5) b Inr g Inr2 by (simp add: reconcile_registration_def)
      have v3: "view (ext ?w3) = view (ext w)" using store_steps(4) [OF assms(1)] v2 by simp
      obtain s' where s': "view (ext w') = (view (ext w))(key \<mapsto> s')" "same_but_status s' s" "registered s'"
          "status_schemaID (sch_status s') = Some (res_id resp)" "fst r = no_requeue"
        using success_stored [where s = s, OF assms(1,3) _ u assms(6)] assms(4) v3 by auto
      obtain sr where sr: "GotRegistry (registry_key s) (Inr sr) \<in> set es1" "client_of sr c"
        using build_contract_client bc Inr by blast
      have "subject_at sr s \<in> subjects (ext w')"
        using registry_effects(1) [OF assms(2) g [unfolded Inr2]] client_subject [OF sr(2), of s]
          subjects_steps(1) [OF assms(2), of c s w2] subjects_steps(2) [OF assms(2) u] by simp
      moreover have "set es1 \<union> set es2 \<subseteq> set es"
      proof -
        obtain es3 where "log ?w3 = log w2 @ es3" using compat_quiet by blast
        moreover obtain es4 where "log w' = log ?w3 @ es4" using update_registered_framed [OF u] by blast
        ultimately show ?thesis using assms(7) l1 l2 by auto
      qed
      moreover have "list_ex (shows_registration (res_id resp)) es2" using post Inr2 by simp
      ultimately have "list_ex (shows_registration (res_id resp)) es" "GotRegistry (registry_key s) (Inr sr) \<in> set es"
          "subject_at sr s \<in> subjects (ext w')"
        using sr(1) by (auto simp: list_ex_iff)
      moreover from this(1) have "list_ex accepted_post es" by (auto simp: list_ex_iff accepted_post_def)
      ultimately have "reached (subjects (ext w')) es s (fst r) s'"
        using s'(3-5) unfolding reached_def by auto
      then show ?thesis using s'(1,2) by blast
    qed
  qed
qed

lemma read_stored:
  assumes "api_laws E view" "view (ext w) key = Some s" "k8s_get_schema E key w = (out, w1)"
  shows "view (ext w1) = view (ext w)"
    and "out = Inr s \<or> (\<exists>e. out = Inl e \<and> env_ignore_not_found E e \<noteq> None)"
  using api_calls(1) [OF assms(1,3)] assms(2) by (cases out; auto)+

lemma same_status_meta:
  "same_but_status s' s \<Longrightarrow> sch_meta s' = sch_meta s \<and> sch_spec s' = sch_spec s"
  unfolding same_but_status_def by (metis Schema.select_convs(1,2) Schema.surjective Schema.update_convs(3))

lemma add_finalizer_frame:
  "object_key (sch_meta (add_finalizer_to E s)) = object_key (sch_meta s)"
  "registry_key (add_finalizer_to E s) = registry_key s"
  "subject_at sr (add_finalizer_to E s) = subject_at sr s"
  "same_but_finalizers (add_finalizer_to E s) s"
  "sch_spec (add_finalizer_to E s) = sch_spec s"
  by (simp_all add: add_finalizer_to_def object_key_def registry_key_def subject_at_def Let_def
      same_but_finalizers_def)

lemma same_but_finalizers_refl: "same_but_finalizers s s"
  by (simp add: same_but_finalizers_def)

lemma status_then_finalizers:
  "same_but_status s' t \<Longrightarrow> same_but_finalizers t s \<Longrightarrow> same_but_finalizers (s'\<lparr>sch_status := sch_status s\<rparr>) s"
  by (cases s; cases s'; cases t) (auto simp: same_but_finalizers_def same_but_status_def)

lemma live_run_stores:
  assumes "finalizer_laws E" "condition_laws E" "api_laws E view" "registry_laws E subjects"
    and "view (ext w) key = Some s" "\<not> is_deleted E s"
    and "schema_reconcile E key w = (r, w')" "snd r = None" "log w' = log w @ es"
  shows "\<exists>s'. view (ext w') = (view (ext w))(key \<mapsto> s') \<and> sch_spec s' = sch_spec s \<and>
    same_but_finalizers (s'\<lparr>sch_status := sch_status s\<rparr>) s \<and>
    set (meta_finalizers (sch_meta s')) = insert schemaFinalizer (set (meta_finalizers (sch_meta s))) \<and>
    reached (subjects (ext w')) es s (fst r) s'"
proof -
  have fin: "env_contains_finalizer E fs f \<longleftrightarrow> f \<in> set fs" for fs f
    by (rule finalizer_lawsD(1) [OF assms(1)])
  obtain out w1 where g: "k8s_get_schema E key w = (out, w1)" by (cases "k8s_get_schema E key w")
  note read = read_stored [OF assms(3,5) g]
  have out: "out = Inr s"
    using read(2) assms(7,8) g by (auto simp: schema_reconcile_def)
  have l1: "log w1 = log w @ [GotSchema key out]" by (rule op_log(1) [OF g])
  show ?thesis
  proof (cases "has_finalizer s")
    case True
    then have reg: "reconcile_registration E key s w1 = (r, w')"
      using assms(6,7) g out by (simp add: schema_reconcile_def fin)
    then obtain es' where l: "log w' = log w1 @ es'" using reconcile_registration_framed by blast
    have "es = [GotSchema key out] @ es'" using l l1 assms(9) by simp
    moreover obtain s' where s': "view (ext w') = (view (ext w))(key \<mapsto> s')" "same_but_status s' s"
        "reached (subjects (ext w')) es' s (fst r) s'"
      using registration_stores [OF assms(3,4,2) _ reg assms(8) l] assms(5) read(1) by auto
    moreover have "insert schemaFinalizer (set (meta_finalizers (sch_meta s))) = set (meta_finalizers (sch_meta s))"
      using True by (rule insert_absorb)
    moreover have "reached (subjects (ext w')) ([GotSchema key out] @ es') s (fst r) s'"
      using s'(3) by (rule reached_extend) simp
    moreover have "same_but_finalizers (s'\<lparr>sch_status := sch_status s\<rparr>) s"
      using status_then_finalizers [OF s'(2) same_but_finalizers_refl] by simp
    ultimately show ?thesis using same_status_meta [OF s'(2)] by auto
  next
    case False
    let ?s1 = "add_finalizer_to E s"
    have add: "reconcile_adding_finalizer E key s w1 = (r, w')"
      using assms(6,7) g out False by (simp add: schema_reconcile_def fin)
    obtain u w2 where u: "k8s_update_schema E ?s1 w1 = (u, w2)" by (cases "k8s_update_schema E ?s1 w1")
    have none: "u = None" using add u assms(8) by (cases u) (auto simp: reconcile_adding_finalizer_def)
    have key: "object_key (sch_meta ?s1) = key"
      using api_key [OF assms(3,5)] by (simp add: add_finalizer_frame)
    have fins: "set (meta_finalizers (sch_meta ?s1)) = insert schemaFinalizer (set (meta_finalizers (sch_meta s)))"
      using finalizer_lawsD(2) [OF assms(1)] by (simp add: add_finalizer_to_def)
    then have "settle ?s1 = Some ?s1" by (auto simp: settle_def)
    then have v2: "view (ext w2) = (view (ext w))(key \<mapsto> ?s1)"
      using api_calls(2) [OF assms(3) u [unfolded none] _ add_finalizer_frame(4)] key read(1) assms(5)
      by simp
    obtain out2 w3 where g2: "k8s_get_schema E key w2 = (out2, w3)" by (cases "k8s_get_schema E key w2")
    have v2s: "view (ext w2) key = Some ?s1" by (simp add: v2)
    note read2 = read_stored [OF assms(3) v2s g2]
    have out2: "out2 = Inr ?s1"
      using read2(2) add u none g2 assms(8) by (auto simp: reconcile_adding_finalizer_def)
    have reg: "reconcile_registration E key ?s1 w3 = (r, w')"
      using add u none g2 out2 by (simp add: reconcile_adding_finalizer_def)
    then obtain es' where l: "log w' = log w3 @ es'" using reconcile_registration_framed by blast
    have "es = [GotSchema key out, UpdatedSchema ?s1 u, GotSchema key out2] @ es'"
      using l l1 op_log(6) [OF u] op_log(1) [OF g2] assms(9) by simp
    moreover obtain s' where s': "view (ext w') = (view (ext w3))(key \<mapsto> s')" "same_but_status s' ?s1"
        "reached (subjects (ext w')) es' ?s1 (fst r) s'"
      using registration_stores [OF assms(3,4,2) _ reg assms(8) l] v2s read2(1) by auto
    moreover have "reached (subjects (ext w')) ([GotSchema key out, UpdatedSchema ?s1 u, GotSchema key out2] @ es')
        s (fst r) s'"
      using s'(3) by (intro reached_extend) (auto simp: reached_def add_finalizer_frame split: if_splits)
    moreover have "view (ext w') = (view (ext w))(key \<mapsto> s')"
      using s'(1) unfolding read2(1) v2 by simp
    moreover have "same_but_finalizers (s'\<lparr>sch_status := sch_status s\<rparr>) s"
      using status_then_finalizers [OF s'(2) add_finalizer_frame(4)] .
    ultimately show ?thesis
      using same_status_meta [OF s'(2)] fins add_finalizer_frame(5) by (intro exI [of _ s'] conjI) simp_all
  qed
qed

text \<open>
  C1. Convergence. A run without an error for a stored Schema that is not being deleted makes one
  change to the stored Schemas: this Schema keeps its specification and carries the operator's
  finalizer besides those it had. If the registry answered the registration with an ID, the status
  records it for this generation (Ready true, the ID, the version, the time), the subject is in
  the registry the Schema refers to, and no further run is asked for; otherwise the status says
  Ready false and the run asks for another one after a minute. This holds when the API server and
  the registry behave as \<open>api_laws\<close> and \<open>registry_laws\<close> say.
\<close>

theorem live_schema_converges:
  assumes "finalizer_laws E" "condition_laws E" "api_laws E view" "registry_laws E subjects"
    and "view (ext w) key = Some s" "\<not> is_deleted E s"
    and "schema_reconcile E key w = (r, w')" "snd r = None" "log w' = log w @ es"
  shows "\<exists>s'. view (ext w') = (view (ext w))(key \<mapsto> s') \<and> sch_spec s' = sch_spec s \<and>
    set (meta_finalizers (sch_meta s')) = insert schemaFinalizer (set (meta_finalizers (sch_meta s))) \<and>
    reached (subjects (ext w')) es s (fst r) s'"
  using live_run_stores [OF assms] by blast

lemma register_world_stored: "ref_view (ext register_world) sample_key = Some sample_schema"
  by code_simp

theorem live_schema_converges_witness:
  "\<exists>s' sr. ref_view (ext (snd register_run)) sample_key = Some s' \<and> registered s' \<and> has_finalizer s' \<and>
    GotRegistry (registry_key sample_schema) (Inr sr) \<in> set (log (snd register_run)) \<and>
    subject_at sr sample_schema \<in> ref_subject_set (ext (snd register_run))"
proof -
  obtain s' where s': "ref_view (ext (snd register_run)) = (ref_view (ext register_world))(sample_key \<mapsto> s')"
      "set (meta_finalizers (sch_meta s')) = insert schemaFinalizer (set (meta_finalizers (sch_meta sample_schema)))"
      "reached (ref_subject_set (ext (snd register_run))) (log (snd register_run)) sample_schema
        (fst (fst register_run)) s'"
    using live_schema_converges [OF ref_finalizer_laws ref_condition_laws ref_api_laws ref_registry_laws
        register_world_stored sample_deleted(2) register_run_eq(1) _ register_run_eq(2)] register_run_result
    by auto
  moreover have "fst (fst register_run) \<noteq> requeue_minute"
    by (simp add: register_run_result no_requeue_def requeue_minute_def time_Minute_def time_Second_def)
  ultimately show ?thesis by (auto simp: reached_def split: if_splits)
qed

section \<open>Deletion\<close>

definition without_finalizer :: "'w env \<Rightarrow> Schema \<Rightarrow> Schema" where
  "without_finalizer E s = s\<lparr>sch_meta := (sch_meta s)\<lparr>meta_finalizers :=
     env_remove_finalizer E (meta_finalizers (sch_meta s)) schemaFinalizer\<rparr>\<rparr>"

lemma without_finalizer_frame:
  "object_key (sch_meta (without_finalizer E s)) = object_key (sch_meta s)"
  "same_but_finalizers (without_finalizer E s) s"
  by (simp_all add: without_finalizer_def object_key_def same_but_finalizers_def)

lemma without_finalizer_settles:
  assumes "finalizer_laws E" "env_time_is_zero E None" "is_deleted E s" "has_finalizer s"
  shows "settle (without_finalizer E s) =
    (if set (meta_finalizers (sch_meta s)) = {schemaFinalizer} then None else Some (without_finalizer E s))"
proof -
  have "set (meta_finalizers (sch_meta (without_finalizer E s))) =
      set (meta_finalizers (sch_meta s)) - {schemaFinalizer}"
    using finalizer_lawsD(3) [OF assms(1)] by (simp add: without_finalizer_def)
  then have "meta_finalizers (sch_meta (without_finalizer E s)) = [] \<longleftrightarrow>
      set (meta_finalizers (sch_meta s)) = {schemaFinalizer}"
    using assms(4) by (auto simp flip: set_empty)
  moreover have "meta_deletionTimestamp (sch_meta (without_finalizer E s)) \<noteq> None"
    using assms(2,3) by (cases "meta_deletionTimestamp (sch_meta s)") (auto simp: without_finalizer_def)
  ultimately show ?thesis by (simp add: settle_def)
qed

lemma cleanup_effect:
  assumes "api_laws E view" "registry_laws E subjects" "deleteFromRegistry E s w = (None, w')"
  shows "view (ext w') = view (ext w) \<and> (\<exists>es. log w' = log w @ es \<and> (list_ex is_http es \<longrightarrow>
    (\<exists>sr. GotRegistry (registry_key s) (Inr sr) \<in> set es \<and> subject_at sr s \<notin> subjects (ext w'))))"
proof -
  obtain b w1 where b: "buildClient E s w = (b, w1)" by (cases "buildClient E s w")
  then obtain es1 where l1: "log w1 = log w @ es1" and bc: "build_contract s b es1"
    by (rule build_op.eventsE)
  note v1 = store_steps(1) [OF assms(1) b]
  show ?thesis
  proof (cases b)
    case (Inl e)
    then have "w' = w1" using assms(3) b by (simp add: deleteFromRegistry_def)
    then show ?thesis using v1 l1 resolve_not_http [OF build_contract_resolve [OF bc]] by auto
  next
    case (Inr c)
    then have del: "DeleteSubject E c (spec_subject (sch_spec s)) w1 = (None, w')"
      using assms(3) b by (simp add: deleteFromRegistry_def)
    then obtain es2 where "log w' = log w1 @ es2" by (rule delete_op.eventsE)
    moreover obtain sr where "GotRegistry (registry_key s) (Inr sr) \<in> set es1" "client_of sr c"
      using build_contract_client bc Inr by blast
    ultimately show ?thesis
      using registry_effects(2) [OF assms(2) del] client_subject [of sr c s]
        store_steps(3) [OF assms(1) del] v1 l1 by auto
  qed
qed

lemma deletion_stores:
  assumes "finalizer_laws E" "api_laws E view" "registry_laws E subjects" "view (ext w) key = Some s"
    and "has_finalizer s" "reconcile_deletion E s w = (r, w')" "snd r = None"
  shows "view (ext w') = (view (ext w))(key := settle (without_finalizer E s)) \<and>
    (\<exists>es. log w' = log w @ es \<and> (list_ex is_http es \<longrightarrow>
      (\<exists>sr. GotRegistry (registry_key s) (Inr sr) \<in> set es \<and> subject_at sr s \<notin> subjects (ext w'))))"
proof -
  have key: "object_key (sch_meta (without_finalizer E s)) = key"
    using api_key [OF assms(2,4)] by (simp add: without_finalizer_frame)
  have c: "env_contains_finalizer E (meta_finalizers (sch_meta s)) schemaFinalizer"
    using assms(5) finalizer_lawsD(1) [OF assms(1)] by simp
  obtain d w1 where d: "deleteFromRegistry E s w = (d, w1)" by (cases "deleteFromRegistry E s w")
  have none: "d = None" using assms(6,7) c d by (cases d) (auto simp: reconcile_deletion_def)
  then have u: "k8s_update_schema E (without_finalizer E s) w1 = (None, w')"
    using assms(6,7) c d
    by (auto simp: reconcile_deletion_def without_finalizer_def split: prod.splits option.splits)
  note cleaned = cleanup_effect [OF assms(2,3) d [unfolded none]]
  have "view (ext w') = (view (ext w))(key := settle (without_finalizer E s))"
    using api_calls(2) [OF assms(2) u _ without_finalizer_frame(2)] key assms(4) cleaned by simp
  then show ?thesis
    using cleaned registry_calls(5) [OF assms(3) u] op_log(6) [OF u] by (auto simp: is_http_def)
qed

text \<open>
  C2. Deletion. A run without an error for a stored Schema that is being deleted and carries the
  operator's finalizer makes one change to the stored Schemas: the Schema is gone if this was its
  last finalizer, and otherwise keeps everything but this finalizer. If the run sent a request,
  the subject is no longer in the registry the Schema refers to.
\<close>

theorem deleted_schema_released:
  assumes "finalizer_laws E" "api_laws E view" "registry_laws E subjects"
    and "view (ext w) key = Some s" "is_deleted E s" "has_finalizer s"
    and "schema_reconcile E key w = (r, w')" "snd r = None" "log w' = log w @ es"
  shows "(\<exists>s'. same_but_finalizers s' s \<and>
      set (meta_finalizers (sch_meta s')) = set (meta_finalizers (sch_meta s)) - {schemaFinalizer} \<and>
      view (ext w') = (view (ext w))(key :=
        (if set (meta_finalizers (sch_meta s)) = {schemaFinalizer} then None else Some s'))) \<and>
    (list_ex is_http es \<longrightarrow>
      (\<exists>sr. GotRegistry (registry_key s) (Inr sr) \<in> set es \<and> subject_at sr s \<notin> subjects (ext w')))"
proof -
  obtain out w1 where g: "k8s_get_schema E key w = (out, w1)" by (cases "k8s_get_schema E key w")
  note read = read_stored [OF assms(2,4) g]
  have out: "out = Inr s"
    using read(2) assms(7,8) g by (auto simp: schema_reconcile_def)
  have "reconcile_deletion E s w1 = (r, w')"
    using assms(5,7) g out by (simp add: schema_reconcile_def)
  then have d: "view (ext w') = (view (ext w))(key := settle (without_finalizer E s)) \<and>
    (\<exists>es. log w' = log w1 @ es \<and> (list_ex is_http es \<longrightarrow>
      (\<exists>sr. GotRegistry (registry_key s) (Inr sr) \<in> set es \<and> subject_at sr s \<notin> subjects (ext w'))))"
    using deletion_stores [OF assms(1-3) _ assms(6) _ assms(8), of w1 key w'] read(1) assms(4) by simp
  moreover have "settle (without_finalizer E s) =
      (if set (meta_finalizers (sch_meta s)) = {schemaFinalizer} then None else Some (without_finalizer E s))"
    by (rule without_finalizer_settles [OF assms(1) api_calls(9) [OF assms(2)] assms(5,6)])
  moreover have "set (meta_finalizers (sch_meta (without_finalizer E s))) =
      set (meta_finalizers (sch_meta s)) - {schemaFinalizer}"
    using finalizer_lawsD(3) [OF assms(1)] by (simp add: without_finalizer_def)
  ultimately show ?thesis
    using without_finalizer_frame(2) [of E s] op_log(1) [OF g] assms(9)
    by (intro conjI exI [of _ "without_finalizer E s"]) (auto simp: is_http_def)
qed

lemma delete_world_stored: "ref_view (ext delete_world) sample_key = Some deleted_schema"
  by code_simp

theorem deleted_schema_released_witness:
  "ref_view (ext (snd delete_run)) sample_key = None \<and>
    (\<exists>sr. GotRegistry (registry_key deleted_schema) (Inr sr) \<in> set (log (snd delete_run)) \<and>
      subject_at sr deleted_schema \<notin> ref_subject_set (ext (snd delete_run)))"
proof -
  have "is_http (log (snd delete_run) ! 2)"
    using delete_run_request by (auto simp: is_http_def split: event.splits)
  then have http: "list_ex is_http (log (snd delete_run))"
    using delete_run_length by (auto simp: list_ex_length intro!: exI [of _ 2])
  have fins: "set (meta_finalizers (sch_meta deleted_schema)) = {schemaFinalizer}"
    by (simp add: deleted_schema_def)
  have ok: "snd (fst delete_run) = None" by (simp add: delete_run_result)
  note t = deleted_schema_released [OF ref_finalizer_laws ref_api_laws ref_registry_laws
      delete_world_stored sample_deleted(1,3) delete_run_eq(1) ok delete_run_eq(2), unfolded fins]
  obtain s' where "ref_view (ext (snd delete_run)) = (ref_view (ext delete_world))(sample_key :=
      (if {schemaFinalizer} = {schemaFinalizer} then None else Some s'))"
    using conjunct1 [OF t] by blast
  moreover note conjunct2 [OF t, rule_format, OF http]
  ultimately show ?thesis by simp
qed

section \<open>When the work queue falls silent\<close>

text \<open>
  controller-runtime calls \<open>Reconcile\<close> for a key until a run neither returns an error nor asks for
  another one. Between two runs anybody may change anything. The events are those of the last run.
\<close>

inductive until_quiet :: "'w env \<Rightarrow> ObjectKey \<Rightarrow> 'w world \<Rightarrow> event list \<Rightarrow> 'w world \<Rightarrow> bool" for E key where
  last_run: "schema_reconcile E key w = (r, w') \<Longrightarrow> \<not> asks_again r \<Longrightarrow> log w' = log w @ es \<Longrightarrow>
    until_quiet E key w es w'"
| next_run: "schema_reconcile E key w = (r, w1) \<Longrightarrow> asks_again r \<Longrightarrow> log w2 = log w1 \<Longrightarrow>
    until_quiet E key w2 es w' \<Longrightarrow> until_quiet E key w es w'"

text \<open>
  A stored Schema is at rest when it is being deleted without the operator's finalizer, or carries
  the finalizer and records a registration, with its subject in the registry that the last run read.
\<close>

definition at_rest :: "'w env \<Rightarrow> string set \<Rightarrow> event list \<Rightarrow> Schema \<Rightarrow> bool" where
  "at_rest E X es s \<longleftrightarrow>
     (if is_deleted E s then \<not> has_finalizer s
      else has_finalizer s \<and> registered s \<and>
        (\<exists>sr. GotRegistry (registry_key s) (Inr sr) \<in> set es \<and> subject_at sr s \<in> X))"

lemma registry_key_kept:
  assumes "same_but_finalizers (s'\<lparr>sch_status := sch_status s\<rparr>) s"
  shows "meta_deletionTimestamp (sch_meta s') = meta_deletionTimestamp (sch_meta s)"
    and "registry_key s' = registry_key s" "subject_at sr s' = subject_at sr s"
proof -
  have eq: "s'\<lparr>sch_status := sch_status s\<rparr> =
      s\<lparr>sch_meta := (sch_meta s)\<lparr>meta_finalizers := meta_finalizers (sch_meta s')\<rparr>\<rparr>"
    using assms by (simp add: same_but_finalizers_def)
  have m: "sch_meta s' = (sch_meta s)\<lparr>meta_finalizers := meta_finalizers (sch_meta s')\<rparr>"
    using arg_cong [OF eq, of sch_meta] by simp
  have p: "sch_spec s' = sch_spec s"
    using arg_cong [OF eq, of sch_spec] by simp
  show "meta_deletionTimestamp (sch_meta s') = meta_deletionTimestamp (sch_meta s)"
    by (subst m) simp
  have n: "meta_namespace (sch_meta s') = meta_namespace (sch_meta s)"
    by (subst m) simp
  show "registry_key s' = registry_key s" "subject_at sr s' = subject_at sr s"
    by (simp_all add: registry_key_def subject_at_def p n Let_def)
qed

lemma last_run_rests:
  assumes "finalizer_laws E" "condition_laws E" "api_laws E view" "registry_laws E subjects"
    and "schema_reconcile E key w = (r, w')" "\<not> asks_again r" "log w' = log w @ es"
    and "view (ext w') key = Some s'"
  shows "at_rest E (subjects (ext w')) es s'"
proof -
  have ok: "snd r = None" using assms(6) by (cases r; cases "snd r") auto
  obtain out w1 where g: "k8s_get_schema E key w = (out, w1)" by (cases "k8s_get_schema E key w")
  show ?thesis
  proof (cases "view (ext w) key")
    case None
    then obtain e where "out = Inl e" using api_calls(1) [OF assms(3) g] by (cases out) auto
    then have "w' = w1" using assms(5) g by (simp add: schema_reconcile_def)
    then show ?thesis using None assms(8) api_calls(1) [OF assms(3) g] by simp
  next
    case (Some s)
    note read = read_stored [OF assms(3) Some g]
    have out: "out = Inr s" using read(2) assms(5) ok g by (auto simp: schema_reconcile_def)
    show ?thesis
    proof (cases "is_deleted E s")
      case False
      obtain s'' where s'': "view (ext w') = (view (ext w))(key \<mapsto> s'')"
          "same_but_finalizers (s''\<lparr>sch_status := sch_status s\<rparr>) s"
          "set (meta_finalizers (sch_meta s'')) = insert schemaFinalizer (set (meta_finalizers (sch_meta s)))"
          "reached (subjects (ext w')) es s (fst r) s''"
        using live_run_stores [OF assms(1-4) Some False assms(5) ok assms(7)] by blast
      have eq: "s'' = s'" using s''(1) assms(8) by simp
      have "fst r \<noteq> requeue_minute" using assms(6) by (cases r) auto
      then show ?thesis
        using s''(3,4) registry_key_kept [OF s''(2)] False unfolding eq
        by (auto simp: reached_def at_rest_def split: if_splits)
    next
      case True
      then have del: "reconcile_deletion E s w1 = (r, w')" using assms(5) g out by (simp add: schema_reconcile_def)
      show ?thesis
      proof (cases "has_finalizer s")
        case False
        then have "w' = w1" using del finalizer_lawsD(1) [OF assms(1)] by (simp add: reconcile_deletion_def)
        then show ?thesis using Some assms(8) read(1) True False by (simp add: at_rest_def)
      next
        case fin: True
        have "view (ext w') = (view (ext w1))(key := settle (without_finalizer E s))"
          using deletion_stores [OF assms(1,3,4) _ fin del ok, of key] Some read(1) by simp
        then have "s' = without_finalizer E s"
          using assms(8) by (simp add: settle_def split: if_splits)
        then show ?thesis
          using True finalizer_lawsD(3) [OF assms(1)] by (simp add: at_rest_def without_finalizer_def)
      qed
    qed
  qed
qed

lemma quiet_queue:
  assumes "finalizer_laws E" "condition_laws E" "api_laws E view" "registry_laws E subjects"
    and "until_quiet E key w es w'" "view (ext w') key = Some s"
  shows "at_rest E (subjects (ext w')) es s"
  using assms(5,6)
proof (induction rule: until_quiet.induct)
  case (last_run w r w' es)
  then show ?case using last_run_rests [OF assms(1-4)] by blast
qed blast

text \<open>
  C3. The work queue. When the runs for a Schema have come to an end (a run returned no error and
  asked for no further one), however often they were repeated and whatever others did in between,
  the Schema is gone, or it is being deleted and no longer carries the operator's finalizer, or it
  carries it, records a registration of its generation, and its subject is in the registry that the
  last run read.
\<close>

theorem quiet_queue_at_rest:
  assumes "finalizer_laws E" "condition_laws E" "api_laws E view" "registry_laws E subjects"
    and "until_quiet E key w es w'"
  shows "case view (ext w') key of None \<Rightarrow> True
    | Some s \<Rightarrow>
        if is_deleted E s then \<not> has_finalizer s
        else has_finalizer s \<and> registered s \<and>
          (\<exists>sr. GotRegistry (registry_key s) (Inr sr) \<in> set es \<and> subject_at sr s \<in> subjects (ext w'))"
  using quiet_queue [OF assms] by (auto simp: at_rest_def split: option.splits)

text \<open>The registry is down at first: the run asks again after a minute, and the next one succeeds.\<close>

definition flaky_world :: "cluster world" where
  "flaky_world = sample_world [sample_schema] [sample_registry] (answer 503 [] # cl_answers (ext register_world))"

definition flaky_run :: "(Result \<times> go_error option) \<times> cluster world" where
  "flaky_run = schema_reconcile ref_env sample_key flaky_world"

definition flaky_run2 :: "(Result \<times> go_error option) \<times> cluster world" where
  "flaky_run2 = schema_reconcile ref_env sample_key (snd flaky_run)"

theorem quiet_queue_at_rest_witness:
  "asks_again (fst flaky_run) \<and>
   (case ref_view (ext (snd flaky_run2)) sample_key of None \<Rightarrow> False | Some s \<Rightarrow> has_finalizer s \<and> registered s)"
proof -
  have a1: "fst flaky_run = (requeue_minute, None)" by code_simp
  have a2: "fst flaky_run2 = (no_requeue, None)" by code_simp
  have e1: "schema_reconcile ref_env sample_key flaky_world = (fst flaky_run, snd flaky_run)"
    and e2: "schema_reconcile ref_env sample_key (snd flaky_run) = (fst flaky_run2, snd flaky_run2)"
    by (simp_all add: flaky_run_def flaky_run2_def)
  obtain es where "log (snd flaky_run2) = log (snd flaky_run) @ es"
    using run_frame.eventsE [OF e2] by blast
  then have "until_quiet ref_env sample_key (snd flaky_run) es (snd flaky_run2)"
    using last_run [OF e2] a2 by simp
  then have "until_quiet ref_env sample_key flaky_world es (snd flaky_run2)"
    using next_run [OF e1 _ refl] a1 by simp
  note t = quiet_queue_at_rest [OF ref_finalizer_laws ref_condition_laws ref_api_laws ref_registry_laws this]
  have "case ref_view (ext (snd flaky_run2)) sample_key of None \<Rightarrow> False
      | Some s \<Rightarrow> meta_deletionTimestamp (sch_meta s) = None" by code_simp
  then obtain s where s: "ref_view (ext (snd flaky_run2)) sample_key = Some s"
      "meta_deletionTimestamp (sch_meta s) = None"
    by (auto split: option.splits)
  have "\<not> is_deleted ref_env s" using s(2) by (simp add: ref_env_def)
  then show ?thesis using t s(1) a1 by simp
qed

end
