(* ===== verification/Wiring.thy ===== *)
theory Wiring
  imports Watches SchemaWebhook RegistryWebhook
begin

text \<open>
  What the \<open>SetupWithManager\<close> functions hand to controller-runtime, as values: for each controller
  the kind it reconciles, the watches with their mapping functions, its name and its \<open>Reconcile\<close>;
  for each webhook the kind and the validator. \<open>enqueue\<close> is what controller-runtime documents a
  controller to do when an object changes: a request for the object itself if it is of the
  controller's kind, and the requests of every mapping function registered for its kind.
\<close>

section \<open>The code\<close>

datatype object_kind = SchemaKind | SchemaRegistryKind | SecretKind

record 'w controller =
  ctl_for :: object_kind
  ctl_watches :: "(object_kind \<times> (ObjectMeta \<Rightarrow> 'w world \<Rightarrow> ObjectKey list \<times> 'w world)) list"
  ctl_named :: string
  ctl_reconcile :: "ObjectKey \<Rightarrow> 'w world \<Rightarrow> (Result \<times> go_error option) \<times> 'w world"

definition schema_SetupWithManager :: "'w env \<Rightarrow> 'w controller" where
  "schema_SetupWithManager E =
     \<lparr>ctl_for = SchemaKind,
      ctl_watches = [(SchemaRegistryKind, findSchemasForRegistry E)],
      ctl_named = ''schema'', ctl_reconcile = schema_reconcile E\<rparr>"

definition registry_SetupWithManager :: "'w env \<Rightarrow> 'w controller" where
  "registry_SetupWithManager E =
     \<lparr>ctl_for = SchemaRegistryKind,
      ctl_watches = [(SecretKind, findSchemaRegistriesForSecret E)],
      ctl_named = ''schemaregistry'', ctl_reconcile = registry_reconcile E\<rparr>"

record 'o webhook =
  wh_for :: object_kind
  wh_create :: "'o \<Rightarrow> admission_error option"
  wh_update :: "'o \<Rightarrow> 'o \<Rightarrow> admission_error option"
  wh_delete :: "'o \<Rightarrow> admission_error option"

definition SetupSchemaWebhookWithManager :: "Schema webhook" where
  "SetupSchemaWebhookWithManager =
     \<lparr>wh_for = SchemaKind, wh_create = schema_ValidateCreate, wh_update = schema_ValidateUpdate,
      wh_delete = schema_ValidateDelete\<rparr>"

definition SetupSchemaRegistryWebhookWithManager :: "SchemaRegistry webhook" where
  "SetupSchemaRegistryWebhookWithManager =
     \<lparr>wh_for = SchemaRegistryKind, wh_create = registry_ValidateCreate, wh_update = registry_ValidateUpdate,
      wh_delete = registry_ValidateDelete\<rparr>"

section \<open>The reaction to a change\<close>

fun run_watches ::
  "(object_kind \<times> (ObjectMeta \<Rightarrow> 'w world \<Rightarrow> ObjectKey list \<times> 'w world)) list \<Rightarrow>
    object_kind \<Rightarrow> ObjectMeta \<Rightarrow> 'w world \<Rightarrow> ObjectKey list \<times> 'w world" where
  "run_watches [] kind m w = ([], w)"
| "run_watches ((k, f) # watches) kind m w =
     (if k = kind then
        (case f m w of (ks, w1) \<Rightarrow>
         (case run_watches watches kind m w1 of (ks', w2) \<Rightarrow> (ks @ ks', w2)))
      else run_watches watches kind m w)"

definition enqueue ::
  "'w controller \<Rightarrow> object_kind \<Rightarrow> ObjectMeta \<Rightarrow> 'w world \<Rightarrow> ObjectKey list \<times> 'w world" where
  "enqueue c kind m w =
     (case run_watches (ctl_watches c) kind m w of (ks, w1) \<Rightarrow>
        ((if kind = ctl_for c then [object_key m] else []) @ ks, w1))"

lemma enqueue_schema:
  "enqueue (schema_SetupWithManager E) SchemaKind m w = ([object_key m], w)"
  "enqueue (schema_SetupWithManager E) SchemaRegistryKind m w = findSchemasForRegistry E m w"
  "enqueue (schema_SetupWithManager E) SecretKind m w = ([], w)"
  by (simp_all add: enqueue_def schema_SetupWithManager_def split: prod.splits)

lemma enqueue_registry:
  "enqueue (registry_SetupWithManager E) SchemaKind m w = ([], w)"
  "enqueue (registry_SetupWithManager E) SchemaRegistryKind m w = ([object_key m], w)"
  "enqueue (registry_SetupWithManager E) SecretKind m w = findSchemaRegistriesForSecret E m w"
  by (simp_all add: enqueue_def registry_SetupWithManager_def split: prod.splits)

lemma concat_if_map: "concat (map (\<lambda>x. if p x then [f x] else []) xs) = map f (filter p xs)"
  by (induction xs) simp_all

text \<open>The mapping functions as comprehensions over one listing.\<close>

lemma findSchemasForRegistry_comprehension:
  "fst (findSchemasForRegistry E m w) =
     (case fst (k8s_list_schemas E (meta_namespace m) w) of
        Inl err \<Rightarrow> []
      | Inr items \<Rightarrow> [object_key (sch_meta s). s \<leftarrow> items,
          rr_name (spec_registryRef (sch_spec s)) = meta_name m])"
  using schema_watch.find_failed [of E m w] schema_watch.find_listed [of E m w]
  by (cases "k8s_list_schemas E (meta_namespace m) w"; cases "fst (k8s_list_schemas E (meta_namespace m) w)")
    (simp_all add: refers_by_name_def concat_if_map comp_def)

lemma findSchemaRegistriesForSecret_comprehension:
  assumes "meta_name m \<noteq> []"
  shows "fst (findSchemaRegistriesForSecret E m w) =
     (case fst (k8s_list_registries E (meta_namespace m) w) of
        Inl err \<Rightarrow> []
      | Inr items \<Rightarrow> [object_key (sr_meta sr). sr \<leftarrow> items,
          meta_name m \<in> set (auth_secret_names sr)])"
  using secret_watch.find_failed [of E m w] secret_watch.find_listed [of E m w]
  by (cases "k8s_list_registries E (meta_namespace m) w"; cases "fst (k8s_list_registries E (meta_namespace m) w)")
    (simp_all add: references_secret_iff [OF assms] concat_if_map comp_def)

end
