(* ===== verification/AdmissionProperties.thy ===== *)
theory AdmissionProperties
  imports RefCluster Wiring
begin

text \<open>
  The properties of the two admission webhooks and of the watches that map a changed object
  to reconcile requests.
\<close>

section \<open>Sample objects\<close>

definition bad_reference_schema :: Schema where
  "bad_reference_schema =
     sample_schema\<lparr>sch_spec := (sch_spec sample_schema)\<lparr>spec_references :=
       [\<lparr>ref_name = ''a'', ref_subject = ''b'', ref_version = 1\<rparr>,
        \<lparr>ref_name = ''a'', ref_subject = ''b'', ref_version = 0\<rparr>]\<rparr>\<rparr>"

definition edited_schema :: Schema where
  "edited_schema =
     sample_schema\<lparr>sch_spec := (sch_spec sample_schema)\<lparr>spec_schema := ''[]''\<rparr>\<rparr>"

definition foreign_schema :: Schema where
  "foreign_schema =
     sample_schema\<lparr>sch_meta := sample_meta ''apps'' ''orders'',
       sch_spec := (sch_spec sample_schema)
         \<lparr>spec_registryRef := \<lparr>rr_name = ''main'', rr_namespace = ''kafka''\<rparr>\<rparr>\<rparr>"

definition watch_world :: "cluster world" where
  "watch_world = sample_world [sample_schema, foreign_schema] [basic_registry] []"

section \<open>Admission\<close>

lemma schema_admission_decided:
  "(schema_ValidateCreate obj = None \<longleftrightarrow>
     spec_subject (sch_spec obj) \<noteq> [] \<and> spec_schema (sch_spec obj) \<noteq> [] \<and>
     rr_name (spec_registryRef (sch_spec obj)) \<noteq> [] \<and>
     (spec_schemaType (sch_spec obj) \<notin> {SchemaTypeAvro, SchemaTypeJSON} \<or>
        json_valid (spec_schema (sch_spec obj))) \<and>
     list_all (\<lambda>ref. ref_name ref \<noteq> [] \<and> ref_subject ref \<noteq> [] \<and> 1 \<le> sint (ref_version ref))
       (spec_references (sch_spec obj))) \<and>
   (schema_ValidateUpdate old obj = None \<longleftrightarrow>
     spec_subject (sch_spec old) = spec_subject (sch_spec obj) \<and>
     spec_schemaType (sch_spec old) = spec_schemaType (sch_spec obj) \<and>
     schema_ValidateCreate obj = None)"
  using schema_admission.create_iff [of obj] schema_admission.update_iff [of old obj]
  by (auto simp: schema_ok_def reference_ok_def list_all_iff schema_fixed_part_def)

lemma registry_admission_decided:
  "(registry_ValidateCreate obj = None \<longleftrightarrow>
     sr_url (sr_spec obj) \<noteq> [] \<and> 0 \<le> sint (sr_timeout (sr_spec obj)) \<and>
     (case sr_auth (sr_spec obj) of None \<Rightarrow> True | Some auth \<Rightarrow> auth_ok auth)) \<and>
   registry_ValidateUpdate old obj = registry_ValidateCreate obj"
  using registry_admission.create_iff [of obj]
  by (auto simp: registry_ok_def registry_ValidateUpdate_def registry_ValidateCreate_def
      split: option.splits)

text \<open>
  C29. The webhook admits a new Schema exactly when it is well formed: subject, text and
  registry name are not empty, the text of an AVRO or JSON schema is valid JSON, and every
  reference has a name, a subject and a version of at least 1. It admits an update exactly when
  subject and schema type are kept and the new version is one that could be created. A
  SchemaRegistry is admitted, on creation and on every update, exactly when its URL is not empty,
  its timeout is not negative and the block of its authentication type names a Secret.
\<close>

theorem admission_decided:
  "(schema_ValidateCreate obj = None \<longleftrightarrow>
     spec_subject (sch_spec obj) \<noteq> [] \<and> spec_schema (sch_spec obj) \<noteq> [] \<and>
     rr_name (spec_registryRef (sch_spec obj)) \<noteq> [] \<and>
     (spec_schemaType (sch_spec obj) \<notin> {SchemaTypeAvro, SchemaTypeJSON} \<or>
        json_valid (spec_schema (sch_spec obj))) \<and>
     list_all (\<lambda>ref. ref_name ref \<noteq> [] \<and> ref_subject ref \<noteq> [] \<and> 1 \<le> sint (ref_version ref))
       (spec_references (sch_spec obj))) \<and>
   (schema_ValidateUpdate old obj = None \<longleftrightarrow>
     spec_subject (sch_spec old) = spec_subject (sch_spec obj) \<and>
     spec_schemaType (sch_spec old) = spec_schemaType (sch_spec obj) \<and>
     schema_ValidateCreate obj = None) \<and>
   (registry_ValidateCreate sr = None \<longleftrightarrow>
     sr_url (sr_spec sr) \<noteq> [] \<and> 0 \<le> sint (sr_timeout (sr_spec sr)) \<and>
     (case sr_auth (sr_spec sr) of None \<Rightarrow> True | Some auth \<Rightarrow> auth_ok auth)) \<and>
   registry_ValidateUpdate old_sr sr = registry_ValidateCreate sr"
  using schema_admission_decided [of obj old] registry_admission_decided [of sr old_sr] by simp

theorem admission_decided_witness:
  "schema_ValidateCreate sample_schema = None \<and> schema_ValidateCreate bad_reference_schema \<noteq> None"
proof -
  have j: "json_valid ''{}''" by code_simp
  then have "schema_ValidateCreate sample_schema = None"
    using admission_decided [of sample_schema undefined basic_registry undefined]
    by (simp add: sample_schema_def)
  moreover have "schema_ValidateCreate bad_reference_schema \<noteq> None"
    using admission_decided [of bad_reference_schema undefined basic_registry undefined]
    by (simp add: bad_reference_schema_def)
  ultimately show ?thesis by (rule conjI)
qed

text \<open>
  C32. Over the whole life of an admitted Schema its subject and type never change and every
  version is well formed: so the subject the finalizer deletes is the one that was registered.
\<close>

theorem subject_never_changes:
  assumes "schema_ValidateCreate x = None"
    and "successively (\<lambda>a b. schema_ValidateUpdate a b = None) (x # xs)"
    and "y \<in> set (x # xs)"
  shows "schema_ok y \<and> spec_subject (sch_spec y) = spec_subject (sch_spec x) \<and>
    spec_schemaType (sch_spec y) = spec_schemaType (sch_spec x)"
  using schema_admission.history_valid [OF assms] by (simp add: schema_fixed_part_def)

theorem subject_never_changes_witness:
  "schema_ok edited_schema \<and> spec_subject (sch_spec edited_schema) = ''orders-value''"
proof -
  have a: "schema_ValidateCreate sample_schema = None" by code_simp
  have b: "successively (\<lambda>a b. schema_ValidateUpdate a b = None) [sample_schema, edited_schema]" by code_simp
  show ?thesis
    using subject_never_changes [OF a b, of edited_schema]
    by (simp add: edited_schema_def sample_schema_def)
qed

lemma other_errors_path:
  assumes "e \<in> set (schema_spec_errors obj)" "e \<notin> set (references_errors 0 (spec_references (sch_spec obj)))"
  shows "take 3 (error_path e) \<noteq> [PName ''spec'', PName ''references'', PIndex i]"
  using assms by (auto simp: schema_spec_errors_def Let_def split: if_splits)

text \<open>There is an error under index \<open>i\<close> exactly when reference \<open>i\<close> is malformed.\<close>

lemma reference_errors_located:
  assumes "schema_ValidateCreate obj = Some (ToAggregate errs)" "i < length (spec_references (sch_spec obj))"
  shows "(\<exists>e \<in> set errs. take 3 (error_path e) = [PName ''spec'', PName ''references'', PIndex i]) \<longleftrightarrow>
    \<not> reference_ok (spec_references (sch_spec obj) ! i)"
proof
  have errs: "errs = schema_spec_errors obj"
    using assms(1) by (auto simp: schema_ValidateCreate_def validateSchemaSpec_def aggregate_def split: if_splits)
  let ?refs = "spec_references (sch_spec obj)"
  have sub: "set (references_errors 0 ?refs) \<subseteq> set errs"
    by (auto simp: errs schema_spec_errors_def Let_def)
  {
    assume "\<not> reference_ok (?refs ! i)"
    then show "\<exists>e \<in> set errs. take 3 (error_path e) = [PName ''spec'', PName ''references'', PIndex i]"
      using references_errors_nth [OF assms(2), of 0] sub by auto
  next
    assume "\<exists>e \<in> set errs. take 3 (error_path e) = [PName ''spec'', PName ''references'', PIndex i]"
    then obtain e where e: "e \<in> set errs" "take 3 (error_path e) = [PName ''spec'', PName ''references'', PIndex i]"
      by blast
    then have "e \<in> set (references_errors 0 ?refs)" using other_errors_path errs by blast
    from references_errors_sound [OF this] show "\<not> reference_ok (?refs ! i)" using e(2) by auto
  }
qed

section \<open>Watches\<close>

text \<open>
  C33. What a change reaches and what it does not. Every Secret the loader reads for a SchemaRegistry is
  watched: it lies in the namespace the mapping function lists, and its change asks for a
  reconciliation of that SchemaRegistry. But a Schema in another namespace than the SchemaRegistry it
  refers to is never found on a change of the latter: the function lists only the namespace of the
  registry, although the reference may name another one.
\<close>

theorem change_reaches:
  assumes "list_laws E"
  shows "(loadAuthConfig E sr w = (r, w') \<and> log w' = log w @ es \<and> GotSecret (object_key m) out \<in> set es \<and>
      k8s_list_registries E (meta_namespace m) v = (Inr items, v') \<and> sr \<in> set items \<longrightarrow>
      meta_namespace m = meta_namespace (sr_meta sr) \<and>
      object_key (sr_meta sr) \<in> set (fst (findSchemaRegistriesForSecret E m v))) \<and>
    (registry_key s = object_key n \<and> meta_namespace (sch_meta s) \<noteq> key_namespace (registry_key s) \<longrightarrow>
      object_key (sch_meta s) \<notin> set (fst (findSchemasForRegistry E n v)))"
  using loader_reads_watched [of E sr w r w' es _ out m v items v'] other_namespace_missed [OF assms, of s n v]
  by (auto simp: object_key_def)

theorem change_reaches_witness:
  "registry_sample_key \<in> set (fst (findSchemaRegistriesForSecret ref_env (sample_meta ''kafka'' ''creds'') watch_world)) \<and>
   registry_key foreign_schema = registry_sample_key \<and> foreign_schema \<in> set (cl_schemas (ext watch_world)) \<and>
   object_key (sch_meta foreign_schema) \<notin>
     set (fst (findSchemasForRegistry ref_env (sample_meta ''kafka'' ''main'') watch_world))"
proof -
  let ?run = "loadAuthConfig ref_env basic_registry watch_world"
  let ?m = "sample_meta ''kafka'' ''creds''"
  note t = change_reaches [OF ref_list_laws]
  have eq: "?run = (fst ?run, snd ?run)" "log (snd ?run) = log watch_world @ log (snd ?run)"
    by (simp_all add: watch_world_def sample_world_def)
  have "log (snd ?run) = [GotSecret (object_key ?m) (Inr sample_secret)]" by code_simp
  then have g: "GotSecret (object_key ?m) (Inr sample_secret) \<in> set (log (snd ?run))" by simp
  have l: "k8s_list_registries ref_env (meta_namespace ?m) watch_world =
      (Inr [basic_registry], snd (k8s_list_registries ref_env ''kafka'' watch_world))"
    by code_simp
  have "object_key (sr_meta basic_registry) = registry_sample_key" by code_simp
  then have "registry_sample_key \<in> set (fst (findSchemaRegistriesForSecret ref_env ?m watch_world))"
    using conjunct1 [OF t, rule_format, of basic_registry watch_world "fst ?run" "snd ?run"] eq g l by fastforce
  moreover have k: "registry_key foreign_schema = object_key (sample_meta ''kafka'' ''main'')"
    "meta_namespace (sch_meta foreign_schema) \<noteq> key_namespace (registry_key foreign_schema)"
    "registry_key foreign_schema = registry_sample_key" by code_simp+
  moreover have "foreign_schema \<in> set (cl_schemas (ext watch_world))"
    by (simp add: watch_world_def sample_world_def)
  ultimately show ?thesis using conjunct2 [OF t, rule_format] by blast
qed

text \<open>
  C34. The reaction of the two controllers to every change. A change of a Schema asks the first
  controller for that Schema and the second for nothing. A change of a SchemaRegistry asks the second
  for that SchemaRegistry and the first for the Schemas of its namespace that name it, in the
  order of one listing. A change of a Secret asks the first for nothing and the second for the
  SchemaRegistries of its namespace whose authentication type reads it. A failed listing asks for nothing.
\<close>

theorem reaction_to_changes:
  assumes "meta_name m \<noteq> []"
  shows "fst (enqueue (schema_SetupWithManager E) SchemaKind m w) = [object_key m] \<and>
    fst (enqueue (registry_SetupWithManager E) SchemaKind m w) = [] \<and>
    fst (enqueue (schema_SetupWithManager E) SchemaRegistryKind m w) =
      (case fst (k8s_list_schemas E (meta_namespace m) w) of
         Inl err \<Rightarrow> []
       | Inr items \<Rightarrow> [object_key (sch_meta s). s \<leftarrow> items,
           rr_name (spec_registryRef (sch_spec s)) = meta_name m]) \<and>
    fst (enqueue (registry_SetupWithManager E) SchemaRegistryKind m w) = [object_key m] \<and>
    fst (enqueue (schema_SetupWithManager E) SecretKind m w) = [] \<and>
    fst (enqueue (registry_SetupWithManager E) SecretKind m w) =
      (case fst (k8s_list_registries E (meta_namespace m) w) of
         Inl err \<Rightarrow> []
       | Inr items \<Rightarrow> [object_key (sr_meta sr). sr \<leftarrow> items,
           meta_name m \<in> set (auth_secret_names sr)])"
  using findSchemasForRegistry_comprehension [of E m w]
    findSchemaRegistriesForSecret_comprehension [OF assms, of E w]
  unfolding enqueue_schema enqueue_registry by simp

theorem reaction_to_changes_witness:
  "fst (enqueue (schema_SetupWithManager ref_env) SchemaRegistryKind (sample_meta ''kafka'' ''main'') watch_world) =
     [sample_key] \<and>
   fst (enqueue (registry_SetupWithManager ref_env) SecretKind (sample_meta ''kafka'' ''creds'') watch_world) =
     [registry_sample_key]"
proof -
  let ?m = "sample_meta ''kafka'' ''main''" and ?c = "sample_meta ''kafka'' ''creds''"
  have n: "meta_name ?m \<noteq> []" "meta_name ?c \<noteq> []" by code_simp+
  have l: "fst (k8s_list_schemas ref_env (meta_namespace ?m) watch_world) = Inr [sample_schema]"
    "fst (k8s_list_registries ref_env (meta_namespace ?c) watch_world) = Inr [basic_registry]"
    by code_simp+
  have r: "rr_name (spec_registryRef (sch_spec sample_schema)) = meta_name ?m"
    "object_key (sch_meta sample_schema) = sample_key"
    "meta_name ?c \<in> set (auth_secret_names basic_registry)"
    "object_key (sr_meta basic_registry) = registry_sample_key" by code_simp+
  have a: "fst (enqueue (schema_SetupWithManager ref_env) SchemaRegistryKind ?m watch_world) = [sample_key]"
    using reaction_to_changes [OF n(1), of ref_env watch_world] unfolding l by (simp add: r)
  have b: "fst (enqueue (registry_SetupWithManager ref_env) SecretKind ?c watch_world) = [registry_sample_key]"
    using reaction_to_changes [OF n(2), of ref_env watch_world] unfolding l by (simp add: r)
  show ?thesis using a b by (rule conjI)
qed

end
