(* ===== verification/SchemaOwnership.thy ===== *)
theory SchemaOwnership
  imports SchemaConvergence AdmissionProperties
begin

text \<open>
  Who owns a subject. A Schema names its subject and its registry freely: two Schemas may name the
  same one, and the reference to the registry may be edited. The deletion takes away the subject
  the Schema names at that time, and no other.
\<close>

section \<open>Subjects a deletion leaves alone\<close>

text \<open>Deleting \<open>v\<close> takes the subject \<open>u\<close> away when \<open>v\<close> is its URL or one below it, such as a version.\<close>

definition touches :: "string \<Rightarrow> string \<Rightarrow> bool" where
  "touches u v \<longleftrightarrow> v = u \<or> take (length u + 1) v = u @ ''/''"

definition subject_frame :: "'w env \<Rightarrow> ('w \<Rightarrow> string set) \<Rightarrow> bool" where
  "subject_frame E subjects \<longleftrightarrow>
     (\<forall>c rq x r x' u. env_http_do E c rq x = (r, x') \<longrightarrow> u \<in> subjects x \<longrightarrow>
        (req_method rq = MethodDelete \<longrightarrow> \<not> touches u (req_url rq)) \<longrightarrow> u \<in> subjects x')"

lemma ref_subject_frame: "subject_frame ref_env ref_subject_set"
  by (auto simp: subject_frame_def ref_env_def ref_subject_set_def ref_http_do_def ref_subjects_def touches_def
      split: list.splits sum.splits)

lemma delete_keeps_subject:
  assumes "subject_frame E subjects" "DeleteSubject E c subject w = (r, w')"
    and "u \<in> subjects (ext w)" "\<not> touches u (subject_url c subject)"
  shows "u \<in> subjects (ext w')"
proof (cases "new_request E MethodDelete (subject_url c subject) None")
  case (Inl e)
  then show ?thesis using assms(2,3) by (simp add: DeleteSubject_def)
next
  case (Inr req)
  obtain out w1 where h: "http_do E (c_httpClient c) (addAuth c req) w = (out, w1)"
    by (cases "http_do E (c_httpClient c) (addAuth c req) w")
  have "w' = w1"
    using assms(2) Inr h by (auto simp: DeleteSubject_def split: sum.splits if_splits)
  moreover have "req_url (addAuth c req) = subject_url c subject"
    using new_request_fields [OF Inr] by simp
  ultimately show ?thesis
    using assms(1,3,4) op_ext(6) [OF h] unfolding subject_frame_def by metis
qed

lemma subjects_of_build:
  "registry_laws E subjects \<Longrightarrow> buildClient E s w = (r, w') \<Longrightarrow> subjects (ext w') = subjects (ext w)"
  using registry_calls(8,7) by (rule buildClient_keeps)

lemma cleanup_keeps_subject:
  assumes "registry_laws E subjects" "subject_frame E subjects" "deleteFromRegistry E s w = (r, w')"
    and "log w' = log w @ es" "u \<in> subjects (ext w)"
    and "\<And>sr. GotRegistry (registry_key s) (Inr sr) \<in> set es \<Longrightarrow> \<not> touches u (subject_at sr s)"
  shows "u \<in> subjects (ext w')"
proof -
  obtain b w1 where b: "buildClient E s w = (b, w1)" by (cases "buildClient E s w")
  then obtain es1 where l1: "log w1 = log w @ es1" and bc: "build_contract s b es1"
    by (rule build_op.eventsE)
  have u: "u \<in> subjects (ext w1)" using subjects_of_build [OF assms(1) b] assms(5) by simp
  show ?thesis
  proof (cases b)
    case (Inl e)
    then show ?thesis using assms(3) b u by (simp add: deleteFromRegistry_def)
  next
    case (Inr c)
    then have del: "DeleteSubject E c (spec_subject (sch_spec s)) w1 = (r, w')"
      using assms(3) b by (simp add: deleteFromRegistry_def)
    obtain sr where sr: "GotRegistry (registry_key s) (Inr sr) \<in> set es1" "client_of sr c"
      using build_contract_client bc Inr by blast
    obtain es2 where "log w' = log w1 @ es2" using delete_op.eventsE [OF del] by blast
    then have "set es1 \<subseteq> set es" using assms(4) l1 by auto
    then have "\<not> touches u (subject_url c (spec_subject (sch_spec s)))"
      using assms(6) sr client_subject [OF sr(2)] by auto
    with assms(2) del u show ?thesis by (rule delete_keeps_subject)
  qed
qed

text \<open>A deletion run without an error is a read of the Schema and its cleanup.\<close>

lemma deletion_runE:
  assumes "api_laws E view" "view (ext w) key = Some s" "is_deleted E s"
    and "schema_reconcile E key w = (r, w')" "snd r = None"
  obtains w1 where "k8s_get_schema E key w = (Inr s, w1)" "reconcile_deletion E s w1 = (r, w')"
proof -
  obtain out w1 where g: "k8s_get_schema E key w = (out, w1)" by (cases "k8s_get_schema E key w")
  have "out = Inr s"
    using read_stored(2) [OF assms(1,2) g] assms(4,5) g by (auto simp: schema_reconcile_def)
  then show ?thesis
    using that assms(3,4) g by (simp add: schema_reconcile_def)
qed

lemma deletion_keeps_subject:
  assumes "finalizer_laws E" "registry_laws E subjects" "subject_frame E subjects"
    and "has_finalizer s" "reconcile_deletion E s w = (r, w')" "snd r = None"
    and "log w' = log w @ es" "u \<in> subjects (ext w)"
    and "\<And>sr. GotRegistry (registry_key s) (Inr sr) \<in> set es \<Longrightarrow> \<not> touches u (subject_at sr s)"
  shows "u \<in> subjects (ext w')"
proof -
  obtain d w1 where d: "deleteFromRegistry E s w = (d, w1)" by (cases "deleteFromRegistry E s w")
  have c: "env_contains_finalizer E (meta_finalizers (sch_meta s)) schemaFinalizer"
    using assms(4) finalizer_lawsD(1) [OF assms(1)] by simp
  have "d = None" using assms(5,6) c d by (cases d) (auto simp: reconcile_deletion_def)
  then have upd: "k8s_update_schema E (without_finalizer E s) w1 = (None, w')"
    using assms(5,6) c d
    by (auto simp: reconcile_deletion_def without_finalizer_def split: prod.splits option.splits)
  obtain es1 where l1: "log w1 = log w @ es1"
    using deleteFromRegistry_quiet [OF d] by blast
  have "set es1 \<subseteq> set es" using l1 op_log(6) [OF upd] assms(7) by auto
  then have "u \<in> subjects (ext w1)"
    using cleanup_keeps_subject [OF assms(2,3) d l1 assms(8)] assms(9) by blast
  then show ?thesis using registry_calls(5) [OF assms(2) upd] by simp
qed

section \<open>A subject with two Schemas\<close>

text \<open>
  C14. Two Schemas may name the same subject of the same registry. The deletion of one takes the
  subject away, and the other is left as it was: stored, with a status that records a registration,
  although its subject is gone; the change of the first asks for no run of the other.
\<close>

theorem shared_subject_lost:
  assumes "finalizer_laws E" "api_laws E view" "registry_laws E subjects"
    and "view (ext w) key = Some s" "is_deleted E s" "has_finalizer s"
    and "view (ext w) key' = Some t" "key' \<noteq> key" "registered t"
    and "registry_key t = registry_key s" "spec_subject (sch_spec t) = spec_subject (sch_spec s)"
    and "schema_reconcile E key w = (r, w')" "snd r = None" "log w' = log w @ es" "list_ex is_http es"
  shows "view (ext w') key' = Some t \<and> registered t \<and>
    (\<exists>sr. GotRegistry (registry_key t) (Inr sr) \<in> set es \<and> subject_at sr t \<notin> subjects (ext w')) \<and>
    key' \<notin> set (fst (enqueue (schema_SetupWithManager E) SchemaKind (sch_meta s) w'))"
proof -
  obtain w1 where g: "k8s_get_schema E key w = (Inr s, w1)" and d: "reconcile_deletion E s w1 = (r, w')"
    using assms(2,4,5,12,13) by (rule deletion_runE)
  have v1: "view (ext w1) = view (ext w)" using api_calls(1) [OF assms(2) g] by blast
  have del: "view (ext w') = (view (ext w1))(key := settle (without_finalizer E s)) \<and>
    (\<exists>es. log w' = log w1 @ es \<and> (list_ex is_http es \<longrightarrow>
      (\<exists>sr. GotRegistry (registry_key s) (Inr sr) \<in> set es \<and> subject_at sr s \<notin> subjects (ext w'))))"
    using deletion_stores [OF assms(1-3) _ assms(6) d assms(13), of key] assms(4) v1 by simp
  then obtain es1 where es1: "log w' = log w1 @ es1" "list_ex is_http es1 \<longrightarrow>
      (\<exists>sr. GotRegistry (registry_key s) (Inr sr) \<in> set es1 \<and> subject_at sr s \<notin> subjects (ext w'))" by blast
  have es: "es = GotSchema key (Inr s) # es1" using es1(1) op_log(1) [OF g] assms(14) by simp
  then have "list_ex is_http es1" using assms(15) by (simp add: is_http_def)
  then obtain sr where "GotRegistry (registry_key s) (Inr sr) \<in> set es" "subject_at sr s \<notin> subjects (ext w')"
    using es1(2) es by auto
  moreover have "subject_at sr t = subject_at sr s" using assms(11) by (simp add: subject_at_def)
  moreover have "view (ext w') key' = Some t" using del v1 assms(7,8) by simp
  moreover have "key' \<notin> set (fst (enqueue (schema_SetupWithManager E) SchemaKind (sch_meta s) w'))"
    using api_key [OF assms(2,4)] assms(8) by (simp add: enqueue_schema)
  ultimately show ?thesis using assms(9,10) by auto
qed

text \<open>The Schema \<open>twin\<close> names the subject of the deleted one, and is registered.\<close>

definition twin_schema :: Schema where
  "twin_schema =
     sample_schema\<lparr>sch_meta := (sch_meta sample_schema)\<lparr>meta_name := ''twin'', meta_finalizers := [schemaFinalizer]\<rparr>,
       sch_status := \<lparr>status_schemaID = Some 42, status_version = Some 3, status_registeredAt = Some 50,
         status_observedGeneration = 1, status_conditions = [ready_condition ConditionTrue ''Registered'' [] 1]\<rparr>\<rparr>"

definition twin_key :: ObjectKey where
  "twin_key = \<lparr>key_namespace = ''kafka'', key_name = ''twin''\<rparr>"

definition twin_world :: "cluster world" where
  "twin_world =
     delete_world\<lparr>ext := (ext delete_world)\<lparr>cl_schemas := [deleted_schema, twin_schema]\<rparr>\<rparr>"

definition twin_run :: "(Result \<times> go_error option) \<times> cluster world" where
  "twin_run = schema_reconcile ref_env sample_key twin_world"

theorem shared_subject_lost_witness:
  "schema_ValidateCreate deleted_schema = None \<and> schema_ValidateCreate twin_schema = None \<and>
   ref_view (ext (snd twin_run)) twin_key = Some twin_schema \<and> registered twin_schema \<and>
   (\<exists>sr. GotRegistry registry_sample_key (Inr sr) \<in> set (log (snd twin_run)) \<and>
     subject_at sr twin_schema \<notin> ref_subject_set (ext (snd twin_run)))"
proof -
  have stored: "ref_view (ext twin_world) sample_key = Some deleted_schema"
    "ref_view (ext twin_world) twin_key = Some twin_schema" by code_simp+
  have twin: "twin_key \<noteq> sample_key" "registered twin_schema"
    "registry_key twin_schema = registry_key deleted_schema"
    "spec_subject (sch_spec twin_schema) = spec_subject (sch_spec deleted_schema)"
    "registry_key twin_schema = registry_sample_key" by code_simp+
  have run: "schema_reconcile ref_env sample_key twin_world = (fst twin_run, snd twin_run)"
    "log (snd twin_run) = log twin_world @ log (snd twin_run)"
    by (simp_all add: twin_run_def twin_world_def delete_world_def sample_world_def Let_def)
  have ok: "snd (fst twin_run) = None" by code_simp
  have "list_ex (\<lambda>e. case e of HttpDone c rq out \<Rightarrow> True | _ \<Rightarrow> False) (log (snd twin_run))" by code_simp
  then have http: "list_ex is_http (log (snd twin_run))"
    by (fastforce simp: list_ex_iff is_http_def split: event.splits)
  have "schema_ValidateCreate deleted_schema = None" "schema_ValidateCreate twin_schema = None" by code_simp+
  then show ?thesis
    using shared_subject_lost [OF ref_finalizer_laws ref_api_laws ref_registry_laws stored(1) sample_deleted(1,3)
        stored(2) twin(1-4) run(1) ok run(2) http] twin(5) by simp
qed

section \<open>A Schema that changes its registry\<close>

text \<open>
  C15. The reference of a Schema to its registry may be edited: the webhook admits it. The deletion
  of the Schema then takes away the subject in the new registry, and the finalizer, and the subject
  that was registered in the old one stays there for good.
\<close>

theorem moved_schema_leaves_subject:
  assumes "finalizer_laws E" "api_laws E view" "registry_laws E subjects" "subject_frame E subjects"
    and "schema_ValidateCreate old = None" "subject_at old_sr old \<in> subjects (ext w)" "rr_name new_ref \<noteq> []"
    and "sch_spec s = (sch_spec old)\<lparr>spec_registryRef := new_ref\<rparr>"
    and "view (ext w) key = Some s" "is_deleted E s" "has_finalizer s"
    and "schema_reconcile E key w = (r, w')" "snd r = None" "log w' = log w @ es"
    and "\<forall>sr. GotRegistry (registry_key s) (Inr sr) \<in> set es \<longrightarrow> \<not> touches (subject_at old_sr old) (subject_at sr s)"
  shows "schema_ValidateUpdate old s = None \<and>
    (case view (ext w') key of None \<Rightarrow> True | Some s' \<Rightarrow> \<not> has_finalizer s') \<and>
    subject_at old_sr old \<in> subjects (ext w')"
proof (intro conjI)
  show "schema_ValidateUpdate old s = None"
    using assms(5,7,8) schema_admission_decided [of s old] schema_admission_decided [of old old] by simp
  obtain w1 where g: "k8s_get_schema E key w = (Inr s, w1)" and d: "reconcile_deletion E s w1 = (r, w')"
    using assms(2,9,10,12,13) by (rule deletion_runE)
  have "view (ext w') = (view (ext w1))(key := settle (without_finalizer E s))"
    using deletion_stores [OF assms(1-3) _ assms(11) d assms(13), of key] assms(9) api_calls(1) [OF assms(2) g]
    by simp
  then show "case view (ext w') key of None \<Rightarrow> True | Some s' \<Rightarrow> \<not> has_finalizer s'"
    using finalizer_lawsD(3) [OF assms(1)] by (simp add: settle_def without_finalizer_def)
  have u: "subject_at old_sr old \<in> subjects (ext w1)"
    using assms(6) registry_calls(4) [OF assms(3) g] by simp
  obtain es1 where l: "log w' = log w1 @ es1"
    using reconcile_deletion_framed [OF d, of "[s]"] by auto
  have "es = GotSchema key (Inr s) # es1" using l op_log(1) [OF g] assms(14) by simp
  then show "subject_at old_sr old \<in> subjects (ext w')"
    using deletion_keeps_subject [OF assms(1,3,4,11) d assms(13) l u] assms(15) by simp
qed

definition other_registry :: SchemaRegistry where
  "other_registry =
     sample_registry\<lparr>sr_meta := sample_meta ''kafka'' ''other'',
       sr_spec := (sr_spec sample_registry)\<lparr>sr_url := ''http://other:8081''\<rparr>\<rparr>"

definition moved_schema :: Schema where
  "moved_schema =
     deleted_schema\<lparr>sch_spec := (sch_spec deleted_schema)
       \<lparr>spec_registryRef := \<lparr>rr_name = ''other'', rr_namespace = []\<rparr>\<rparr>\<rparr>"

definition moved_world :: "cluster world" where
  "moved_world =
     delete_world\<lparr>ext := (ext delete_world)
       \<lparr>cl_schemas := [moved_schema], cl_registries := [sample_registry, other_registry]\<rparr>\<rparr>"

definition moved_run :: "(Result \<times> go_error option) \<times> cluster world" where
  "moved_run = schema_reconcile ref_env sample_key moved_world"

theorem moved_schema_leaves_subject_witness:
  "schema_ValidateUpdate sample_schema moved_schema = None \<and>
   subject_at sample_registry sample_schema \<in> ref_subject_set (ext (snd moved_run))"
proof -
  have stored: "ref_view (ext moved_world) sample_key = Some moved_schema" by code_simp
  have valid: "schema_ValidateCreate sample_schema = None" by code_simp
  have del: "is_deleted ref_env moved_schema" "has_finalizer moved_schema"
    by (simp_all add: ref_env_def moved_schema_def deleted_schema_def)
  have spec: "sch_spec moved_schema =
      (sch_spec sample_schema)\<lparr>spec_registryRef := \<lparr>rr_name = ''other'', rr_namespace = []\<rparr>\<rparr>"
    by (simp add: moved_schema_def deleted_schema_def)
  have here: "subject_at sample_registry sample_schema \<in> ref_subject_set (ext moved_world)"
    by (simp add: subject_at_def ref_subject_set_def moved_world_def delete_world_def sample_world_def
        sample_registry_def sample_schema_def Let_def)
  have run: "schema_reconcile ref_env sample_key moved_world = (fst moved_run, snd moved_run)"
    "log (snd moved_run) = log moved_world @ log (snd moved_run)"
    by (simp_all add: moved_run_def moved_world_def delete_world_def sample_world_def Let_def)
  have ok: "snd (fst moved_run) = None" by code_simp
  have "list_all (\<lambda>e. case e of GotRegistry k (Inr sr) \<Rightarrow> sr = other_registry | _ \<Rightarrow> True) (log (snd moved_run))"
    by code_simp
  then have "sr = other_registry" if "GotRegistry (registry_key moved_schema) (Inr sr) \<in> set (log (snd moved_run))" for sr
    using that by (fastforce simp: list_all_iff)
  moreover have "\<not> touches (subject_at sample_registry sample_schema) (subject_at other_registry moved_schema)"
    by code_simp
  ultimately have "\<forall>sr. GotRegistry (registry_key moved_schema) (Inr sr) \<in> set (log (snd moved_run)) \<longrightarrow>
      \<not> touches (subject_at sample_registry sample_schema) (subject_at sr moved_schema)" by blast
  then show ?thesis
    using moved_schema_leaves_subject [OF ref_finalizer_laws ref_api_laws ref_registry_laws ref_subject_frame valid
        here _ spec stored del run(1) ok run(2)] by simp
qed

end
