(* ===== verification/StatusLimits.thy ===== *)
theory StatusLimits
  imports SchemaProperties
begin

text \<open>
  The conditions the operator writes against the constraints both CustomResourceDefinitions put on
  a condition (\<open>config/crd/bases\<close>). All it writes fit, but for one thing: the message of a refused
  registration is the whole body of the answer (\<open>client.go\<close>, \<open>RegisterSchema\<close>), and a message may have
  32768 characters.
\<close>

section \<open>The constraints on a condition\<close>

text \<open>\<open>utf8.RuneCountInString\<close>: every byte that starts no valid sequence counts as one.\<close>

fun rune_count :: "string \<Rightarrow> nat" where
  "rune_count [] = 0"
| "rune_count (c # cs) =
     (if ascii c \<or> utf8_len (c # cs) = 0 then Suc (rune_count cs)
      else Suc (rune_count (drop (utf8_len (c # cs) - 1) cs)))"

definition lower_digit :: "char \<Rightarrow> bool" where
  "lower_digit c \<longleftrightarrow> byte_in 97 122 c \<or> byte_in 48 57 c"

definition letter :: "char \<Rightarrow> bool" where
  "letter c \<longleftrightarrow> byte_in 97 122 c \<or> byte_in 65 90 c"

definition letter_digit :: "char \<Rightarrow> bool" where
  "letter_digit c \<longleftrightarrow> letter c \<or> byte_in 48 57 c"

text \<open>\<open>^[A-Za-z]([A-Za-z0-9_,:]*[A-Za-z0-9_])?$\<close>\<close>

definition reason_pattern :: "string \<Rightarrow> bool" where
  "reason_pattern t \<longleftrightarrow>
     t \<noteq> [] \<and> letter (hd t) \<and>
     list_all (\<lambda>c. letter_digit c \<or> c = CHR ''_'' \<or> c = CHR '','' \<or> c = CHR '':'') t \<and>
     (letter_digit (last t) \<or> last t = CHR ''_'')"

text \<open>
  The pattern of the type: an optional prefix, which is a list of labels separated by dots, and
  a name.
\<close>

definition name_pattern :: "string \<Rightarrow> bool" where
  "name_pattern t \<longleftrightarrow>
     t \<noteq> [] \<and> letter_digit (hd t) \<and> letter_digit (last t) \<and>
     list_all (\<lambda>c. letter_digit c \<or> c = CHR ''-'' \<or> c = CHR ''_'' \<or> c = CHR ''.'') t"

definition label_pattern :: "string \<Rightarrow> bool" where
  "label_pattern t \<longleftrightarrow>
     t \<noteq> [] \<and> lower_digit (hd t) \<and> lower_digit (last t) \<and>
     list_all (\<lambda>c. lower_digit c \<or> c = CHR ''-'') t"

fun split_dots :: "string \<Rightarrow> string list" where
  "split_dots [] = [[]]"
| "split_dots (c # cs) =
     (if c = CHR ''.'' then [] # split_dots cs
      else (case split_dots cs of [] \<Rightarrow> [[c]] | l # ls \<Rightarrow> (c # l) # ls))"

definition type_pattern :: "string \<Rightarrow> bool" where
  "type_pattern t \<longleftrightarrow>
     (let p = takeWhile (\<lambda>c. c \<noteq> CHR ''/'') t; q = dropWhile (\<lambda>c. c \<noteq> CHR ''/'') t in
      if q = [] then name_pattern t
      else list_all label_pattern (split_dots p) \<and> name_pattern (tl q))"

definition max_message :: nat where
  "max_message = 32768"

definition condition_conforms :: "Condition \<Rightarrow> bool" where
  "condition_conforms c \<longleftrightarrow>
     rune_count (cond_message c) \<le> max_message \<and>
     0 \<le> sint (cond_observedGeneration c) \<and>
     1 \<le> rune_count (cond_reason c) \<and> rune_count (cond_reason c) \<le> 1024 \<and>
     reason_pattern (cond_reason c) \<and>
     cond_status c \<in> {''True'', ''False'', ''Unknown''} \<and>
     rune_count (cond_type c) \<le> 316 \<and> type_pattern (cond_type c)"

text \<open>The API server stores no status with a condition that does not conform.\<close>

definition status_checked :: "'w env \<Rightarrow> bool" where
  "status_checked E \<longleftrightarrow>
     (\<forall>s x x'. env_update_schema_status E s x = (None, x') \<longrightarrow>
        list_all condition_conforms (status_conditions (sch_status s)))"

lemma rune_count_ascii: "list_all ascii s \<Longrightarrow> rune_count (s @ t) = length s + rune_count t"
  by (induction s) auto

lemma utf8_len_le_4: "utf8_len s \<le> 4"
  by (cases s rule: utf8_len.cases) (auto split: list.splits)

text \<open>A message of more than 131072 bytes is too long whatever the bytes are.\<close>

lemma rune_count_bytes: "length s \<le> 4 * rune_count s"
proof (induction s rule: rune_count.induct)
  case 1
  then show ?case by simp
next
  case (2 c cs)
  then show ?case using utf8_len_le_4 [of "c # cs"] by (cases "ascii c \<or> utf8_len (c # cs) = 0") auto
qed

lemma reasons_conform:
  "re \<in> {''Registered'', ''RegistrationFailed'', ''ClientBuildFailed''} \<Longrightarrow>
    reason_pattern re \<and> 1 \<le> rune_count re \<and> rune_count re \<le> 1024"
  by (elim insertE emptyE; hypsubst; code_simp)

lemma ready_type_conforms: "type_pattern ''Ready'' \<and> rune_count ''Ready'' \<le> 316"
  by code_simp

text \<open>Of the Ready condition only the message can be at fault.\<close>

lemma ready_conforms:
  assumes "st \<in> {ConditionTrue, ConditionFalse}"
    and "re \<in> {''Registered'', ''RegistrationFailed'', ''ClientBuildFailed''}" "0 \<le> sint g"
  shows "condition_conforms (ready_condition st re msg g) \<longleftrightarrow> rune_count msg \<le> max_message"
  using assms(1,3) reasons_conform [OF assms(2)] ready_type_conforms
  by (auto simp: condition_conforms_def ConditionTrue_def ConditionFalse_def)

section \<open>A refused registration\<close>

definition refused_message :: "HttpResponse \<Rightarrow> string" where
  "refused_message resp =
     ''schema registration failed with status '' @ fmt_d (resp_status resp) @ '': '' @ resp_body resp"

lemma RegisterSchema_refused:
  assumes "RegisterSchema E c subject q w = (r, w')"
    and "log w' = log w @ HttpDone hc rq (Inr resp) # es" "resp_status resp \<noteq> StatusOK"
  shows "r = Inl (errorf (refused_message resp)) \<and> es = []"
proof -
  obtain req where req: "new_request E MethodPost (versions_url c subject) (Some (render (request_json q))) = Inr req"
    using assms(1,2) by (auto simp: RegisterSchema_def marshal_request_def split: sum.splits)
  obtain out w1 where h: "http_do E (c_httpClient c) (content_type_json (addAuth c req)) w = (out, w1)"
    by (cases "http_do E (c_httpClient c) (content_type_json (addAuth c req)) w")
  obtain v w2 where g: "getLatestVersionForSubject E c subject w1 = (v, w2)"
    by (cases "getLatestVersionForSubject E c subject w1")
  obtain es' where l2: "log w2 = log w1 @ es'" using getLatestVersion_emits [OF g] by blast
  have "out = Inr resp"
    using assms(1,2) req h g op_log(9) [OF h] l2
    by (auto simp: RegisterSchema_def marshal_request_def split: sum.splits if_splits option.splits)
  then show ?thesis
    using assms req h op_log(9) [OF h]
    by (auto simp: RegisterSchema_def marshal_request_def refused_message_def)
qed

lemma failure_events:
  assumes "condition_laws E" "status_checked E" "setConditionFailed E s reason msg w = (u, w')"
  shows "\<exists>es. log w' = log w @ es \<and> es \<noteq> [] \<and> \<not> list_ex is_http es \<and>
    (max_message < rune_count msg \<longrightarrow>
      (\<forall>s. UpdatedSchemaStatus s None \<notin> set es) \<and> (u \<noteq> None \<or> found_gone E (last es)))"
proof -
  obtain out w1 where g: "k8s_get_schema E (env_object_key E (sch_meta s)) w = (out, w1)"
    by (cases "k8s_get_schema E (env_object_key E (sch_meta s)) w")
  note l1 = op_log(1) [OF g]
  show ?thesis
  proof (cases out)
    case (Inl e)
    then show ?thesis using assms(3) g l1
      by (auto simp: setConditionFailed_def is_http_def found_gone_def)
  next
    case (Inr s1)
    let ?c = "ready_condition ConditionFalse reason msg (meta_generation (sch_meta s1))"
    let ?s2 = "set_schema_condition E w1 ?c s1"
    have up: "k8s_update_schema_status E ?s2 w1 = (u, w')"
      using assms(3) g Inr by (simp add: setConditionFailed_def)
    have "u \<noteq> None" if big: "max_message < rune_count msg"
    proof
      assume "u = None"
      then have "list_all condition_conforms (status_conditions (sch_status ?s2))"
        using assms(2) op_ext(5) [OF up] unfolding status_checked_def by blast
      moreover obtain t where
        "find_condition ''Ready'' (status_conditions (sch_status ?s2)) = Some (?c\<lparr>cond_lastTransitionTime := t\<rparr>)"
        using condition_lawsD(1) [OF assms(1), of ?c] by (auto simp: set_schema_condition_def)
      then have "?c\<lparr>cond_lastTransitionTime := t\<rparr> \<in> set (status_conditions (sch_status ?s2))"
        by (auto simp: find_condition_def find_Some_iff)
      ultimately have "condition_conforms (?c\<lparr>cond_lastTransitionTime := t\<rparr>)"
        by (auto simp: list_all_iff)
      then show False using big by (simp add: condition_conforms_def)
    qed
    then show ?thesis using l1 op_log(7) [OF up] Inr
      by (intro exI [of _ "[GotSchema (env_object_key E (sch_meta s)) out, UpdatedSchemaStatus ?s2 u]"])
        (auto simp: is_http_def)
  qed
qed

text \<open>A POST that was refused with a long body: in a registration it is the one of \<open>RegisterSchema\<close>.\<close>

definition refused_at_length :: "event \<Rightarrow> bool" where
  "refused_at_length e \<longleftrightarrow>
     (case e of
        HttpDone hc rq (Inr resp) \<Rightarrow> req_method rq = MethodPost \<and> resp_status resp \<noteq> StatusOK \<and>
          max_message < rune_count (refused_message resp)
      | _ \<Rightarrow> False)"

lemma refused_is_http: "refused_at_length e \<Longrightarrow> is_http e \<and> is_method MethodPost e"
  by (auto simp: refused_at_length_def is_http_def is_method_def split: event.splits sum.splits)

lemma no_http_no_refusal: "\<not> list_ex is_http es \<Longrightarrow> \<not> list_ex refused_at_length es"
  using refused_is_http by (auto simp: list_ex_iff)

definition left_unrecorded :: "'w env \<Rightarrow> go_error option \<Rightarrow> event list \<Rightarrow> bool" where
  "left_unrecorded E u es \<longleftrightarrow>
     (\<forall>s. UpdatedSchemaStatus s None \<notin> set es) \<and> (u \<noteq> None \<or> found_gone E (last es))"

lemma compat_no_refusal:
  "\<exists>es. log (set_compatibility_if_given E c s w) = log w @ es \<and> \<not> list_ex refused_at_length es"
proof (cases "spec_compatibilityLevel (sch_spec s) = []")
  case True
  then show ?thesis by (simp add: set_compatibility_if_given_def)
next
  case False
  obtain r w1 where sc: "SetCompatibility E c (spec_subject (sch_spec s))
      (spec_compatibilityLevel (sch_spec s)) w = (r, w1)"
    by (cases "SetCompatibility E c (spec_subject (sch_spec s)) (spec_compatibilityLevel (sch_spec s)) w")
  then obtain es where "log w1 = log w @ es"
      "compat_contract c (spec_subject (sch_spec s)) (spec_compatibilityLevel (sch_spec s)) r es"
    by (rule compat_op.eventsE)
  then show ?thesis
    using False sc
    by (auto simp: set_compatibility_if_given_def compat_contract_def refused_at_length_def method_defs
        split: sum.splits)
qed

lemma registration_refused:
  assumes "condition_laws E" "status_checked E" "reconcile_registration E key s w = (r, w')"
  shows "\<exists>es. log w' = log w @ es \<and> es \<noteq> [] \<and> (list_ex refused_at_length es \<longrightarrow> left_unrecorded E (snd r) es)"
proof -
  obtain b w1 where b: "buildClient E s w = (b, w1)" by (cases "buildClient E s w")
  then obtain es1 where l1: "log w1 = log w @ es1" and bc: "build_contract s b es1"
    by (rule build_op.eventsE)
  note res = build_contract_resolve [OF bc]
  note q1 = resolve_not_http [OF res]
  have n1: "es1 \<noteq> []" "UpdatedSchemaStatus x None \<notin> set es1" for x
    using bc res by (auto simp: build_contract_def list_all_iff)
  show ?thesis
  proof (cases b)
    case (Inl e)
    then have f: "setConditionFailed E s ''ClientBuildFailed'' (error_text e) w1 = (snd r, w')"
      using assms(3) b by (auto simp: reconcile_registration_def split: prod.splits)
    then obtain es2 where "log w' = log w1 @ es2" "\<not> list_ex is_http es2"
      using setConditionFailed_emits [OF assms(1)] by blast
    then show ?thesis
      using l1 n1(1) no_http_no_refusal [OF q1] no_http_no_refusal [of es2] by (intro exI [of _ "es1 @ es2"]) simp
  next
    case (Inr c)
    let ?subj = "spec_subject (sch_spec s)"
    obtain g w2 where g: "RegisterSchema E c ?subj (register_request s) w1 = (g, w2)"
      by (cases "RegisterSchema E c ?subj (register_request s) w1")
    then obtain es2 where l2: "log w2 = log w1 @ es2"
      and rc: "register_contract c ?subj (register_request s) g es2"
      by (rule register_op.eventsE)
    show ?thesis
    proof (cases "list_ex refused_at_length es2")
      case True
      then obtain hc rq resp es2' where es2: "es2 = HttpDone hc rq (Inr resp) # es2'"
        and big: "resp_status resp \<noteq> StatusOK" "max_message < rune_count (refused_message resp)"
        using rc by (auto simp: register_contract_def refused_at_length_def latest_request_def
            request_frame method_defs split: option.splits sum.splits)
      have ref: "g = Inl (errorf (refused_message resp))" "es2' = []"
        using RegisterSchema_refused [OF g l2 [unfolded es2] big(1)] by auto
      then have f: "setConditionFailed E s ''RegistrationFailed'' (refused_message resp) w2 = (snd r, w')"
        using assms(3) b Inr g by (auto simp: reconcile_registration_def split: prod.splits)
      obtain es3 where "log w' = log w2 @ es3" "left_unrecorded E (snd r) es3" "es3 \<noteq> []"
        using failure_events [OF assms(1,2) f] big(2) f
        by (auto simp: left_unrecorded_def)
      then show ?thesis
        using l1 l2 es2 ref(2) n1 by (intro exI [of _ "es1 @ es2 @ es3"]) (auto simp: left_unrecorded_def)
    next
      case False
      note q12 = no_http_no_refusal [OF q1] False
      show ?thesis
      proof (cases g)
        case Inl2: (Inl e)
        then have f: "setConditionFailed E s ''RegistrationFailed'' (error_text e) w2 = (snd r, w')"
          using assms(3) b Inr g by (auto simp: reconcile_registration_def split: prod.splits)
        then obtain es3 where "log w' = log w2 @ es3" "\<not> list_ex is_http es3"
          using setConditionFailed_emits [OF assms(1)] by blast
        then show ?thesis
          using l1 l2 n1(1) q12 no_http_no_refusal [of es3] by (intro exI [of _ "es1 @ es2 @ es3"]) simp
      next
        case Inr2: (Inr resp)
        let ?w3 = "set_compatibility_if_given E c s w2"
        have u: "update_registered E key resp ?w3 = (r, w')"
          using assms(3) b Inr g Inr2 by (simp add: reconcile_registration_def)
        obtain es3 where "log ?w3 = log w2 @ es3" "\<not> list_ex refused_at_length es3"
          using compat_no_refusal by blast
        moreover obtain es4 where "log w' = log ?w3 @ es4" "\<not> list_ex is_http es4"
          using update_registered_emits [OF assms(1) u] by blast
        ultimately show ?thesis
          using l1 l2 n1(1) q12 no_http_no_refusal [of es4]
          by (intro exI [of _ "es1 @ es2 @ es3 @ es4"]) simp
      qed
    qed
  qed
qed

lemma deletion_not_refused:
  assumes "reconcile_deletion E s w = (r, w')"
  shows "\<exists>es. log w' = log w @ es \<and> \<not> list_ex refused_at_length es"
proof (cases "env_contains_finalizer E (meta_finalizers (sch_meta s)) schemaFinalizer")
  case False
  then show ?thesis using assms by (simp add: reconcile_deletion_def)
next
  case True
  obtain d w1 where d: "deleteFromRegistry E s w = (d, w1)" by (cases "deleteFromRegistry E s w")
  obtain b w0 where b: "buildClient E s w = (b, w0)" by (cases "buildClient E s w")
  then obtain es1 where l1: "log w0 = log w @ es1" and bc: "build_contract s b es1"
    by (rule build_op.eventsE)
  note q1 = no_http_no_refusal [OF resolve_not_http [OF build_contract_resolve [OF bc]]]
  have "\<exists>es. log w1 = log w @ es \<and> \<not> list_ex refused_at_length es"
  proof (cases b)
    case (Inl e)
    then show ?thesis using d b l1 q1 by (auto simp: deleteFromRegistry_def)
  next
    case (Inr c)
    then have "DeleteSubject E c (spec_subject (sch_spec s)) w0 = (d, w1)"
      using d b by (simp add: deleteFromRegistry_def)
    then obtain es2 where "log w1 = log w0 @ es2" "delete_contract c (spec_subject (sch_spec s)) d es2"
      by (rule delete_op.eventsE)
    then show ?thesis
      using l1 q1 by (intro exI [of _ "es1 @ es2"])
        (auto simp: delete_contract_def refused_at_length_def method_defs split: sum.splits)
  qed
  then obtain es where es: "log w1 = log w @ es" "\<not> list_ex refused_at_length es" by blast
  show ?thesis
  proof (cases d)
    case (Some e)
    then show ?thesis using assms True d es by (auto simp: reconcile_deletion_def)
  next
    case None
    then obtain s1 u where "k8s_update_schema E s1 w1 = (u, w')"
      using assms True d by (auto simp: reconcile_deletion_def Let_def split: prod.splits option.splits)
    then show ?thesis
      using es op_log(6) by (fastforce simp: refused_at_length_def)
  qed
qed

lemma run_refused:
  assumes "condition_laws E" "status_checked E" "schema_reconcile E key w = (r, w')"
  shows "\<exists>es. log w' = log w @ es \<and> (list_ex refused_at_length es \<longrightarrow> left_unrecorded E (snd r) es)"
proof -
  have later: "left_unrecorded E u (xs @ ys)"
    if "left_unrecorded E u ys" "ys \<noteq> []" "\<forall>s v. UpdatedSchemaStatus s v \<notin> set xs" for u xs ys
    using that by (auto simp: left_unrecorded_def)
  obtain out w1 where g: "k8s_get_schema E key w = (out, w1)" by (cases "k8s_get_schema E key w")
  note l1 = op_log(1) [OF g]
  have read: "\<not> refused_at_length (GotSchema k x)" "\<not> refused_at_length (UpdatedSchema s v)" for k x s v
    by (simp_all add: refused_at_length_def)
  show ?thesis
  proof (cases out)
    case (Inl e)
    then show ?thesis using assms(3) g l1 read by (auto simp: schema_reconcile_def)
  next
    case (Inr s)
    consider "is_deleted E s" | "\<not> is_deleted E s"
        "env_contains_finalizer E (meta_finalizers (sch_meta s)) schemaFinalizer"
      | "\<not> is_deleted E s" "\<not> env_contains_finalizer E (meta_finalizers (sch_meta s)) schemaFinalizer"
      by blast
    then show ?thesis
    proof cases
      case 1
      then have "reconcile_deletion E s w1 = (r, w')" using assms(3) g Inr by (simp add: schema_reconcile_def)
      from deletion_not_refused [OF this] obtain es where "log w' = log w1 @ es" "\<not> list_ex refused_at_length es"
        by blast
      then show ?thesis using l1 read by (intro exI [of _ "GotSchema key out # es"]) simp
    next
      case 2
      then have "reconcile_registration E key s w1 = (r, w')"
        using assms(3) g Inr by (simp add: schema_reconcile_def)
      then obtain es where "log w' = log w1 @ es" "es \<noteq> []"
          "list_ex refused_at_length es \<longrightarrow> left_unrecorded E (snd r) es"
        using registration_refused [OF assms(1,2)] by blast
      then show ?thesis
        using l1 read later [of "snd r" es "[GotSchema key out]"] by (intro exI [of _ "GotSchema key out # es"]) simp
    next
      case 3
      then have add: "reconcile_adding_finalizer E key s w1 = (r, w')"
        using assms(3) g Inr by (simp add: schema_reconcile_def)
      obtain u w2 where u: "k8s_update_schema E (add_finalizer_to E s) w1 = (u, w2)"
        by (cases "k8s_update_schema E (add_finalizer_to E s) w1")
      obtain out2 w3 where g2: "k8s_get_schema E key w2 = (out2, w3)" by (cases "k8s_get_schema E key w2")
      note l2 = op_log(6) [OF u]
      note l3 = op_log(1) [OF g2]
      show ?thesis
      proof (cases "u = None \<and> (\<exists>s'. out2 = Inr s')")
        case True
        then obtain s' where "out2 = Inr s'" "reconcile_registration E key s' w3 = (r, w')"
          using add u g2 by (auto simp: reconcile_adding_finalizer_def)
        then obtain es where "log w' = log w3 @ es" "es \<noteq> []"
            "list_ex refused_at_length es \<longrightarrow> left_unrecorded E (snd r) es"
          using registration_refused [OF assms(1,2)] by blast
        then show ?thesis
          using l1 l2 l3 read
            later [of "snd r" es "[GotSchema key out, UpdatedSchema (add_finalizer_to E s) u, GotSchema key out2]"]
          by (intro exI [of _ "[GotSchema key out, UpdatedSchema (add_finalizer_to E s) u, GotSchema key out2] @ es"]) simp
      next
        case False
        have "w' = w2 \<or> w' = w3"
        proof (cases u)
          case None
          then obtain e where "out2 = Inl e" using False by (cases out2) auto
          then show ?thesis using add u g2 None by (simp add: reconcile_adding_finalizer_def)
        next
          case (Some e)
          then show ?thesis using add u by (simp add: reconcile_adding_finalizer_def)
        qed
        then show ?thesis using l1 l2 l3 read by auto
      qed
    qed
  qed
qed

text \<open>
  C16. Limits. The message of a refused registration holds the whole body of the answer. When that
  makes it longer than the 32768 characters the CRD allows, an API server that checks the CRD
  stores no status in this run, so nothing on the Schema tells of the refusal; the run ends with
  the error of the rejected update, unless the Schema is gone.
\<close>

theorem long_refusal_unrecorded:
  assumes "condition_laws E" "status_checked E" "schema_reconcile E key w = (r, w')"
    and "log w' = log w @ es" "HttpDone hc rq (Inr resp) \<in> set es" "req_method rq = MethodPost"
    and "resp_status resp \<noteq> StatusOK" "max_message < rune_count (refused_message resp)"
  shows "(\<forall>s. UpdatedSchemaStatus s None \<notin> set es) \<and> (snd r \<noteq> None \<or> found_gone E (last es))"
proof -
  have "list_ex refused_at_length es"
    using assms(5-8) by (auto simp: list_ex_iff refused_at_length_def intro!: bexI [of _ "HttpDone hc rq (Inr resp)"])
  then show ?thesis
    using run_refused [OF assms(1-3)] assms(4) by (auto simp: left_unrecorded_def)
qed

section \<open>A sample run\<close>

definition strict_env :: "cluster env" where
  "strict_env = ref_env\<lparr>env_update_schema_status := \<lambda>s x.
     if list_all condition_conforms (status_conditions (sch_status s)) then ref_update_schema_status s x
     else (Some (Foreign 422 ''Invalid value: may not be more than 32768 bytes''), x)\<rparr>"

definition guarded_schema :: Schema where
  "guarded_schema = sample_schema\<lparr>sch_meta := (sch_meta sample_schema)\<lparr>meta_finalizers := [schemaFinalizer]\<rparr>\<rparr>"

definition refusal :: HttpResponse where
  "refusal = \<lparr>resp_status = 409, resp_body = replicate 40000 CHR ''x'', resp_body_error = None\<rparr>"

definition refusing_world :: "HttpResponse \<Rightarrow> cluster world" where
  "refusing_world resp = sample_world [guarded_schema] [sample_registry] [Inr resp]"

lemma strict_laws: "condition_laws strict_env" "status_checked strict_env"
proof -
  show "condition_laws strict_env"
    using ref_condition_laws by (simp add: condition_laws_def strict_env_def)
  show "status_checked strict_env"
    by (auto simp: status_checked_def strict_env_def split: if_splits)
qed

lemma refusal_long: "max_message < rune_count (refused_message refusal)"
proof -
  have "rune_count (replicate n CHR ''x'' @ []) = n + rune_count []" for n
    using rune_count_ascii [of "replicate n CHR ''x''" "[]"] by (simp add: list_all_iff)
  then have "rune_count (replicate n CHR ''x'') = n" for n by simp
  moreover have "list_all ascii (''schema registration failed with status '' @ fmt_d 409 @ '': '')" by code_simp
  ultimately show ?thesis
    using rune_count_ascii [of "''schema registration failed with status '' @ fmt_d 409 @ '': ''" "resp_body refusal"]
    by (simp add: refused_message_def refusal_def max_message_def)
qed

lemma strict_http:
  assumes "cl_answers (ext w) = [Inr resp]"
  shows "\<exists>w'. http_do strict_env c rq w = (Inr resp, w')"
  using assms by (simp add: http_do_def call_def strict_env_def ref_env_def ref_http_do_def)

lemma refusal_sent:
  assumes "resp_status resp \<noteq> StatusOK"
  shows "\<exists>hc rq. HttpDone hc rq (Inr resp) \<in>
      set (log (snd (schema_reconcile strict_env sample_key (refusing_world resp)))) \<and> req_method rq = MethodPost"
proof -
  define w1 where "w1 = (refusing_world resp)\<lparr>log := [GotSchema sample_key (Inr guarded_schema)]\<rparr>"
  have g: "k8s_get_schema strict_env sample_key (refusing_world resp) = (Inr guarded_schema, w1)"
    unfolding w1_def by code_simp
  have live: "\<not> is_deleted strict_env guarded_schema"
    "env_contains_finalizer strict_env (meta_finalizers (sch_meta guarded_schema)) schemaFinalizer"
    by code_simp+
  have "case buildClient strict_env guarded_schema w1 of (r, w) \<Rightarrow> \<not> isl r \<and> cl_answers (ext w) = [Inr resp]"
    unfolding w1_def by code_simp
  then obtain c w2 where b: "buildClient strict_env guarded_schema w1 = (Inr c, w2)"
    and a: "cl_answers (ext w2) = [Inr resp]"
    by (cases "buildClient strict_env guarded_schema w1"; cases "fst (buildClient strict_env guarded_schema w1)") auto
  let ?q = "register_request guarded_schema" and ?subj = "spec_subject (sch_spec guarded_schema)"
  let ?rq = "content_type_json (addAuth c \<lparr>req_method = MethodPost, req_url = versions_url c ?subj,
    req_headers = [], req_body = Some (render (request_json ?q))\<rparr>)"
  obtain w3 where h: "http_do strict_env (c_httpClient c) ?rq w2 = (Inr resp, w3)"
    using strict_http [OF a] by blast
  have reg: "RegisterSchema strict_env c ?subj ?q w2 = (Inl (errorf (refused_message resp)), w3)"
    using h assms by (simp add: RegisterSchema_def marshal_request_def new_request_def strict_env_def ref_env_def
        refused_message_def)
  obtain u w4 where f: "setConditionFailed strict_env guarded_schema ''RegistrationFailed'' (refused_message resp) w3 = (u, w4)"
    by (cases "setConditionFailed strict_env guarded_schema ''RegistrationFailed'' (refused_message resp) w3")
  have "schema_reconcile strict_env sample_key (refusing_world resp) = ((requeue_minute, u), w4)"
    using g live b reg f by (simp add: schema_reconcile_def reconcile_registration_def)
  moreover obtain es where "log w4 = log w3 @ es" using setConditionFailed_framed [OF f] by blast
  moreover have "log w3 = log w2 @ [HttpDone (c_httpClient c) ?rq (Inr resp)]" by (rule op_log(9) [OF h])
  ultimately show ?thesis by (intro exI [of _ "c_httpClient c"] exI [of _ ?rq]) simp
qed

theorem long_refusal_unrecorded_witness:
  "\<forall>s. UpdatedSchemaStatus s None \<notin>
    set (log (snd (schema_reconcile strict_env sample_key (refusing_world refusal))))"
proof -
  let ?run = "schema_reconcile strict_env sample_key (refusing_world refusal)"
  have st: "resp_status refusal \<noteq> StatusOK" by (simp add: refusal_def StatusOK_def)
  obtain hc rq where p: "HttpDone hc rq (Inr refusal) \<in> set (log (snd ?run))" "req_method rq = MethodPost"
    using refusal_sent [OF st] by blast
  have "log (snd ?run) = log (refusing_world refusal) @ log (snd ?run)"
    by (simp add: refusing_world_def sample_world_def)
  from long_refusal_unrecorded [OF strict_laws prod.collapse [symmetric] this p st refusal_long]
  show ?thesis by blast
qed

end
