(* ===== verification/Credentials.thy ===== *)
theory Credentials
  imports RegistryRequests
begin

text \<open>
  The credentials a client ends up with: a reference definition of the configuration as a
  function of the Secrets read, the proof that \<open>loadAuthConfig\<close> computes it, and what an
  admitted SchemaRegistry guarantees about the failures of the loader.
\<close>

section \<open>Reference definition\<close>

definition auth_from :: "'w env \<Rightarrow> string \<Rightarrow> Secret list \<Rightarrow> AuthConfig" where
  "auth_from E t ss =
     (if t = AuthTypeBasic then
        (initial_auth t)\<lparr>ac_username := secret_value (ss ! 0) ''username'',
                        ac_password := secret_value (ss ! 0) ''password''\<rparr>
      else if t = AuthTypeBearer then
        (initial_auth t)\<lparr>ac_bearerToken := secret_value (ss ! 0) ''token''\<rparr>
      else if t = AuthTypeMTLS then
        (initial_auth t)
          \<lparr>ac_clientCert :=
             projr (env_x509_key_pair E (secret_value (ss ! 0) ''tls.crt'') (secret_value (ss ! 0) ''tls.key'')),
           ac_caCert :=
             (if length ss = 2 then Some (env_append_certs E [] (secret_value (ss ! 1) ''ca.crt'')) else None)\<rparr>
      else initial_auth t)"

definition secret_reads :: "SchemaRegistry \<Rightarrow> Secret list \<Rightarrow> event list" where
  "secret_reads sr ss = map2 (\<lambda>n s. GotSecret (secret_key sr n) (Inr s)) (auth_secret_names sr) ss"

definition loaded :: "'w env \<Rightarrow> SchemaRegistry \<Rightarrow> AuthConfig \<Rightarrow> event list \<Rightarrow> bool" where
  "loaded E sr a es \<longleftrightarrow>
     (\<exists>ss. length ss = length (auth_secret_names sr) \<and> es = secret_reads sr ss \<and>
        a = auth_from E (auth_type_of sr) ss)"

lemmas loaded_unfold = auth_secret_names_def auth_type_of_def secret_reads_def auth_from_def

lemma initial_auth_simps [simp]:
  "ac_caCert (initial_auth t) = None" "ac_type (initial_auth t) = t"
  "ac_caCert_update f (initial_auth t) = (initial_auth t)\<lparr>ac_caCert := f None\<rparr>"
  by (simp_all add: initial_auth_def)

lemma load_basic_loaded:
  assumes "sr_auth (sr_spec sr) = Some auth" "auth_type auth = AuthTypeBasic"
    and "load_basic E sr auth (initial_auth (auth_type auth)) w = (Inr a, w')"
  shows "\<exists>es. log w' = log w @ es \<and> loaded E sr a es"
proof -
  obtain b s where b: "auth_basicAuth auth = Some b"
    and g: "k8s_get_secret E (secret_key sr (basic_secretRef b)) w = (Inr s, w')"
    and a: "a = (initial_auth (auth_type auth))\<lparr>ac_username := secret_value s ''username'',
                 ac_password := secret_value s ''password''\<rparr>"
    using assms(3) by (auto simp: load_basic_def split: option.splits prod.splits sum.splits)
  then have "loaded E sr a [GotSecret (secret_key sr (basic_secretRef b)) (Inr s)]"
    unfolding loaded_def by (intro exI [of _ "[s]"]) (simp add: loaded_unfold assms(1,2))
  then show ?thesis using op_log(3) [OF g] by blast
qed

lemma load_bearer_loaded:
  assumes "sr_auth (sr_spec sr) = Some auth" "auth_type auth = AuthTypeBearer"
    and "load_bearer E sr auth (initial_auth (auth_type auth)) w = (Inr a, w')"
  shows "\<exists>es. log w' = log w @ es \<and> loaded E sr a es"
proof -
  obtain b s where b: "auth_bearerAuth auth = Some b"
    and g: "k8s_get_secret E (secret_key sr (bearer_secretRef b)) w = (Inr s, w')"
    and a: "a = (initial_auth (auth_type auth))\<lparr>ac_bearerToken := secret_value s ''token''\<rparr>"
    using assms(3) by (auto simp: load_bearer_def split: option.splits prod.splits sum.splits)
  then have "loaded E sr a [GotSecret (secret_key sr (bearer_secretRef b)) (Inr s)]"
    unfolding loaded_def by (intro exI [of _ "[s]"]) (simp add: loaded_unfold assms(1,2))
  then show ?thesis using op_log(3) [OF g] by blast
qed

lemma load_mtls_loaded:
  assumes "sr_auth (sr_spec sr) = Some auth" "auth_type auth = AuthTypeMTLS"
    and "load_mtls E sr auth (initial_auth (auth_type auth)) w = (Inr a, w')"
  shows "\<exists>es. log w' = log w @ es \<and> loaded E sr a es"
proof -
  let ?cert = "\<lambda>s. env_x509_key_pair E (secret_value s ''tls.crt'') (secret_value s ''tls.key'')"
  let ?base = "\<lambda>c. (initial_auth (auth_type auth))\<lparr>ac_clientCert := c\<rparr>"
  obtain m where m: "auth_mtls auth = Some m"
    using assms(3) by (auto simp: load_mtls_def split: option.splits)
  obtain s w1 c where g: "k8s_get_secret E (secret_key sr (mtls_certSecretRef m)) w = (Inr s, w1)"
    and c: "?cert s = Inr c"
    using assms(3) m by (auto simp: load_mtls_def split: prod.splits sum.splits)
  note run = assms(3) [unfolded load_mtls_def m option.case g prod.case sum.case c Let_def]
  show ?thesis
  proof (cases "mtls_caSecretRef m = []")
    case True
    then have a: "a = ?base c" "w' = w1" using run by simp_all
    have "loaded E sr a [GotSecret (secret_key sr (mtls_certSecretRef m)) (Inr s)]"
      unfolding loaded_def
      by (intro exI [of _ "[s]"]) (simp add: loaded_unfold assms(1,2) m True c a)
    then show ?thesis using op_log(3) [OF g] a(2) by blast
  next
    case False
    then obtain s2 where g2: "k8s_get_secret E (secret_key sr (mtls_caSecretRef m)) w1 = (Inr s2, w')"
      and a: "a = (?base c)\<lparr>ac_caCert := Some (env_append_certs E [] (secret_value s2 ''ca.crt''))\<rparr>"
      using run by (auto split: prod.splits sum.splits)
    have "loaded E sr a [GotSecret (secret_key sr (mtls_certSecretRef m)) (Inr s),
        GotSecret (secret_key sr (mtls_caSecretRef m)) (Inr s2)]"
      unfolding loaded_def
      by (intro exI [of _ "[s, s2]"]) (simp add: loaded_unfold assms(1,2) m False c a)
    then show ?thesis using op_log(3) [OF g] op_log(3) [OF g2] by auto
  qed
qed

lemma loadAuthConfig_loaded:
  assumes "loadAuthConfig E sr w = (Inr a, w')"
  shows "\<exists>es. log w' = log w @ es \<and> loaded E sr a es"
proof (cases "sr_auth (sr_spec sr)")
  case None
  then have "a = initial_auth ''NONE''" "w' = w" using assms by (simp_all add: loadAuthConfig_def)
  moreover have "loaded E sr (initial_auth ''NONE'') []"
    using None by (simp add: loaded_def loaded_unfold auth_type_defs)
  ultimately show ?thesis by auto
next
  case (Some auth)
  note run = assms [unfolded loadAuthConfig_def Some option.case Let_def]
  consider "auth_type auth = AuthTypeBasic" | "auth_type auth = AuthTypeBearer"
    | "auth_type auth = AuthTypeMTLS"
    | "auth_type auth \<notin> {AuthTypeBasic, AuthTypeBearer, AuthTypeMTLS}" by blast
  then show ?thesis
  proof cases
    case 1
    then show ?thesis using load_basic_loaded [OF Some 1] run by simp
  next
    case 2
    then show ?thesis using load_bearer_loaded [OF Some 2] run by simp
  next
    case 3
    then show ?thesis using load_mtls_loaded [OF Some 3] run by simp
  next
    case 4
    then have "a = initial_auth (auth_type auth)" "w' = w" using run by simp_all
    moreover have "loaded E sr (initial_auth (auth_type auth)) []"
      using Some 4 by (simp add: loaded_def loaded_unfold)
    ultimately show ?thesis by auto
  qed
qed

section \<open>What the webhook guarantees of the loader\<close>

text \<open>
  For an admitted SchemaRegistry the loader fails only after it has read a Secret: the
  errors about missing configuration blocks do not happen.
\<close>

lemma admitted_load_failure:
  assumes "registry_ok sr" "loadAuthConfig E sr w = (Inl e, w')"
  shows "\<exists>k out es. log w' = log w @ GotSecret k out # es"
proof (cases "sr_auth (sr_spec sr)")
  case None
  then show ?thesis using assms(2) by (simp add: loadAuthConfig_def)
next
  case (Some auth)
  then have ok: "auth_ok auth" using assms(1) by (simp add: registry_ok_def)
  note run = assms(2) [unfolded loadAuthConfig_def Some option.case Let_def]
  consider "auth_type auth = AuthTypeBasic" | "auth_type auth = AuthTypeBearer"
    | "auth_type auth = AuthTypeMTLS"
    | "auth_type auth \<notin> {AuthTypeBasic, AuthTypeBearer, AuthTypeMTLS}" by blast
  then show ?thesis
  proof cases
    case 1
    then have "auth_basicAuth auth \<noteq> None" using ok by (auto simp: auth_ok_def)
    then show ?thesis
      using run 1 by (auto simp: load_basic_def dest!: op_log(3) split: prod.splits sum.splits)
  next
    case 2
    then have "auth_bearerAuth auth \<noteq> None" using ok by (auto simp: auth_ok_def)
    then show ?thesis
      using run 2 by (auto simp: load_bearer_def dest!: op_log(3) split: prod.splits sum.splits)
  next
    case 3
    then have "auth_mtls auth \<noteq> None" using ok by (auto simp: auth_ok_def)
    then show ?thesis
      using run 3
      by (auto simp: load_mtls_def Let_def dest!: op_log(3) split: prod.splits sum.splits if_splits)
  next
    case 4
    then show ?thesis using run by simp
  qed
qed

end
