(* ===== verification/RegistryProperties.thy ===== *)
theory RegistryProperties
  imports RefCluster Credentials
begin

text \<open>
  The properties of a SchemaRegistry reconciliation, each applied to a run of the sample
  cluster.
\<close>

section \<open>A sample run\<close>

lemma health_run_eq:
  "registry_reconcile ref_env registry_sample_key health_world = (fst health_run, snd health_run)"
  "log (snd health_run) = log health_world @ log (snd health_run)"
  by (simp_all add: health_run_def health_world_def sample_world_def)

lemma health_run_result: "fst health_run = (requeue_five_minutes, None)"
  by code_simp

lemma health_run_status:
  "case last (log (snd health_run)) of
     UpdatedRegistryStatus sr u \<Rightarrow> sr_connectionStatus (sr_status sr) = ''Connected'' | _ \<Rightarrow> False"
  by code_simp

lemma health_run_length: "length (log (snd health_run)) = 4"
  by code_simp

lemma health_run_probe: "case log (snd health_run) ! 1 of HttpDone hc rq out \<Rightarrow> True | _ \<Rightarrow> False"
  by code_simp

lemma health_run_gets: "list_all (\<lambda>e. case e of GotRegistry k (Inl e) \<Rightarrow> False | _ \<Rightarrow> True)
    (log (snd health_run))"
  by code_simp

lemma health_run_last:
  obtains sr u where "UpdatedRegistryStatus sr u \<in> set (log (snd health_run))"
    "sr_connectionStatus (sr_status sr) = ''Connected''"
proof -
  have "log (snd health_run) \<noteq> []" using health_run_length by auto
  then have "last (log (snd health_run)) \<in> set (log (snd health_run))" by (rule last_in_set)
  then show ?thesis using health_run_status that by (auto split: event.splits)
qed

lemma registry_run_contract:
  assumes "condition_laws E" "registry_reconcile E key w = (r, w')" "log w' = log w @ es"
  shows "registry_contract E key r es"
  using registry_reconcile_emits [OF assms(1,2)] assms(3) by auto

section \<open>Properties\<close>

text \<open>
  A health check changes nothing but the status of its SchemaRegistry: a run only reads
  SchemaRegistries and Secrets, sends no request but a GET, and writes no other object.
\<close>

lemma registry_run_read_only:
  assumes "condition_laws E" "registry_reconcile E key w = (r, w')" "log w' = log w @ es"
  shows "list_all registry_call es"
  using registry_contract_calls [OF registry_run_contract [OF assms]] .

text \<open>
  C17. A health check is honest and changes nothing else. A run only reads SchemaRegistries and
  Secrets, sends no request but a GET, and writes no object but the status of a SchemaRegistry. And it
  reports a registry as connected only if, in this run, it read the SchemaRegistry under its key and
  a GET of \<open>/subjects\<close>, sent by a client built from what it read, was answered with 200.
\<close>

theorem connected_means_probed:
  assumes "condition_laws E" "registry_reconcile E key w = (r, w')" "log w' = log w @ es"
  shows "list_all registry_call es \<and>
    (UpdatedRegistryStatus sr' u \<in> set es \<and> sr_connectionStatus (sr_status sr') = ''Connected'' \<longrightarrow>
      (\<exists>sr e. GotRegistry key (Inr sr) \<in> set es \<and> e \<in> set es \<and> probed sr e))"
  using registry_contract_connected [OF registry_run_contract [OF assms]] registry_run_read_only [OF assms]
  by blast

theorem connected_means_probed_witness:
  "list_all registry_call (log (snd health_run)) \<and> (\<exists>sr e. e \<in> set (log (snd health_run)) \<and> probed sr e)"
proof (rule health_run_last)
  fix sr u
  assume "UpdatedRegistryStatus sr u \<in> set (log (snd health_run))"
    "sr_connectionStatus (sr_status sr) = ''Connected''"
  then show ?thesis using connected_means_probed [OF ref_condition_laws health_run_eq] by blast
qed

text \<open>
  C18. The monitoring goes on and is complete. A run asks to be called again in five minutes
  only when it returns no error and its last call was an accepted status update: Ready and the
  connection status agree with the probe, the time of the check is set, and the generation is
  the one of the stored object. Conversely a run that sent its probe, returned no error and could
  read its SchemaRegistry asks for the next run, whatever the probe said.
\<close>

theorem monitoring_goes_on:
  assumes "condition_laws E" "registry_reconcile E key w = (r, w')" "log w' = log w @ es"
  shows "(fst r = requeue_five_minutes \<longrightarrow> snd r = None \<and> es \<noteq> [] \<and> monitored (last es)) \<and>
    (sends_http es \<and> snd r = None \<and> (\<forall>e. GotRegistry key (Inl e) \<notin> set es) \<longrightarrow>
      fst r = requeue_five_minutes)"
  using registry_contract_requeue [OF registry_run_contract [OF assms]]
    registry_contract_continues [OF registry_run_contract [OF assms]] by blast

theorem monitoring_goes_on_witness:
  "fst (fst health_run) = \<lparr>requeueAfter = 300000000000\<rparr> \<and> monitored (last (log (snd health_run)))"
proof -
  have "log (snd health_run) ! 1 \<in> set (log (snd health_run))" using health_run_length by simp
  then have "sends_http (log (snd health_run))"
    using health_run_probe by (auto simp: sends_http_def split: event.splits)
  moreover have "\<forall>e. GotRegistry registry_sample_key (Inl e) \<notin> set (log (snd health_run))"
    using health_run_gets by (fastforce simp: list_all_iff)
  ultimately have "fst (fst health_run) = requeue_five_minutes" "monitored (last (log (snd health_run)))"
    using monitoring_goes_on [OF ref_condition_laws health_run_eq] health_run_result by simp_all
  then show ?thesis by (simp add: requeue_five_minutes_def time_Minute_def time_Second_def)
qed

text \<open>
  C19. When the credentials cannot be loaded the run sends no request: it reads the SchemaRegistry and
  its Secrets, marks it as unreachable (unless it is gone), and does not ask to be called again.
  So the periodic monitoring, which the comment on \<open>Reconcile\<close> promises every five minutes, stops
  there; only an error of the last steps makes controller-runtime call again.
\<close>

theorem unloadable_credentials_reported:
  assumes "condition_laws E" "k8s_get_registry E key w = (Inr sr, w1)"
    and "loadAuthConfig E sr w1 = (Inl e, w2)" "registry_reconcile E key w = (r, w')"
  shows "\<exists>reads es. log w2 = log w @ GotRegistry key (Inr sr) # reads \<and> log w' = log w2 @ es \<and>
    list_all (is_secret_read sr) reads \<and> \<not> sends_http (reads @ es) \<and> failed_tail E r es \<and>
    fst r = no_requeue"
proof -
  obtain f where "registry_setConditionFailed E sr ''AuthLoadFailed'' (error_text e) w2 = (f, w')"
    and r: "r = (no_requeue, f)"
    using assms(2-4) by (auto simp: registry_reconcile_def split: prod.splits)
  then obtain es where es: "log w' = log w2 @ es" "failed_tail E r es"
    using registry_setConditionFailed_emits [OF assms(1)] by blast
  obtain reads where "log w2 = log w1 @ reads" and "auth_contract sr (Inl e) reads"
    using assms(3) by (rule auth_loader.eventsE)
  then have rd: "log w2 = log w @ GotRegistry key (Inr sr) # reads" "list_all (is_secret_read sr) reads"
    using op_log(2) [OF assms(2)] by (simp_all add: auth_contract_def)
  then have "\<not> sends_http (reads @ es)"
    using es(2) by (auto simp: sends_http_def failed_tail_def list_all_iff is_secret_read_def)
  then show ?thesis using es rd r by auto
qed

theorem unloadable_credentials_reported_witness:
  "\<exists>r w' (w2 :: cluster world) es. registry_reconcile ref_env registry_sample_key unread_world = (r, w') \<and>
     fst r = no_requeue \<and> log w' = log w2 @ es \<and> failed_tail ref_env r es"
proof -
  define w1 where "w1 = unread_world\<lparr>log := [GotRegistry registry_sample_key (Inr basic_registry)]\<rparr>"
  have g: "k8s_get_registry ref_env registry_sample_key unread_world = (Inr basic_registry, w1)"
    unfolding w1_def by code_simp
  have "isl (fst (loadAuthConfig ref_env basic_registry w1))"
    unfolding w1_def by code_simp
  then obtain e w2 where l: "loadAuthConfig ref_env basic_registry w1 = (Inl e, w2)"
    by (cases "loadAuthConfig ref_env basic_registry w1"; cases "fst (loadAuthConfig ref_env basic_registry w1)") auto
  obtain r w' where run: "registry_reconcile ref_env registry_sample_key unread_world = (r, w')"
    by (cases "registry_reconcile ref_env registry_sample_key unread_world")
  from unloadable_credentials_reported [OF ref_condition_laws g l run] run show ?thesis by blast
qed

end
