(* ===== verification/ClientProperties.thy ===== *)
theory ClientProperties
  imports RefCluster Credentials
begin

text \<open>
  The properties of the HTTP client and of the loading of its credentials: what each
  operation's result says about the answer, what the requests carry, and where the URLs and
  the timeout leave the range in which they mean what the code intends.
\<close>

section \<open>A sample client\<close>

definition sample_client :: SchemaRegistryClient where
  "sample_client =
     \<lparr>c_baseURL = ''http://registry:8081'',
      c_httpClient = \<lparr>hc_timeout = 30 * time_Second,
        hc_tls = \<lparr>tls_insecureSkipVerify = False, tls_certificates = [], tls_rootCAs = None\<rparr>\<rparr>,
      c_auth = initial_auth ''NONE''\<rparr>"

definition sample_request :: RegisterSchemaRequest where
  "sample_request = \<lparr>rq_schema = ''{}'', rq_schemaType = ''AVRO'',
     rq_references = [\<lparr>cref_name = ''a'', cref_subject = ''b'', cref_version = - 1\<rparr>]\<rparr>"

definition deleted_answer :: "cluster world" where
  "deleted_answer = sample_world [] [] [answer 404 []]"

definition registered_answers :: "cluster world" where
  "registered_answers = sample_world [] [] [answer 200 (render (id_answer 7))]"

definition patient_registry :: SchemaRegistry where
  "patient_registry =
     sample_registry\<lparr>sr_spec := (sr_spec sample_registry)\<lparr>sr_timeout := 9223372037\<rparr>\<rparr>"

lemma sample_request_utf8: "request_utf8 sample_request"
  by code_simp

lemma answer_logs [simp]: "log deleted_answer = []" "log registered_answers = []"
  by (simp_all add: deleted_answer_def registered_answers_def sample_world_def)

section \<open>Results\<close>

text \<open>
  C20. \<open>DeleteSubject\<close> sends at most one request, the DELETE of the subject, and returns no
  error exactly when it was answered with 200 or 404.
\<close>

theorem delete_subject_result:
  assumes "DeleteSubject E c subject w = (r, w')" "log w' = log w @ es"
  shows "(es = [] \<or> (\<exists>out. es = [HttpDone (c_httpClient c) (delete_request c subject) out])) \<and>
    (r = None \<longleftrightarrow>
      (\<exists>resp. es = [HttpDone (c_httpClient c) (delete_request c subject) (Inr resp)] \<and>
         resp_status resp \<in> {StatusOK, StatusNotFound}))"
  using delete_op.events_contract [OF assms] by (auto simp: delete_contract_def)

theorem delete_subject_result_witness:
  "fst (DeleteSubject ref_env sample_client ''s'' deleted_answer) = None \<and>
   (\<exists>resp. log (snd (DeleteSubject ref_env sample_client ''s'' deleted_answer)) =
      [HttpDone (c_httpClient sample_client) (delete_request sample_client ''s'') (Inr resp)] \<and>
      resp_status resp \<in> {StatusOK, StatusNotFound})"
proof -
  let ?run = "DeleteSubject ref_env sample_client ''s'' deleted_answer"
  have eq: "?run = (fst ?run, snd ?run)" "log (snd ?run) = log deleted_answer @ log (snd ?run)" by simp_all
  have "fst ?run = None" by code_simp
  then show ?thesis using delete_subject_result [OF eq] by simp
qed

text \<open>
  C21. \<open>RegisterSchema\<close> succeeds exactly with the ID its POST was answered with; the version is
  the one of the latest-version answer, or 0 when there is none, and no request follows a POST
  that was not answered with an ID.
\<close>

theorem register_schema_result:
  assumes "RegisterSchema E c subject q w = (r, w')" "log w' = log w @ es"
  shows "case r of
      Inl e \<Rightarrow> es = [] \<or> (\<exists>out. es = [HttpDone (c_httpClient c) (post_request c subject q) out] \<and>
        registered_id out = None)
    | Inr resp \<Rightarrow> \<exists>out es'. es = HttpDone (c_httpClient c) (post_request c subject q) out # es' \<and>
        registered_id out = Some (res_id resp) \<and> res_version resp = reported_version es' \<and>
        (es' = [] \<or> (\<exists>out'. es' = [HttpDone (c_httpClient c) (latest_request c subject) out']))"
proof -
  have rc: "register_contract c subject q r es" by (rule register_op.events_contract [OF assms])
  then consider (unsent) e where "es = []" "r = Inl e"
    | (sent) out es' where "es = HttpDone (c_httpClient c) (post_request c subject q) out # es'"
        "case registered_id out of
           None \<Rightarrow> es' = [] \<and> (\<exists>e. r = Inl e)
         | Some i \<Rightarrow>
             r = Inr \<lparr>res_id = i, res_version = reported_version es', res_schema = []\<rparr> \<and>
             (es' = [] \<or> (\<exists>out'. es' = [HttpDone (c_httpClient c) (latest_request c subject) out']))"
    by (auto simp: register_contract_def)
  then show ?thesis
  proof cases
    case unsent
    then show ?thesis by simp
  next
    case (sent out es')
    then show ?thesis by (cases "registered_id out") auto
  qed
qed

theorem register_schema_result_witness:
  "\<exists>resp out es'. fst (RegisterSchema ref_env sample_client ''s'' sample_request registered_answers) = Inr resp \<and>
     log (snd (RegisterSchema ref_env sample_client ''s'' sample_request registered_answers)) =
       HttpDone (c_httpClient sample_client) (post_request sample_client ''s'' sample_request) out # es' \<and>
     registered_id out = Some (res_id resp) \<and> res_version resp = reported_version es'"
proof -
  let ?run = "RegisterSchema ref_env sample_client ''s'' sample_request registered_answers"
  have eq: "?run = (fst ?run, snd ?run)" "log (snd ?run) = log registered_answers @ log (snd ?run)" by simp_all
  have "\<not> isl (fst ?run)" by code_simp
  then obtain resp where "fst ?run = Inr resp" by (cases "fst ?run") auto
  then show ?thesis using register_schema_result [OF eq] by auto
qed

section \<open>Bodies\<close>

text \<open>
  The body of the registration of a Schema is valid JSON and decodes to its text, its type and its
  references, in their order and with their versions as decimal numbers; the references are left
  out when there are none.
\<close>

lemma registration_body_decodes:
  assumes "request_utf8 (register_request s)"
  shows "\<exists>b. req_body (post_request c subject (register_request s)) = Some b \<and>
    json_parse b = Some (JObj
      ([(''schema'', JStr (spec_schema (sch_spec s))),
        (''schemaType'', JStr (spec_schemaType (sch_spec s)))] @
       (if spec_references (sch_spec s) = [] then []
        else [(''references'', JArr (map (\<lambda>ref. JObj
                [(''name'', JStr (ref_name ref)), (''subject'', JStr (ref_subject ref)),
                 (''version'', JNum (fmt_d (ref_version ref)))]) (spec_references (sch_spec s))))])))"
proof -
  have "json_parse (render (request_json (register_request s))) = Some (request_json (register_request s))"
    by (intro json_parse_render request_json_wf assms) (simp add: max_nesting_depth_def)
  then show ?thesis
    by (auto simp: post_request_def request_json_def register_request_def convertReferences_def
        reference_json_def comp_def simp del: render.simps)
qed

text \<open>Nothing is lost in the body: two requests with the same body are the same request.\<close>

lemma registration_body_determines:
  assumes "request_utf8 q" "request_utf8 q'"
    and "req_body (post_request c subject q) = req_body (post_request c subject q')"
  shows "q = q'"
  using render_request_inject [OF assms(1,2)] assms(3) by (simp add: post_request_def)

lemma id_answer_read: "registered_id (answer 200 (render (id_answer i))) = Some i"
  by (simp add: registered_id_def answer_def StatusOK_def unmarshal_id_answer del: render.simps)

lemma latest_version_read:
  assumes "utf8_valid subject" "utf8_valid text" "num_stop rest"
  shows "version_answer (answer 200 (render (version_object subject v i text) @ rest)) = Some v"
proof -
  let ?resp = "\<lparr>resp_status = 200, resp_body = render (version_object subject v i text) @ rest,
    resp_body_error = None\<rparr> :: HttpResponse"
  have "map_option res_version (decode_response ?resp) = Some v"
    by (rule decode_version_object [OF assms(1,2) _ assms(3)]) simp
  then show ?thesis by (simp add: version_answer_def answer_def StatusOK_def)
qed

text \<open>
  C22. What the client and the registry tell each other is read back. The body of the registration of
  a Schema is valid JSON and decodes to its text, its type and its references, in their order and
  with their versions as decimal numbers; the references are left out when there are none. The ID
  of an answer \<open>{"id": i}\<close> is read for every 64-bit \<open>i\<close>, negative ones and the bounds included, and so
  is the version of an answer about the latest version, whatever the subject and the schema text are
  and whatever follows the object.
\<close>

theorem bodies_read_back:
  assumes "request_utf8 (register_request s)" "utf8_valid subject" "utf8_valid text" "num_stop rest"
  shows "(\<exists>b. req_body (post_request c subject (register_request s)) = Some b \<and>
      json_parse b = Some (JObj
        ([(''schema'', JStr (spec_schema (sch_spec s))),
          (''schemaType'', JStr (spec_schemaType (sch_spec s)))] @
         (if spec_references (sch_spec s) = [] then []
          else [(''references'', JArr (map (\<lambda>ref. JObj
                  [(''name'', JStr (ref_name ref)), (''subject'', JStr (ref_subject ref)),
                   (''version'', JNum (fmt_d (ref_version ref)))]) (spec_references (sch_spec s))))])))) \<and>
    registered_id (answer 200 (render (id_answer i))) = Some i \<and>
    version_answer (answer 200 (render (version_object subject v j text) @ rest)) = Some v"
  by (intro conjI registration_body_decodes id_answer_read latest_version_read assms)

theorem bodies_read_back_witness:
  "(\<exists>b. req_body (post_request sample_client ''s'' (register_request sample_schema)) = Some b \<and>
    json_parse b = Some (JObj [(''schema'', JStr ''{}''), (''schemaType'', JStr ''AVRO'')])) \<and>
   registered_id (answer 200 (render (id_answer (- 1)))) = Some (- 1) \<and>
   version_answer (answer 200 (render (version_object ''s'' 3 (- 1) ''{}'') @ [])) = Some 3"
proof -
  have "request_utf8 (register_request sample_schema)" by code_simp
  from bodies_read_back [OF this, of "''s''" "''{}''" "[]" sample_client "- 1" 3 "- 1"]
  show ?thesis by (simp add: sample_schema_def num_stop_def utf8_valid_ascii del: render.simps)
qed

section \<open>Headers and credentials\<close>

text \<open>The headers of every request an operation of the client sends.\<close>

lemma client_call_headers:
  assumes "client_call E c subject q level w w'" "log w' = log w @ es" "HttpDone hc rq out \<in> set es"
  shows "header_get rq ''Authorization'' = auth_header (c_auth c)"
    and "header_get rq ''Content-Type'' =
      (if req_body rq = None then None else Some ''application/vnd.schemaregistry.v1+json'')"
  using client_call_sends [OF assms] request_bodies
  by (auto simp: request_defs plain_request_headers json_request_headers)

text \<open>
  C23. What \<open>loadAuthConfig\<close> returns is the configuration the reference definition gives for
  the Secrets it read: those the SchemaRegistry names, in its own namespace, each read once.
\<close>

theorem credentials_from_named_secrets:
  assumes "loadAuthConfig E sr w = (Inr a, w')" "log w' = log w @ es"
  shows "\<exists>ss. length ss = length (auth_secret_names sr) \<and>
    es = map2 (\<lambda>n s. GotSecret \<lparr>key_namespace = meta_namespace (sr_meta sr), key_name = n\<rparr> (Inr s))
      (auth_secret_names sr) ss \<and>
    a = auth_from E (auth_type_of sr) ss"
  using loadAuthConfig_loaded [OF assms(1)] assms(2)
  by (auto simp: loaded_def secret_reads_def secret_key_def)

theorem credentials_from_named_secrets_witness:
  "\<exists>a ss. fst (loadAuthConfig ref_env basic_registry health_world) = Inr a \<and>
     length ss = 1 \<and> a = auth_from ref_env ''BASIC'' ss"
proof -
  let ?run = "loadAuthConfig ref_env basic_registry health_world"
  have "\<not> isl (fst ?run)" by code_simp
  then obtain a where a: "fst ?run = Inr a" by (cases "fst ?run") auto
  then have eq: "?run = (Inr a, snd ?run)" by (cases ?run) simp
  have "log (snd ?run) = log health_world @ log (snd ?run)"
    by (simp add: health_world_def sample_world_def)
  moreover have "length (auth_secret_names basic_registry) = 1" "auth_type_of basic_registry = ''BASIC''"
    by code_simp+
  ultimately show ?thesis
    using credentials_from_named_secrets [OF eq] a by auto
qed

lemma NewClient_fields:
  assumes "NewClient url a t k = Inr c"
  shows "c_auth c = a"
    and "ac_type a = ''MTLS'' \<Longrightarrow> tls_certificates (hc_tls (c_httpClient c)) = [ac_clientCert a] \<and>
      tls_rootCAs (hc_tls (c_httpClient c)) = ac_caCert a"
  using assms by (auto simp: NewClient_def Let_def split: option.splits)

text \<open>The one Secret of a SchemaRegistry of type BASIC, and the header made from it.\<close>

lemma basic_credentials_loaded:
  assumes "loadAuthConfig E sr w = (Inr a, w')" "auth_type_of sr = AuthTypeBasic"
  shows "\<exists>s. log w' = log w @ map (\<lambda>n. GotSecret (secret_key sr n) (Inr s)) (auth_secret_names sr) \<and>
    auth_header a = Some (basic_auth_value (secret_value s ''username'') (secret_value s ''password''))"
proof -
  obtain es where l: "log w' = log w @ es" and "loaded E sr a es"
    using loadAuthConfig_loaded [OF assms(1)] by blast
  then obtain ss where ss: "length ss = length (auth_secret_names sr)" "es = secret_reads sr ss"
    and a: "a = auth_from E AuthTypeBasic ss" using assms(2) by (auto simp: loaded_def)
  have names: "length (auth_secret_names sr) \<le> 1"
    using assms(2) by (auto simp: auth_secret_names_def auth_type_of_def split: option.splits)
  let ?s = "ss ! 0"
  have "es = map (\<lambda>n. GotSecret (secret_key sr n) (Inr ?s)) (auth_secret_names sr)"
    using names ss
    by (cases ss; cases "auth_secret_names sr") (auto simp: secret_reads_def)
  moreover have "auth_header a = Some (basic_auth_value (secret_value ?s ''username'') (secret_value ?s ''password''))"
    using a by (simp add: auth_header_def auth_from_def initial_auth_def AuthTypeBasic_def)
  ultimately show ?thesis using l by (intro exI [of _ ?s]) simp
qed

text \<open>
  C24. The credentials arrive. Whatever operation of a client for a SchemaRegistry is called, each
  request it sends goes through the HTTP client built for it, carries the header made from the loaded
  configuration, and the registry's content type exactly when it has a body. When the
  SchemaRegistry is of type BASIC the server reads back from the header the user name and the
  password of the Secret, if the user name has no colon; with MTLS the HTTP client presents the
  loaded certificate and trusts the loaded pool.
\<close>

theorem credentials_arrive:
  assumes "loadAuthConfig E sr w = (Inr a, w')" "NewClient url a t k = Inr c"
    and "client_call E' c subject q level v v'" "log v' = log v @ es" "HttpDone hc rq out \<in> set es"
  shows "hc = c_httpClient c \<and> header_get rq ''Authorization'' = auth_header a \<and>
    header_get rq ''Content-Type'' =
      (if req_body rq = None then None else Some ''application/vnd.schemaregistry.v1+json'') \<and>
    (auth_type_of sr = AuthTypeBasic \<longrightarrow>
      (\<exists>s. log w' = log w @ map (\<lambda>n. GotSecret (secret_key sr n) (Inr s)) (auth_secret_names sr) \<and>
        (CHR '':'' \<notin> set (secret_value s ''username'') \<longrightarrow>
          Option.bind (header_get rq ''Authorization'') parse_basic_auth =
            Some (secret_value s ''username'', secret_value s ''password'')))) \<and>
    (ac_type a = AuthTypeMTLS \<longrightarrow>
      tls_certificates (hc_tls hc) = [ac_clientCert a] \<and> tls_rootCAs (hc_tls hc) = ac_caCert a)"
proof -
  note h = client_call_headers [OF assms(3-5)]
  note f = NewClient_fields [OF assms(2)]
  have "hc = c_httpClient c" using client_call_sends [OF assms(3-5)] by simp
  moreover have "\<exists>s. log w' = log w @ map (\<lambda>n. GotSecret (secret_key sr n) (Inr s)) (auth_secret_names sr) \<and>
        (CHR '':'' \<notin> set (secret_value s ''username'') \<longrightarrow>
          Option.bind (header_get rq ''Authorization'') parse_basic_auth =
            Some (secret_value s ''username'', secret_value s ''password''))"
    if "auth_type_of sr = AuthTypeBasic"
    using basic_credentials_loaded [OF assms(1) that] h(1) f(1) parse_basic_auth_value by auto
  ultimately show ?thesis using h f by (simp add: AuthTypeMTLS_def)
qed

theorem credentials_arrive_witness:
  "\<exists>c hc rq out. HttpDone hc rq out \<in> set (log (snd (HealthCheck ref_env c health_world))) \<and>
    header_get rq ''Authorization'' = Some (basic_auth_value ''alice'' ''pw'') \<and>
    Option.bind (header_get rq ''Authorization'') parse_basic_auth = Some (''alice'', ''pw'')"
proof -
  let ?run = "loadAuthConfig ref_env basic_registry health_world"
  let ?a = "(initial_auth ''BASIC'')\<lparr>ac_username := ''alice'', ac_password := ''pw''\<rparr>"
  let ?w = "health_world\<lparr>log := [GotSecret (secret_key basic_registry ''creds'') (Inr sample_secret)]\<rparr>"
  define c where "c = projr (NewClient [] ?a 0 False)"
  then have c: "NewClient [] ?a 0 False = Inr c" by (simp add: NewClient_def Let_def)
  have run: "?run = (Inr ?a, ?w)" by code_simp
  have type: "auth_type_of basic_registry = AuthTypeBasic" by code_simp
  have names: "auth_secret_names basic_registry = [''creds'']" by code_simp
  have vals: "secret_value sample_secret ''username'' = ''alice''" "secret_value sample_secret ''password'' = ''pw''"
    by code_simp+
  let ?v = "snd (HealthCheck ref_env c health_world)"
  have "case log ?v of [HttpDone hc rq out] \<Rightarrow> True | _ \<Rightarrow> False" unfolding c_def by code_simp
  then obtain hc rq out where e: "HttpDone hc rq out \<in> set (log ?v)"
    by (fastforce split: list.splits event.splits)
  have l: "log health_world = []" by (simp add: health_world_def sample_world_def)
  have op: "client_call ref_env c [] sample_request [] health_world ?v" by (simp add: client_call_def)
  have "log ?v = log health_world @ log ?v" using l by simp
  note t = credentials_arrive [OF run c op this e]
  have "auth_header ?a = Some (basic_auth_value ''alice'' ''pw'')"
    by (simp add: auth_header_def initial_auth_def)
  then have "header_get rq ''Authorization'' = Some (basic_auth_value ''alice'' ''pw'')" using t by simp
  moreover have "Option.bind (header_get rq ''Authorization'') parse_basic_auth = Some (''alice'', ''pw'')"
    using t type names vals l by auto
  ultimately show ?thesis using e by blast
qed

text \<open>
  C25. For an admitted SchemaRegistry the loader fails only after it has read a Secret: the
  webhook rules the errors about missing configuration out.
\<close>

theorem admitted_registry_loads:
  assumes "registry_ValidateCreate sr = None" "loadAuthConfig E sr w = (Inl e, w')"
  shows "\<exists>k out es. log w' = log w @ GotSecret k out # es"
  using admitted_load_failure [OF _ assms(2)] assms(1)
  by (simp add: registry_ValidateCreate_def validateSchemaRegistrySpec_None)

theorem admitted_registry_loads_witness:
  "\<exists>k out es. log (snd (loadAuthConfig ref_env basic_registry unread_world)) = GotSecret k out # es"
proof -
  let ?run = "loadAuthConfig ref_env basic_registry unread_world"
  have "isl (fst ?run)" by code_simp
  then obtain e where "fst ?run = Inl e" by (cases "fst ?run") auto
  then have eq: "?run = (Inl e, snd ?run)" by (cases ?run) simp
  have "registry_ValidateCreate basic_registry = None" by code_simp
  from admitted_registry_loads [OF this eq] show ?thesis
    by (simp add: unread_world_def sample_world_def Let_def)
qed

section \<open>URLs and the timeout\<close>

lemma delete_subject_sends:
  assumes "HttpDone hc rq out \<in> set es" "log (snd (DeleteSubject E c s w)) = log w @ es"
  shows "hc = c_httpClient c \<and> rq = delete_request c s"
  using contract_sends(4) delete_op.events_contract [of E c s w, OF prod.collapse [symmetric] assms(2)]
    assms(1) by blast

text \<open>
  C26. Plain subjects are kept apart. Let the base URL have none of the characters \<open>#\<close>, \<open>?\<close> and \<open>%\<close>, and
  two subjects none of these and no slash. Of any two requests that operations of the client send
  about the one and about the other, the registry reads the same resource in the request lines only
  if they are the same operation on the same subject, or both the health check: it is the method
  and the subject that decide, through the parsing and escaping of URLs by \<open>net/url\<close>.
\<close>

theorem plain_subjects_kept_apart:
  assumes "plain_base (c_baseURL c)" "plain_subject s" "plain_subject t"
    and "client_call E c s q l w w'" "log w' = log w @ es" "HttpDone hc rq out \<in> set es"
    and "client_call E' c t q' l' v v'" "log v' = log v @ fs" "HttpDone hc' rq' out' \<in> set fs"
  shows "resource (req_url rq) = resource (req_url rq') \<longleftrightarrow>
    req_method rq = req_method rq' \<and>
    (if rq = health_request c \<or> rq' = health_request c then rq = rq' else s = t)"
proof -
  note sent = client_call_sends [OF assms(4-6)] client_call_sends [OF assms(7-9)]
  have "req_url rq \<in> set (client_urls c s)" "req_url rq' \<in> set (client_urls c t)"
    using sent by (auto simp: client_urls_def)
  then have "resource (req_url rq) = resource (req_url rq') \<longleftrightarrow> req_url rq = req_url rq'"
    by (rule client_resources_inject [OF assms(1-3)])
  moreover note inj = client_urls_inject [OF assms(2,3)] client_urls_inject [OF assms(3,2), symmetric]
    client_urls_inject(8,11,13,14) [OF assms(2,2)]
  have "req_url rq = req_url rq' \<longleftrightarrow> req_method rq = req_method rq' \<and>
    (if rq = health_request c \<or> rq' = health_request c then rq = rq' else s = t)"
    using sent [THEN conjunct2] by (elim insertE emptyE) (simp_all add: inj method_defs)
  ultimately show ?thesis by simp
qed

theorem plain_subjects_kept_apart_witness:
  "\<exists>rq rq'. (\<exists>hc out. HttpDone hc rq out \<in> set (log (snd (DeleteSubject ref_env sample_client ''a'' deleted_answer)))) \<and>
    (\<exists>hc out. HttpDone hc rq' out \<in> set (log (snd (DeleteSubject ref_env sample_client ''b'' deleted_answer)))) \<and>
    resource (req_url rq) \<noteq> resource (req_url rq')"
proof -
  have sent: "\<exists>hc rq out. HttpDone hc rq out \<in> set (log (snd (DeleteSubject ref_env sample_client s deleted_answer)))"
    if "s = ''a'' \<or> s = ''b''" for s
  proof -
    have "case log (snd (DeleteSubject ref_env sample_client ''a'' deleted_answer)) of
        [HttpDone hc rq out] \<Rightarrow> True | _ \<Rightarrow> False"
      "case log (snd (DeleteSubject ref_env sample_client ''b'' deleted_answer)) of
        [HttpDone hc rq out] \<Rightarrow> True | _ \<Rightarrow> False" by code_simp+
    then show ?thesis using that by (fastforce split: list.splits event.splits)
  qed
  obtain hc rq out where a: "HttpDone hc rq out \<in> set (log (snd (DeleteSubject ref_env sample_client ''a'' deleted_answer)))"
    using sent by blast
  obtain hc' rq' out' where b: "HttpDone hc' rq' out' \<in> set (log (snd (DeleteSubject ref_env sample_client ''b'' deleted_answer)))"
    using sent by blast
  have p: "plain_base (c_baseURL sample_client)" "plain_subject ''a''" "plain_subject ''b''" by code_simp+
  have call: "client_call ref_env sample_client s sample_request [] deleted_answer
      (snd (DeleteSubject ref_env sample_client s deleted_answer))" for s
    by (simp add: client_call_def)
  have l: "log v = log deleted_answer @ log v" for v :: "cluster world" by simp
  have m: "req_method rq = MethodDelete"
    using delete_subject_sends [OF a l] by simp
  then have "rq \<noteq> health_request sample_client" by (auto simp: method_defs)
  moreover have "rq' \<noteq> health_request sample_client"
    using delete_subject_sends [OF b l] by simp
  ultimately show ?thesis
    using plain_subjects_kept_apart [OF p call l a call l b] a b by auto
qed

text \<open>
  C28. The timeout of the client is the configured number of seconds, and 30 seconds for 0, up
  to the largest number whose nanoseconds fit into 64 bits, 9223372036. One second more and the
  product wraps around: the webhook admits such a SchemaRegistry and the client gets a negative
  timeout, with which \<open>net/http\<close> sets no deadline.
\<close>

theorem timeout_in_seconds:
  assumes "registry_ValidateCreate sr = None"
  shows "(sint (sr_timeout (sr_spec sr)) \<le> 9223372036 \<longrightarrow>
      sint (clientTimeout sr) =
        (if sr_timeout (sr_spec sr) = 0 then 30 else sint (sr_timeout (sr_spec sr))) * 1000000000) \<and>
    (sr_timeout (sr_spec sr) = 9223372037 \<longrightarrow> sint (clientTimeout sr) < 0)"
proof -
  have "0 \<le> sint (sr_timeout (sr_spec sr))"
    using assms registry_admission.create_iff [of sr] by (simp add: registry_ok_def)
  moreover have "sint (9223372037 * time_Second :: duration) < 0" "9223372037 * time_Second \<noteq> 0"
    by code_simp+
  ultimately show ?thesis using clientTimeout_value [of sr] by (simp add: clientTimeout_def Let_def)
qed

theorem timeout_in_seconds_witness:
  "registry_ValidateCreate sample_registry = None \<and> sint (clientTimeout sample_registry) = 30000000000 \<and>
   registry_ValidateCreate patient_registry = None \<and> sint (clientTimeout patient_registry) < 0"
proof -
  have a: "registry_ValidateCreate sample_registry = None" "registry_ValidateCreate patient_registry = None"
    by code_simp+
  have t: "sr_timeout (sr_spec sample_registry) = 0" "sr_timeout (sr_spec patient_registry) = 9223372037"
    by (simp_all add: sample_registry_def patient_registry_def)
  show ?thesis using timeout_in_seconds [OF a(1)] timeout_in_seconds [OF a(2)] a t by simp
qed

end
