(* ===== verification/ApiJson.thy ===== *)
theory ApiJson
  imports RegistryRequests
begin

text \<open>
  The specifications of the two resources as the API server keeps them: the JSON members their
  struct tags name (\<open>schema_types.go\<close>, \<open>schemaregistry_types.go\<close>), with \<open>omitempty\<close> where the tag has
  it, and the decoding of such an object into the struct. The decoder of the API machinery
  matches keys exactly; otherwise it stores values as \<open>encoding/json\<close> does.
\<close>

section \<open>Writing\<close>

definition omit_string :: "string \<Rightarrow> string \<Rightarrow> (string \<times> json) list" where
  "omit_string k t = (if t = [] then [] else [(k, JStr t)])"

definition omit_int :: "string \<Rightarrow> go_int \<Rightarrow> (string \<times> json) list" where
  "omit_int k i = (if i = 0 then [] else [(k, JNum (fmt_d i))])"

definition omit_bool :: "string \<Rightarrow> bool \<Rightarrow> (string \<times> json) list" where
  "omit_bool k b = (if b then [(k, JBool True)] else [])"

definition omit_nil :: "string \<Rightarrow> ('a \<Rightarrow> json) \<Rightarrow> 'a option \<Rightarrow> (string \<times> json) list" where
  "omit_nil k enc p = (case p of None \<Rightarrow> [] | Some x \<Rightarrow> [(k, enc x)])"

definition omit_slice :: "string \<Rightarrow> ('a \<Rightarrow> json) \<Rightarrow> 'a list \<Rightarrow> (string \<times> json) list" where
  "omit_slice k enc xs = (if xs = [] then [] else [(k, JArr (map enc xs))])"

lemmas omit_defs = omit_string_def omit_int_def omit_bool_def omit_nil_def omit_slice_def

definition SchemaReference_json :: "SchemaReference \<Rightarrow> json" where
  "SchemaReference_json r =
     JObj [(''name'', JStr (ref_name r)), (''subject'', JStr (ref_subject r)),
           (''version'', JNum (fmt_d (ref_version r)))]"

definition SchemaRegistryRef_json :: "SchemaRegistryRef \<Rightarrow> json" where
  "SchemaRegistryRef_json r =
     JObj ([(''name'', JStr (rr_name r))] @ omit_string ''namespace'' (rr_namespace r))"

definition SchemaSpec_json :: "SchemaSpec \<Rightarrow> json" where
  "SchemaSpec_json s =
     JObj ([(''subject'', JStr (spec_subject s)), (''schemaType'', JStr (spec_schemaType s)),
            (''schema'', JStr (spec_schema s))] @
           omit_slice ''references'' SchemaReference_json (spec_references s) @
           [(''registryRef'', SchemaRegistryRef_json (spec_registryRef s))] @
           omit_string ''compatibilityLevel'' (spec_compatibilityLevel s))"

definition BasicAuthConfig_json :: "BasicAuthConfig \<Rightarrow> json" where
  "BasicAuthConfig_json b = JObj [(''secretRef'', JStr (basic_secretRef b))]"

definition BearerAuthConfig_json :: "BearerAuthConfig \<Rightarrow> json" where
  "BearerAuthConfig_json b = JObj [(''secretRef'', JStr (bearer_secretRef b))]"

definition MTLSConfig_json :: "MTLSConfig \<Rightarrow> json" where
  "MTLSConfig_json m =
     JObj ([(''certSecretRef'', JStr (mtls_certSecretRef m))] @
           omit_string ''caSecretRef'' (mtls_caSecretRef m))"

definition ApiAuthConfig_json :: "ApiAuthConfig \<Rightarrow> json" where
  "ApiAuthConfig_json a =
     JObj ([(''type'', JStr (auth_type a))] @
           omit_nil ''basicAuth'' BasicAuthConfig_json (auth_basicAuth a) @
           omit_nil ''bearerAuth'' BearerAuthConfig_json (auth_bearerAuth a) @
           omit_nil ''mtls'' MTLSConfig_json (auth_mtls a))"

definition SchemaRegistrySpec_json :: "SchemaRegistrySpec \<Rightarrow> json" where
  "SchemaRegistrySpec_json r =
     JObj ([(''url'', JStr (sr_url r))] @
           omit_nil ''auth'' ApiAuthConfig_json (sr_auth r) @
           omit_bool ''insecureSkipVerify'' (sr_insecureSkipVerify r) @
           omit_int ''timeout'' (sr_timeout r))"

section \<open>Reading\<close>

definition store_bool :: "json \<Rightarrow> bool \<Rightarrow> bool option" where
  "store_bool v old =
     (case v of
        JBool b \<Rightarrow> Some b
      | JNull \<Rightarrow> Some old
      | _ \<Rightarrow> None)"

text \<open>A slice is made anew, a pointer is allocated when it is nil; \<open>null\<close> clears either.\<close>

fun read_all :: "('a \<Rightarrow> 'b option) \<Rightarrow> 'a list \<Rightarrow> 'b list option" where
  "read_all f [] = Some []"
| "read_all f (v # vs) =
     (case f v of None \<Rightarrow> None | Some x \<Rightarrow> map_option ((#) x) (read_all f vs))"

definition store_slice :: "(json \<Rightarrow> 'a option) \<Rightarrow> json \<Rightarrow> 'a list option" where
  "store_slice rd v =
     (case v of
        JArr vs \<Rightarrow> read_all rd vs
      | JNull \<Rightarrow> Some []
      | _ \<Rightarrow> None)"

definition store_pointer ::
  "(string \<Rightarrow> json \<Rightarrow> 'a \<Rightarrow> 'a option) \<Rightarrow> 'a \<Rightarrow> json \<Rightarrow> 'a option \<Rightarrow> 'a option option" where
  "store_pointer st zero v old =
     (case v of
        JNull \<Rightarrow> Some None
      | _ \<Rightarrow> map_option Some (store_struct st (case old of None \<Rightarrow> zero | Some x \<Rightarrow> x) v))"

definition store_reference :: "string \<Rightarrow> json \<Rightarrow> SchemaReference \<Rightarrow> SchemaReference option" where
  "store_reference k v r =
     (if k = ''name'' then map_option (\<lambda>t. r\<lparr>ref_name := t\<rparr>) (store_string v (ref_name r))
      else if k = ''subject'' then map_option (\<lambda>t. r\<lparr>ref_subject := t\<rparr>) (store_string v (ref_subject r))
      else if k = ''version'' then map_option (\<lambda>i. r\<lparr>ref_version := i\<rparr>) (store_int v (ref_version r))
      else Some r)"

definition store_registry_ref :: "string \<Rightarrow> json \<Rightarrow> SchemaRegistryRef \<Rightarrow> SchemaRegistryRef option" where
  "store_registry_ref k v r =
     (if k = ''name'' then map_option (\<lambda>t. r\<lparr>rr_name := t\<rparr>) (store_string v (rr_name r))
      else if k = ''namespace'' then map_option (\<lambda>t. r\<lparr>rr_namespace := t\<rparr>) (store_string v (rr_namespace r))
      else Some r)"

definition zero_reference :: SchemaReference where
  "zero_reference = \<lparr>ref_name = [], ref_subject = [], ref_version = 0\<rparr>"

definition store_schema_spec :: "string \<Rightarrow> json \<Rightarrow> SchemaSpec \<Rightarrow> SchemaSpec option" where
  "store_schema_spec k v s =
     (if k = ''subject'' then map_option (\<lambda>t. s\<lparr>spec_subject := t\<rparr>) (store_string v (spec_subject s))
      else if k = ''schemaType'' then
        map_option (\<lambda>t. s\<lparr>spec_schemaType := t\<rparr>) (store_string v (spec_schemaType s))
      else if k = ''schema'' then map_option (\<lambda>t. s\<lparr>spec_schema := t\<rparr>) (store_string v (spec_schema s))
      else if k = ''references'' then
        map_option (\<lambda>rs. s\<lparr>spec_references := rs\<rparr>)
          (store_slice (store_struct store_reference zero_reference) v)
      else if k = ''registryRef'' then
        map_option (\<lambda>r. s\<lparr>spec_registryRef := r\<rparr>)
          (store_struct store_registry_ref (spec_registryRef s) v)
      else if k = ''compatibilityLevel'' then
        map_option (\<lambda>t. s\<lparr>spec_compatibilityLevel := t\<rparr>) (store_string v (spec_compatibilityLevel s))
      else Some s)"

definition read_SchemaSpec :: "json \<Rightarrow> SchemaSpec option" where
  "read_SchemaSpec v =
     store_struct store_schema_spec
       \<lparr>spec_subject = [], spec_schemaType = [], spec_schema = [], spec_references = [],
        spec_registryRef = \<lparr>rr_name = [], rr_namespace = []\<rparr>, spec_compatibilityLevel = []\<rparr> v"

definition store_basic :: "string \<Rightarrow> json \<Rightarrow> BasicAuthConfig \<Rightarrow> BasicAuthConfig option" where
  "store_basic k v b =
     (if k = ''secretRef'' then map_option (\<lambda>t. b\<lparr>basic_secretRef := t\<rparr>) (store_string v (basic_secretRef b))
      else Some b)"

definition store_bearer :: "string \<Rightarrow> json \<Rightarrow> BearerAuthConfig \<Rightarrow> BearerAuthConfig option" where
  "store_bearer k v b =
     (if k = ''secretRef'' then map_option (\<lambda>t. b\<lparr>bearer_secretRef := t\<rparr>) (store_string v (bearer_secretRef b))
      else Some b)"

definition store_mtls :: "string \<Rightarrow> json \<Rightarrow> MTLSConfig \<Rightarrow> MTLSConfig option" where
  "store_mtls k v m =
     (if k = ''certSecretRef'' then
        map_option (\<lambda>t. m\<lparr>mtls_certSecretRef := t\<rparr>) (store_string v (mtls_certSecretRef m))
      else if k = ''caSecretRef'' then
        map_option (\<lambda>t. m\<lparr>mtls_caSecretRef := t\<rparr>) (store_string v (mtls_caSecretRef m))
      else Some m)"

definition store_auth :: "string \<Rightarrow> json \<Rightarrow> ApiAuthConfig \<Rightarrow> ApiAuthConfig option" where
  "store_auth k v a =
     (if k = ''type'' then map_option (\<lambda>t. a\<lparr>auth_type := t\<rparr>) (store_string v (auth_type a))
      else if k = ''basicAuth'' then
        map_option (\<lambda>p. a\<lparr>auth_basicAuth := p\<rparr>)
          (store_pointer store_basic \<lparr>basic_secretRef = []\<rparr> v (auth_basicAuth a))
      else if k = ''bearerAuth'' then
        map_option (\<lambda>p. a\<lparr>auth_bearerAuth := p\<rparr>)
          (store_pointer store_bearer \<lparr>bearer_secretRef = []\<rparr> v (auth_bearerAuth a))
      else if k = ''mtls'' then
        map_option (\<lambda>p. a\<lparr>auth_mtls := p\<rparr>)
          (store_pointer store_mtls \<lparr>mtls_certSecretRef = [], mtls_caSecretRef = []\<rparr> v (auth_mtls a))
      else Some a)"

definition zero_auth :: ApiAuthConfig where
  "zero_auth = \<lparr>auth_type = [], auth_basicAuth = None, auth_bearerAuth = None, auth_mtls = None\<rparr>"

definition store_registry_spec :: "string \<Rightarrow> json \<Rightarrow> SchemaRegistrySpec \<Rightarrow> SchemaRegistrySpec option" where
  "store_registry_spec k v r =
     (if k = ''url'' then map_option (\<lambda>t. r\<lparr>sr_url := t\<rparr>) (store_string v (sr_url r))
      else if k = ''auth'' then
        map_option (\<lambda>p. r\<lparr>sr_auth := p\<rparr>) (store_pointer store_auth zero_auth v (sr_auth r))
      else if k = ''insecureSkipVerify'' then
        map_option (\<lambda>b. r\<lparr>sr_insecureSkipVerify := b\<rparr>) (store_bool v (sr_insecureSkipVerify r))
      else if k = ''timeout'' then map_option (\<lambda>i. r\<lparr>sr_timeout := i\<rparr>) (store_int v (sr_timeout r))
      else Some r)"

definition read_SchemaRegistrySpec :: "json \<Rightarrow> SchemaRegistrySpec option" where
  "read_SchemaRegistrySpec v =
     store_struct store_registry_spec
       \<lparr>sr_url = [], sr_auth = None, sr_insecureSkipVerify = False, sr_timeout = 0\<rparr> v"

section \<open>Reading what was written\<close>

lemma store_members_append:
  "store_members st (ms @ ns) a =
     (case store_members st ms a of None \<Rightarrow> None | Some b \<Rightarrow> store_members st ns b)"
  by (induction ms arbitrary: a) (auto split: option.splits)

lemma read_all_map: "(\<And>x. x \<in> set xs \<Longrightarrow> f (g x) = Some x) \<Longrightarrow> read_all f (map g xs) = Some xs"
  by (induction xs) auto

lemmas store_defs = store_struct_def store_string_def store_int_def store_bool_def store_slice_def
  store_pointer_def

lemma read_reference: "store_struct store_reference z (SchemaReference_json r) = Some r"
  by (simp add: SchemaReference_json_def store_reference_def store_defs parse_int64_fmt_d)

lemma read_registry_ref:
  "store_struct store_registry_ref \<lparr>rr_name = [], rr_namespace = []\<rparr> (SchemaRegistryRef_json r) = Some r"
  by (simp add: SchemaRegistryRef_json_def store_registry_ref_def store_defs omit_string_def)

lemma read_SchemaSpec_json: "read_SchemaSpec (SchemaSpec_json s) = Some s"
proof -
  have "read_all (store_struct store_reference zero_reference) (map SchemaReference_json rs) = Some rs" for rs
    by (rule read_all_map) (rule read_reference)
  moreover have "\<exists>ms. SchemaRegistryRef_json (spec_registryRef s) = JObj ms"
    by (simp add: SchemaRegistryRef_json_def)
  ultimately show ?thesis
    using read_registry_ref [of "spec_registryRef s"]
    by (simp add: read_SchemaSpec_def SchemaSpec_json_def store_schema_spec_def store_struct_def [of store_schema_spec]
        store_string_def store_slice_def omit_slice_def omit_string_def)
qed

lemma read_auth_blocks:
  "store_pointer store_basic z1 (BasicAuthConfig_json b) None = Some (Some b)"
  "store_pointer store_bearer z2 (BearerAuthConfig_json t) None = Some (Some t)"
  "store_pointer store_mtls \<lparr>mtls_certSecretRef = [], mtls_caSecretRef = []\<rparr> (MTLSConfig_json m) None = Some (Some m)"
  by (simp_all add: BasicAuthConfig_json_def BearerAuthConfig_json_def MTLSConfig_json_def store_basic_def
      store_bearer_def store_mtls_def store_defs omit_string_def)

lemma store_auth_members:
  "store_members store_auth (omit_nil ''basicAuth'' BasicAuthConfig_json p) (a\<lparr>auth_basicAuth := None\<rparr>) =
     Some (a\<lparr>auth_basicAuth := p\<rparr>)"
  "store_members store_auth (omit_nil ''bearerAuth'' BearerAuthConfig_json q) (a\<lparr>auth_bearerAuth := None\<rparr>) =
     Some (a\<lparr>auth_bearerAuth := q\<rparr>)"
  "store_members store_auth (omit_nil ''mtls'' MTLSConfig_json r) (a\<lparr>auth_mtls := None\<rparr>) =
     Some (a\<lparr>auth_mtls := r\<rparr>)"
  by (auto simp: store_auth_def omit_nil_def read_auth_blocks split: option.splits)

lemma read_auth: "store_struct store_auth zero_auth (ApiAuthConfig_json a) = Some a"
proof -
  have type: "store_auth ''type'' (JStr (auth_type a)) zero_auth = Some (zero_auth\<lparr>auth_type := auth_type a\<rparr>)"
    by (simp add: store_auth_def store_string_def)
  note m1 = store_auth_members(1) [of "auth_basicAuth a" "zero_auth\<lparr>auth_type := auth_type a\<rparr>"]
  note m2 = store_auth_members(2) [of "auth_bearerAuth a"
      "zero_auth\<lparr>auth_type := auth_type a, auth_basicAuth := auth_basicAuth a\<rparr>"]
  note m3 = store_auth_members(3) [of "auth_mtls a" "zero_auth\<lparr>auth_type := auth_type a,
      auth_basicAuth := auth_basicAuth a, auth_bearerAuth := auth_bearerAuth a\<rparr>"]
  show ?thesis
    using type m1 m2 m3
    by (simp add: ApiAuthConfig_json_def store_struct_def [of store_auth] store_members_append zero_auth_def)
qed

lemma read_SchemaRegistrySpec_json: "read_SchemaRegistrySpec (SchemaRegistrySpec_json r) = Some r"
proof -
  have "store_pointer store_auth zero_auth (ApiAuthConfig_json a) None = Some (Some a)" for a
    using read_auth [of a] by (simp add: store_pointer_def ApiAuthConfig_json_def)
  then show ?thesis
    by (simp add: read_SchemaRegistrySpec_def SchemaRegistrySpec_json_def store_registry_spec_def
        store_struct_def [of store_registry_spec] store_string_def store_int_def store_bool_def
        omit_nil_def omit_bool_def omit_int_def parse_int64_fmt_d split: option.splits)
qed

section \<open>Strings are UTF-8\<close>

definition present_ok :: "('a \<Rightarrow> bool) \<Rightarrow> 'a option \<Rightarrow> bool" where
  "present_ok ok p \<longleftrightarrow> (case p of None \<Rightarrow> True | Some x \<Rightarrow> ok x)"

lemma present_ok_iff: "present_ok ok p \<longleftrightarrow> (\<forall>x. p = Some x \<longrightarrow> ok x)"
  by (simp add: present_ok_def split: option.splits)

definition spec_utf8 :: "SchemaSpec \<Rightarrow> bool" where
  "spec_utf8 s \<longleftrightarrow>
     list_all utf8_valid [spec_subject s, spec_schemaType s, spec_schema s, rr_name (spec_registryRef s),
       rr_namespace (spec_registryRef s), spec_compatibilityLevel s] \<and>
     list_all (\<lambda>r. utf8_valid (ref_name r) \<and> utf8_valid (ref_subject r)) (spec_references s)"

definition auth_utf8 :: "ApiAuthConfig \<Rightarrow> bool" where
  "auth_utf8 a \<longleftrightarrow>
     utf8_valid (auth_type a) \<and>
     present_ok (\<lambda>b. utf8_valid (basic_secretRef b)) (auth_basicAuth a) \<and>
     present_ok (\<lambda>b. utf8_valid (bearer_secretRef b)) (auth_bearerAuth a) \<and>
     present_ok (\<lambda>m. utf8_valid (mtls_certSecretRef m) \<and> utf8_valid (mtls_caSecretRef m)) (auth_mtls a)"

definition registry_utf8 :: "SchemaRegistrySpec \<Rightarrow> bool" where
  "registry_utf8 r \<longleftrightarrow> utf8_valid (sr_url r) \<and> present_ok auth_utf8 (sr_auth r)"

lemma SchemaSpec_json_wf: "spec_utf8 s \<Longrightarrow> 3 \<le> d \<Longrightarrow> json_wf d (SchemaSpec_json s)"
  by (auto simp: SchemaSpec_json_def spec_utf8_def SchemaReference_json_def SchemaRegistryRef_json_def
      omit_slice_def omit_string_def list_all_iff num_ok_fmt_d)

lemma ApiAuthConfig_json_wf: "auth_utf8 a \<Longrightarrow> 2 \<le> d \<Longrightarrow> json_wf d (ApiAuthConfig_json a)"
  by (auto simp: ApiAuthConfig_json_def auth_utf8_def BasicAuthConfig_json_def BearerAuthConfig_json_def
      MTLSConfig_json_def omit_nil_def omit_string_def present_ok_def split: option.splits)

lemma SchemaRegistrySpec_json_wf: "registry_utf8 r \<Longrightarrow> 3 \<le> d \<Longrightarrow> json_wf d (SchemaRegistrySpec_json r)"
  by (auto simp: SchemaRegistrySpec_json_def registry_utf8_def omit_nil_def omit_bool_def omit_int_def
      num_ok_fmt_d present_ok_def intro!: ApiAuthConfig_json_wf split: option.splits)

end
