(* ===== verification/CrdSchema.thy ===== *)
theory CrdSchema
  imports ApiJson
begin

text \<open>
  The structural schemas of the two CustomResourceDefinitions (\<open>config/crd/bases\<close>, generated from
  the kubebuilder markers of \<open>schema_types.go\<close> and \<open>schemaregistry_types.go\<close>), the defaulting and the
  validation the API server documents for such a schema, and what the webhooks add to them. The
  schemas have types, required members, defaults, enumerations, a minimal length, a minimum and a
  pattern; the constraint on a string or an integer is a predicate. Integers are those of \<open>int64\<close>.
\<close>

section \<open>Structural schemas\<close>

datatype openapi =
    OString "string \<Rightarrow> bool"
  | OInteger "int \<Rightarrow> bool"
  | OBoolean
  | OArray openapi
  | OObject "member list"
and member = Member string bool "json option" openapi

text \<open>A member has its name, whether it is required, its default and its schema.\<close>

fun conforms :: "openapi \<Rightarrow> json \<Rightarrow> bool"
  and conforms_members :: "member list \<Rightarrow> (string \<times> json) list \<Rightarrow> bool"
where
  "conforms (OString P) v = (case v of JStr t \<Rightarrow> P t | _ \<Rightarrow> False)"
| "conforms (OInteger P) v =
     (case v of JNum t \<Rightarrow> (case parse_int64 t of None \<Rightarrow> False | Some i \<Rightarrow> P (sint i)) | _ \<Rightarrow> False)"
| "conforms OBoolean v = (case v of JBool b \<Rightarrow> True | _ \<Rightarrow> False)"
| "conforms (OArray s) v = (case v of JArr vs \<Rightarrow> list_all (conforms s) vs | _ \<Rightarrow> False)"
| "conforms (OObject fs) v = (case v of JObj ms \<Rightarrow> conforms_members fs ms | _ \<Rightarrow> False)"
| "conforms_members [] ms = True"
| "conforms_members (Member k req d s # fs) ms =
     ((case map_of ms k of None \<Rightarrow> \<not> req | Some v \<Rightarrow> conforms s v) \<and> conforms_members fs ms)"

text \<open>Defaults are filled in from the outside to the inside, before the validation.\<close>

fun defaulted :: "openapi \<Rightarrow> json \<Rightarrow> json"
  and default_members :: "member list \<Rightarrow> (string \<times> json) list \<Rightarrow> (string \<times> json) list"
where
  "defaulted (OArray s) v = (case v of JArr vs \<Rightarrow> JArr (map (defaulted s) vs) | _ \<Rightarrow> v)"
| "defaulted (OObject fs) v = (case v of JObj ms \<Rightarrow> JObj (default_members fs ms) | _ \<Rightarrow> v)"
| "defaulted (OString P) v = v"
| "defaulted (OInteger P) v = v"
| "defaulted OBoolean v = v"
| "default_members [] ms = ms"
| "default_members (Member k req d s # fs) ms =
     default_members fs
       (case map_of ms k of
          Some v \<Rightarrow> AList.update k (defaulted s v) ms
        | None \<Rightarrow> (case d of None \<Rightarrow> ms | Some v \<Rightarrow> ms @ [(k, v)]))"

section \<open>The schemas of the repository\<close>

definition any_string :: openapi where
  "any_string = OString (\<lambda>t. True)"

definition nonempty_string :: openapi where
  "nonempty_string = OString (\<lambda>t. t \<noteq> [])"

definition enum_string :: "string list \<Rightarrow> openapi" where
  "enum_string ts = OString (\<lambda>t. t \<in> set ts)"

definition compatibility_levels :: "string list" where
  "compatibility_levels =
     [''BACKWARD'', ''BACKWARD_TRANSITIVE'', ''FORWARD'', ''FORWARD_TRANSITIVE'', ''FULL'',
      ''FULL_TRANSITIVE'', ''NONE'']"

definition schema_types :: "string list" where
  "schema_types = [SchemaTypeAvro, SchemaTypeJSON, SchemaTypeProtobuf]"

definition auth_types :: "string list" where
  "auth_types = [AuthTypeNone, AuthTypeBasic, AuthTypeBearer, AuthTypeMTLS]"

text \<open>The pattern \<open>^https?://.*\<close>.\<close>

definition http_url :: "string \<Rightarrow> bool" where
  "http_url t \<longleftrightarrow> take 7 t = ''http://'' \<or> take 8 t = ''https://''"

definition reference_crd :: openapi where
  "reference_crd = OObject
     [Member ''name'' True None any_string,
      Member ''subject'' True None any_string,
      Member ''version'' True None (OInteger (\<lambda>i. True))]"

definition registry_ref_crd :: openapi where
  "registry_ref_crd = OObject
     [Member ''name'' True None any_string,
      Member ''namespace'' False None any_string]"

definition schema_spec_crd :: openapi where
  "schema_spec_crd = OObject
     [Member ''compatibilityLevel'' False None (enum_string compatibility_levels),
      Member ''references'' False None (OArray reference_crd),
      Member ''registryRef'' True None registry_ref_crd,
      Member ''schema'' True None nonempty_string,
      Member ''schemaType'' True (Some (JStr ''AVRO'')) (enum_string schema_types),
      Member ''subject'' True None nonempty_string]"

definition secret_ref_crd :: openapi where
  "secret_ref_crd = OObject [Member ''secretRef'' True None any_string]"

definition mtls_crd :: openapi where
  "mtls_crd = OObject
     [Member ''caSecretRef'' False None any_string,
      Member ''certSecretRef'' True None any_string]"

definition auth_crd :: openapi where
  "auth_crd = OObject
     [Member ''basicAuth'' False None secret_ref_crd,
      Member ''bearerAuth'' False None secret_ref_crd,
      Member ''mtls'' False None mtls_crd,
      Member ''type'' True (Some (JStr ''NONE'')) (enum_string auth_types)]"

definition registry_spec_crd :: openapi where
  "registry_spec_crd = OObject
     [Member ''auth'' False None auth_crd,
      Member ''insecureSkipVerify'' False (Some (JBool False)) OBoolean,
      Member ''timeout'' False (Some (JNum ''30'')) (OInteger (\<lambda>i. 1 \<le> i)),
      Member ''url'' True None (OString http_url)]"

section \<open>Which objects conform\<close>

definition crd_schema_ok :: "SchemaSpec \<Rightarrow> bool" where
  "crd_schema_ok s \<longleftrightarrow>
     spec_subject s \<noteq> [] \<and> spec_schema s \<noteq> [] \<and> spec_schemaType s \<in> set schema_types \<and>
     (spec_compatibilityLevel s = [] \<or> spec_compatibilityLevel s \<in> set compatibility_levels)"

definition crd_registry_ok :: "SchemaRegistrySpec \<Rightarrow> bool" where
  "crd_registry_ok r \<longleftrightarrow>
     http_url (sr_url r) \<and> (sr_timeout r = 0 \<or> 1 \<le> sint (sr_timeout r)) \<and>
     present_ok (\<lambda>a. auth_type a \<in> set auth_types) (sr_auth r)"

lemma conforms_leaf [simp]:
  "conforms any_string (JStr t)"
  "conforms nonempty_string (JStr t) \<longleftrightarrow> t \<noteq> []"
  "conforms (enum_string ts) (JStr t) \<longleftrightarrow> t \<in> set ts"
  by (simp_all add: any_string_def nonempty_string_def enum_string_def)

declare map_of_append [simp del]

lemma map_of_omit [simp]:
  "map_of (omit_string k t @ ms) k' = (if k = k' \<and> t \<noteq> [] then Some (JStr t) else map_of ms k')"
  "map_of (omit_bool k b @ ms) k' = (if k = k' \<and> b then Some (JBool True) else map_of ms k')"
  "map_of (omit_int k i @ ms) k' = (if k = k' \<and> i \<noteq> 0 then Some (JNum (fmt_d i)) else map_of ms k')"
  "map_of (omit_nil k enc q @ ms) k' =
     (if k = k' then (case q of None \<Rightarrow> map_of ms k' | Some x \<Rightarrow> Some (enc x)) else map_of ms k')"
  "map_of (omit_nil k enc q) k' = (if k = k' then (case q of None \<Rightarrow> None | Some x \<Rightarrow> Some (enc x)) else None)"
  "map_of (omit_bool k b) k' = (if k = k' \<and> b then Some (JBool True) else None)"
  "map_of (omit_int k i) k' = (if k = k' \<and> i \<noteq> 0 then Some (JNum (fmt_d i)) else None)"
  "map_of (omit_string k t) k' = (if k = k' \<and> t \<noteq> [] then Some (JStr t) else None)"
  by (auto simp: omit_defs split: option.splits)

lemma update_same: "map_of ms k = Some v \<Longrightarrow> AList.update k v ms = ms"
  by (induction ms) auto

lemma default_step:
  assumes "case map_of ms k of None \<Rightarrow> d = None | Some v \<Rightarrow> defaulted s v = v"
  shows "default_members (Member k req d s # fs) ms = default_members fs ms"
  using assms by (auto simp: update_same split: option.splits)

lemma leaf_defaulted [simp]:
  "defaulted any_string v = v" "defaulted nonempty_string v = v" "defaulted (enum_string ts) v = v"
  by (simp_all add: any_string_def nonempty_string_def enum_string_def)

lemma block_conforms [simp]:
  "conforms reference_crd (SchemaReference_json ref)"
  "conforms registry_ref_crd (SchemaRegistryRef_json rr)"
  "conforms secret_ref_crd (BasicAuthConfig_json b)"
  "conforms secret_ref_crd (BearerAuthConfig_json t)"
  "conforms mtls_crd (MTLSConfig_json m)"
  by (simp_all add: reference_crd_def registry_ref_crd_def secret_ref_crd_def mtls_crd_def
      SchemaReference_json_def SchemaRegistryRef_json_def BasicAuthConfig_json_def BearerAuthConfig_json_def
      MTLSConfig_json_def parse_int64_fmt_d split: option.splits)

lemma block_defaulted [simp]:
  "defaulted reference_crd (SchemaReference_json ref) = SchemaReference_json ref"
  "defaulted registry_ref_crd (SchemaRegistryRef_json rr) = SchemaRegistryRef_json rr"
  "defaulted secret_ref_crd (BasicAuthConfig_json b) = BasicAuthConfig_json b"
  "defaulted secret_ref_crd (BearerAuthConfig_json t) = BearerAuthConfig_json t"
  "defaulted mtls_crd (MTLSConfig_json m) = MTLSConfig_json m"
  by (simp_all add: reference_crd_def registry_ref_crd_def secret_ref_crd_def mtls_crd_def
      SchemaReference_json_def SchemaRegistryRef_json_def BasicAuthConfig_json_def BearerAuthConfig_json_def
      MTLSConfig_json_def default_step update_same split: option.splits)

lemma schema_conforms: "conforms schema_spec_crd (SchemaSpec_json s) \<longleftrightarrow> crd_schema_ok s"
  by (auto simp: schema_spec_crd_def SchemaSpec_json_def crd_schema_ok_def omit_slice_def omit_string_def
      list_all_iff simp del: set_simps)

lemma auth_conforms: "conforms auth_crd (ApiAuthConfig_json a) \<longleftrightarrow> auth_type a \<in> set auth_types"
  by (simp add: auth_crd_def ApiAuthConfig_json_def option.case_eq_if del: set_simps)

lemma registry_conforms: "conforms registry_spec_crd (SchemaRegistrySpec_json r) \<longleftrightarrow> crd_registry_ok r"
  by (simp add: registry_spec_crd_def SchemaRegistrySpec_json_def crd_registry_ok_def
      parse_int64_fmt_d)
    (auto simp: present_ok_def auth_conforms split: option.splits)

text \<open>An object a Go client writes lacks the members \<open>omitempty\<close> drops; the API server adds them.\<close>

definition with_defaults :: "SchemaRegistrySpec \<Rightarrow> SchemaRegistrySpec" where
  "with_defaults r = r\<lparr>sr_timeout := if sr_timeout r = 0 then 30 else sr_timeout r\<rparr>"

lemma parse_thirty: "parse_int64 ''30'' = Some 30"
  by code_simp

lemma auth_defaulted: "defaulted auth_crd (ApiAuthConfig_json a) = ApiAuthConfig_json a"
  by (simp add: auth_crd_def ApiAuthConfig_json_def default_step option.case_eq_if
      del: default_members.simps(2))

lemma registry_defaulted:
  "defaulted registry_spec_crd (SchemaRegistrySpec_json r) =
     JObj ([(''url'', JStr (sr_url r))] @ omit_nil ''auth'' ApiAuthConfig_json (sr_auth r) @
       omit_bool ''insecureSkipVerify'' (sr_insecureSkipVerify r) @ omit_int ''timeout'' (sr_timeout r) @
       (if sr_insecureSkipVerify r then [] else [(''insecureSkipVerify'', JBool False)]) @
       (if sr_timeout r = 0 then [(''timeout'', JNum ''30'')] else []))" (is "_ = ?v")
proof -
  let ?ms = "[(''url'', JStr (sr_url r))] @ omit_nil ''auth'' ApiAuthConfig_json (sr_auth r) @
    omit_bool ''insecureSkipVerify'' (sr_insecureSkipVerify r) @ omit_int ''timeout'' (sr_timeout r)"
  let ?skip = "?ms @ (if sr_insecureSkipVerify r then [] else [(''insecureSkipVerify'', JBool False)])"
  have "default_members (Member ''auth'' False None auth_crd # fs) ?ms = default_members fs ?ms" for fs
    by (rule default_step) (simp add: auth_defaulted split: option.splits)
  moreover have "default_members (Member ''insecureSkipVerify'' False (Some (JBool False)) OBoolean # fs) ?ms =
      default_members fs ?skip" for fs
    by (simp add: update_same split: option.splits)
  moreover have "default_members (Member ''timeout'' False (Some (JNum ''30'')) (OInteger P) # fs) ?skip =
      default_members fs (?skip @ (if sr_timeout r = 0 then [(''timeout'', JNum ''30'')] else []))" for fs P
    by (simp add: update_same split: option.splits)
  ultimately show ?thesis
    by (simp add: registry_spec_crd_def SchemaRegistrySpec_json_def)
qed

lemma registry_defaulted_conforms:
  "conforms registry_spec_crd (defaulted registry_spec_crd (SchemaRegistrySpec_json r)) \<longleftrightarrow> crd_registry_ok r"
  unfolding registry_defaulted
  by (simp add: registry_spec_crd_def crd_registry_ok_def parse_int64_fmt_d parse_thirty)
    (auto simp: present_ok_def auth_conforms split: option.splits)

lemma registry_defaulted_read:
  "read_SchemaRegistrySpec (defaulted registry_spec_crd (SchemaRegistrySpec_json r)) = Some (with_defaults r)"
proof -
  have "store_pointer store_auth zero_auth (ApiAuthConfig_json a) None = Some (Some a)" for a
    using read_auth [of a] by (simp add: store_pointer_def ApiAuthConfig_json_def)
  then show ?thesis
    unfolding registry_defaulted
    by (simp add: read_SchemaRegistrySpec_def store_registry_spec_def with_defaults_def parse_thirty
        store_struct_def [of store_registry_spec] store_string_def store_int_def store_bool_def
        omit_nil_def omit_int_def omit_bool_def parse_int64_fmt_d split: option.splits)
qed

lemma schema_defaulted: "defaulted schema_spec_crd (SchemaSpec_json s) = SchemaSpec_json s"
proof -
  have "defaulted (OArray reference_crd) (JArr (map SchemaReference_json rs)) = JArr (map SchemaReference_json rs)"
    for rs by simp
  then show ?thesis
    by (simp add: schema_spec_crd_def SchemaSpec_json_def omit_slice_def default_step
        del: default_members.simps(2) defaulted.simps(1))
qed

section \<open>What the webhooks add\<close>

text \<open>The part of the webhooks' decision the structural schemas do not take.\<close>

definition webhook_schema_rest :: "SchemaSpec \<Rightarrow> bool" where
  "webhook_schema_rest s \<longleftrightarrow>
     rr_name (spec_registryRef s) \<noteq> [] \<and>
     (spec_schemaType s \<noteq> SchemaTypeProtobuf \<longrightarrow> json_valid (spec_schema s)) \<and>
     list_all reference_ok (spec_references s)"

lemma schema_rest:
  assumes "crd_schema_ok (sch_spec s)"
  shows "schema_ValidateCreate s = None \<longleftrightarrow> webhook_schema_rest (sch_spec s)"
  using assms unfolding schema_admission.create_iff schema_ok_def webhook_schema_rest_def crd_schema_ok_def
  by (auto simp: schema_types_def schema_type_defs list_all_iff)

lemma registry_rest:
  assumes "crd_registry_ok (sr_spec r)"
  shows "registry_ValidateCreate r = None \<longleftrightarrow> present_ok auth_ok (sr_auth (sr_spec r))"
  using assms unfolding registry_admission.create_iff registry_ok_def crd_registry_ok_def http_url_def
  by (auto simp: present_ok_iff)

text \<open>The default of the CRD is the default of the code.\<close>

lemma defaults_timeout: "clientTimeout (r\<lparr>sr_spec := with_defaults (sr_spec r)\<rparr>) = clientTimeout r"
  by (auto simp: clientTimeout_def with_defaults_def Let_def time_Second_def)

lemma timeout_pos: "i = 0 \<or> 1 \<le> sint i \<longleftrightarrow> 0 \<le> sint (i :: go_int)"
proof -
  have "sint i = 0 \<longleftrightarrow> i = 0" by (rule signed_eq_0_iff)
  then show ?thesis by linarith
qed

end
