(* ===== verification/StatusJson.thy ===== *)
theory StatusJson
  imports ApiJson
begin

text \<open>
  The statuses of the two resources as the API server keeps them: the JSON members of \<open>SchemaStatus\<close>
  and \<open>SchemaRegistryStatus\<close> by their struct tags, written and read. The JSON of \<open>metav1.Time\<close> and of
  \<open>metav1.Condition\<close> belongs to \<open>k8s.io/apimachinery\<close>: it is a parameter, with its documented behaviour
  as \<open>codec_laws\<close>.
\<close>

section \<open>The types of apimachinery\<close>

record meta_codec =
  enc_time :: "instant \<Rightarrow> json"
  dec_time :: "json \<Rightarrow> instant option"
  enc_condition :: "Condition \<Rightarrow> json"
  dec_condition :: "json \<Rightarrow> Condition option"

definition condition_utf8 :: "Condition \<Rightarrow> bool" where
  "condition_utf8 c \<longleftrightarrow>
     list_all utf8_valid [cond_type c, cond_status c, cond_reason c, cond_message c]"

text \<open>
  A time is written in RFC 3339 and so loses what is finer than a second: \<open>sec\<close>. The zero time is
  written as null. The other fields of a condition are read back as they are.
\<close>

definition codec_laws :: "meta_codec \<Rightarrow> (instant \<Rightarrow> instant) \<Rightarrow> bool" where
  "codec_laws K sec \<longleftrightarrow>
     (\<forall>t. t \<noteq> 0 \<longrightarrow> (\<exists>s. enc_time K t = JStr s \<and> utf8_valid s) \<and> dec_time K (enc_time K t) = Some (sec t)) \<and>
     (\<forall>c. condition_utf8 c \<longrightarrow> (\<forall>d \<ge> 1. json_wf d (enc_condition K c)) \<and>
        dec_condition K (enc_condition K c) =
          Some (c\<lparr>cond_lastTransitionTime := sec (cond_lastTransitionTime c)\<rparr>))"

lemma codec_time:
  assumes "codec_laws K sec" "t \<noteq> 0"
  obtains s where "enc_time K t = JStr s" "utf8_valid s" "dec_time K (JStr s) = Some (sec t)"
  using assms unfolding codec_laws_def by metis

lemma codec_condition:
  assumes "codec_laws K sec" "condition_utf8 c"
  shows "d \<ge> 1 \<Longrightarrow> json_wf d (enc_condition K c)"
    and "dec_condition K (enc_condition K c) =
      Some (c\<lparr>cond_lastTransitionTime := sec (cond_lastTransitionTime c)\<rparr>)"
  using assms by (simp_all add: codec_laws_def)

section \<open>Writing and reading\<close>

definition SchemaStatus_json :: "meta_codec \<Rightarrow> SchemaStatus \<Rightarrow> json" where
  "SchemaStatus_json K s =
     JObj (omit_nil ''schemaId'' (\<lambda>i. JNum (fmt_d i)) (status_schemaID s) @
           omit_nil ''version'' (\<lambda>i. JNum (fmt_d i)) (status_version s) @
           omit_nil ''registeredAt'' (enc_time K) (status_registeredAt s) @
           omit_int ''observedGeneration'' (status_observedGeneration s) @
           omit_slice ''conditions'' (enc_condition K) (status_conditions s))"

definition SchemaRegistryStatus_json :: "meta_codec \<Rightarrow> SchemaRegistryStatus \<Rightarrow> json" where
  "SchemaRegistryStatus_json K s =
     JObj (omit_string ''connectionStatus'' (sr_connectionStatus s) @
           omit_nil ''lastChecked'' (enc_time K) (sr_lastChecked s) @
           omit_int ''observedGeneration'' (sr_observedGeneration s) @
           omit_slice ''conditions'' (enc_condition K) (sr_conditions s))"

text \<open>A pointer to a scalar: \<open>null\<close> makes it nil, anything else is read into a new value.\<close>

definition store_scalar :: "(json \<Rightarrow> 'a option) \<Rightarrow> json \<Rightarrow> 'a option option" where
  "store_scalar rd v = (case v of JNull \<Rightarrow> Some None | _ \<Rightarrow> map_option Some (rd v))"

definition store_schema_status :: "meta_codec \<Rightarrow> string \<Rightarrow> json \<Rightarrow> SchemaStatus \<Rightarrow> SchemaStatus option" where
  "store_schema_status K k v s =
     (if k = ''schemaId'' then
        map_option (\<lambda>p. s\<lparr>status_schemaID := p\<rparr>) (store_scalar (\<lambda>u. store_int u 0) v)
      else if k = ''version'' then
        map_option (\<lambda>p. s\<lparr>status_version := p\<rparr>) (store_scalar (\<lambda>u. store_int u 0) v)
      else if k = ''registeredAt'' then
        map_option (\<lambda>p. s\<lparr>status_registeredAt := p\<rparr>) (store_scalar (dec_time K) v)
      else if k = ''observedGeneration'' then
        map_option (\<lambda>i. s\<lparr>status_observedGeneration := i\<rparr>) (store_int v (status_observedGeneration s))
      else if k = ''conditions'' then
        map_option (\<lambda>cs. s\<lparr>status_conditions := cs\<rparr>) (store_slice (dec_condition K) v)
      else Some s)"

definition read_SchemaStatus :: "meta_codec \<Rightarrow> json \<Rightarrow> SchemaStatus option" where
  "read_SchemaStatus K v =
     store_struct (store_schema_status K)
       \<lparr>status_schemaID = None, status_version = None, status_registeredAt = None,
        status_observedGeneration = 0, status_conditions = []\<rparr> v"

definition store_registry_status ::
  "meta_codec \<Rightarrow> string \<Rightarrow> json \<Rightarrow> SchemaRegistryStatus \<Rightarrow> SchemaRegistryStatus option" where
  "store_registry_status K k v s =
     (if k = ''connectionStatus'' then
        map_option (\<lambda>t. s\<lparr>sr_connectionStatus := t\<rparr>) (store_string v (sr_connectionStatus s))
      else if k = ''lastChecked'' then
        map_option (\<lambda>p. s\<lparr>sr_lastChecked := p\<rparr>) (store_scalar (dec_time K) v)
      else if k = ''observedGeneration'' then
        map_option (\<lambda>i. s\<lparr>sr_observedGeneration := i\<rparr>) (store_int v (sr_observedGeneration s))
      else if k = ''conditions'' then
        map_option (\<lambda>cs. s\<lparr>sr_conditions := cs\<rparr>) (store_slice (dec_condition K) v)
      else Some s)"

definition read_SchemaRegistryStatus :: "meta_codec \<Rightarrow> json \<Rightarrow> SchemaRegistryStatus option" where
  "read_SchemaRegistryStatus K v =
     store_struct (store_registry_status K)
       \<lparr>sr_connectionStatus = [], sr_lastChecked = None, sr_observedGeneration = 0, sr_conditions = []\<rparr> v"

section \<open>Reading what was written\<close>

text \<open>What storage makes of a status: its times are cut to the second.\<close>

definition cut_condition :: "(instant \<Rightarrow> instant) \<Rightarrow> Condition \<Rightarrow> Condition" where
  "cut_condition sec c = c\<lparr>cond_lastTransitionTime := sec (cond_lastTransitionTime c)\<rparr>"

definition stored_status :: "(instant \<Rightarrow> instant) \<Rightarrow> SchemaStatus \<Rightarrow> SchemaStatus" where
  "stored_status sec s =
     s\<lparr>status_registeredAt := map_option sec (status_registeredAt s),
       status_conditions := map (cut_condition sec) (status_conditions s)\<rparr>"

definition stored_registry_status :: "(instant \<Rightarrow> instant) \<Rightarrow> SchemaRegistryStatus \<Rightarrow> SchemaRegistryStatus" where
  "stored_registry_status sec s =
     s\<lparr>sr_lastChecked := map_option sec (sr_lastChecked s),
       sr_conditions := map (cut_condition sec) (sr_conditions s)\<rparr>"

definition status_storable :: "instant option \<Rightarrow> Condition list \<Rightarrow> bool" where
  "status_storable t cs \<longleftrightarrow> t \<noteq> Some 0 \<and> list_all condition_utf8 cs"

lemma read_conditions:
  assumes "codec_laws K sec" "list_all condition_utf8 cs"
  shows "read_all (dec_condition K) (map (enc_condition K) cs) = Some (map (cut_condition sec) cs)"
  using assms(2)
  by (induction cs) (simp_all add: codec_condition(2) [OF assms(1)] cut_condition_def)

lemma read_time:
  assumes "codec_laws K sec" "t \<noteq> 0"
  shows "store_scalar (dec_time K) (enc_time K t) = Some (Some (sec t))"
  using assms by (rule codec_time) (simp add: store_scalar_def)

lemma store_int_pointer: "store_scalar (\<lambda>u. store_int u 0) (JNum (fmt_d i)) = Some (Some i)"
  by (simp add: store_scalar_def store_int_def parse_int64_fmt_d)

text \<open>Storing the members of one key is storing its value, or nothing when it is left out.\<close>

lemma store_omitted:
  "(\<And>x. p = Some x \<Longrightarrow> st k (enc x) a = Some b) \<Longrightarrow> (p = None \<Longrightarrow> a = b) \<Longrightarrow>
    store_members st (omit_nil k enc p) a = Some b"
  "(i \<noteq> 0 \<Longrightarrow> st k (JNum (fmt_d i)) a = Some b) \<Longrightarrow> (i = 0 \<Longrightarrow> a = b) \<Longrightarrow>
    store_members st (omit_int k i) a = Some b"
  "(s \<noteq> [] \<Longrightarrow> st k (JStr s) a = Some b) \<Longrightarrow> (s = [] \<Longrightarrow> a = b) \<Longrightarrow>
    store_members st (omit_string k s) a = Some b"
  "(xs \<noteq> [] \<Longrightarrow> st k (JArr (map e xs)) a = Some b) \<Longrightarrow> (xs = [] \<Longrightarrow> a = b) \<Longrightarrow>
    store_members st (omit_slice k e xs) a = Some b"
  by (auto simp: omit_defs split: option.splits)

lemma store_status_keys:
  "store_schema_status K ''schemaId'' v s =
     map_option (\<lambda>p. s\<lparr>status_schemaID := p\<rparr>) (store_scalar (\<lambda>u. store_int u 0) v)"
  "store_schema_status K ''version'' v s =
     map_option (\<lambda>p. s\<lparr>status_version := p\<rparr>) (store_scalar (\<lambda>u. store_int u 0) v)"
  "store_schema_status K ''registeredAt'' v s =
     map_option (\<lambda>p. s\<lparr>status_registeredAt := p\<rparr>) (store_scalar (dec_time K) v)"
  "store_schema_status K ''observedGeneration'' v s =
     map_option (\<lambda>i. s\<lparr>status_observedGeneration := i\<rparr>) (store_int v (status_observedGeneration s))"
  "store_schema_status K ''conditions'' v s =
     map_option (\<lambda>cs. s\<lparr>status_conditions := cs\<rparr>) (store_slice (dec_condition K) v)"
  by (simp_all add: store_schema_status_def)

lemma store_registry_status_keys:
  "store_registry_status K ''connectionStatus'' v r =
     map_option (\<lambda>t. r\<lparr>sr_connectionStatus := t\<rparr>) (store_string v (sr_connectionStatus r))"
  "store_registry_status K ''lastChecked'' v r =
     map_option (\<lambda>p. r\<lparr>sr_lastChecked := p\<rparr>) (store_scalar (dec_time K) v)"
  "store_registry_status K ''observedGeneration'' v r =
     map_option (\<lambda>i. r\<lparr>sr_observedGeneration := i\<rparr>) (store_int v (sr_observedGeneration r))"
  "store_registry_status K ''conditions'' v r =
     map_option (\<lambda>cs. r\<lparr>sr_conditions := cs\<rparr>) (store_slice (dec_condition K) v)"
  by (simp_all add: store_registry_status_def)

lemma store_number: "store_int (JNum (fmt_d i)) old = Some i"
  by (simp add: store_int_def parse_int64_fmt_d)

lemma store_conditions:
  assumes "codec_laws K sec" "list_all condition_utf8 cs"
  shows "store_slice (dec_condition K) (JArr (map (enc_condition K) cs)) = Some (map (cut_condition sec) cs)"
  using read_conditions [OF assms] by (simp add: store_slice_def)

lemma read_SchemaStatus_json:
  assumes "codec_laws K sec" "status_storable (status_registeredAt s) (status_conditions s)"
  shows "read_SchemaStatus K (SchemaStatus_json K s) = Some (stored_status sec s)"
proof -
  have t: "status_registeredAt s \<noteq> Some 0" and c: "list_all condition_utf8 (status_conditions s)"
    using assms(2) by (simp_all add: status_storable_def)
  let ?z = "\<lparr>status_schemaID = None, status_version = None, status_registeredAt = None,
    status_observedGeneration = 0, status_conditions = []\<rparr>"
  let ?st = "store_members (store_schema_status K)"
  let ?a = "?z\<lparr>status_schemaID := status_schemaID s\<rparr>"
  let ?b = "?a\<lparr>status_version := status_version s\<rparr>"
  let ?c = "?b\<lparr>status_registeredAt := map_option sec (status_registeredAt s)\<rparr>"
  let ?d = "?c\<lparr>status_observedGeneration := status_observedGeneration s\<rparr>"
  have "?st (omit_nil ''schemaId'' (\<lambda>i. JNum (fmt_d i)) (status_schemaID s)) ?z = Some ?a"
    by (rule store_omitted(1)) (simp_all add: store_status_keys store_int_pointer)
  moreover have "?st (omit_nil ''version'' (\<lambda>i. JNum (fmt_d i)) (status_version s)) ?a = Some ?b"
    by (rule store_omitted(1)) (simp_all add: store_status_keys store_int_pointer)
  moreover have "?st (omit_nil ''registeredAt'' (enc_time K) (status_registeredAt s)) ?b = Some ?c"
    by (rule store_omitted(1)) (use t in \<open>auto simp: store_status_keys read_time [OF assms(1)]\<close>)
  moreover have "?st (omit_int ''observedGeneration'' (status_observedGeneration s)) ?c = Some ?d"
    by (rule store_omitted(2)) (simp_all add: store_status_keys store_number)
  moreover have "?st (omit_slice ''conditions'' (enc_condition K) (status_conditions s)) ?d = Some (stored_status sec s)"
    by (rule store_omitted(4)) (simp_all add: store_status_keys store_conditions [OF assms(1) c] stored_status_def)
  ultimately show ?thesis
    by (simp add: read_SchemaStatus_def SchemaStatus_json_def store_struct_def store_members_append)
qed

lemma read_SchemaRegistryStatus_json:
  assumes "codec_laws K sec" "status_storable (sr_lastChecked r) (sr_conditions r)"
  shows "read_SchemaRegistryStatus K (SchemaRegistryStatus_json K r) = Some (stored_registry_status sec r)"
proof -
  have t: "sr_lastChecked r \<noteq> Some 0" and c: "list_all condition_utf8 (sr_conditions r)"
    using assms(2) by (simp_all add: status_storable_def)
  let ?z = "\<lparr>sr_connectionStatus = [], sr_lastChecked = None, sr_observedGeneration = 0, sr_conditions = []\<rparr>"
  let ?st = "store_members (store_registry_status K)"
  let ?a = "?z\<lparr>sr_connectionStatus := sr_connectionStatus r\<rparr>"
  let ?b = "?a\<lparr>sr_lastChecked := map_option sec (sr_lastChecked r)\<rparr>"
  let ?c = "?b\<lparr>sr_observedGeneration := sr_observedGeneration r\<rparr>"
  have "?st (omit_string ''connectionStatus'' (sr_connectionStatus r)) ?z = Some ?a"
    by (rule store_omitted(3)) (simp_all add: store_registry_status_keys store_string_def)
  moreover have "?st (omit_nil ''lastChecked'' (enc_time K) (sr_lastChecked r)) ?a = Some ?b"
    by (rule store_omitted(1)) (use t in \<open>auto simp: store_registry_status_keys read_time [OF assms(1)]\<close>)
  moreover have "?st (omit_int ''observedGeneration'' (sr_observedGeneration r)) ?b = Some ?c"
    by (rule store_omitted(2)) (simp_all add: store_registry_status_keys store_number)
  moreover have "?st (omit_slice ''conditions'' (enc_condition K) (sr_conditions r)) ?c = Some (stored_registry_status sec r)"
    by (rule store_omitted(4))
      (simp_all add: store_registry_status_keys store_conditions [OF assms(1) c] stored_registry_status_def)
  ultimately show ?thesis
    by (simp add: read_SchemaRegistryStatus_def SchemaRegistryStatus_json_def store_struct_def store_members_append)
qed

section \<open>The JSON is well formed\<close>

lemma enc_time_wf: "codec_laws K sec \<Longrightarrow> t \<noteq> 0 \<Longrightarrow> json_wf d (enc_time K t)"
  by (erule (1) codec_time) simp

lemma status_members_wf:
  assumes "codec_laws K sec" "status_storable t cs" "2 \<le> d"
  shows "t = Some x \<Longrightarrow> json_wf d (enc_time K x)"
    and "json_wf d (JArr (map (enc_condition K) cs))"
  using assms codec_condition(1) [OF assms(1)] enc_time_wf [OF assms(1)]
  by (auto simp: status_storable_def list_all_iff)

lemma SchemaStatus_json_wf:
  assumes "codec_laws K sec" "status_storable (status_registeredAt s) (status_conditions s)" "3 \<le> d"
  shows "json_wf d (SchemaStatus_json K s)"
  using status_members_wf [OF assms(1,2), of "d - 1"] assms(3)
  by (auto simp: SchemaStatus_json_def omit_nil_def omit_int_def omit_slice_def num_ok_fmt_d
      simp del: json_wf.simps(5) split: option.splits)

lemma SchemaRegistryStatus_json_wf:
  assumes "codec_laws K sec" "status_storable (sr_lastChecked r) (sr_conditions r)"
    and "utf8_valid (sr_connectionStatus r)" "3 \<le> d"
  shows "json_wf d (SchemaRegistryStatus_json K r)"
  using status_members_wf [OF assms(1,2), of "d - 1"] assms(3,4)
  by (auto simp: SchemaRegistryStatus_json_def omit_nil_def omit_int_def omit_string_def omit_slice_def num_ok_fmt_d
      simp del: json_wf.simps(5) split: option.splits)

end
