(* ===== verification/ApiProperties.thy ===== *)
theory ApiProperties
  imports CrdSchema StatusJson RefCluster
begin

text \<open>
  The properties of the resource types as the API server stores them: what is written is read
  back, and what the structural schemas and the webhooks decide together.
\<close>

text \<open>
  The defaults of the API server change nothing in a Schema, and in a SchemaRegistry only a timeout
  of zero, which the struct tag leaves out and the server stores as 30.
\<close>

lemma specs_survive_storage:
  assumes "spec_utf8 s" "registry_utf8 r"
  shows "(\<exists>v. json_parse (render (SchemaSpec_json s)) = Some v \<and> read_SchemaSpec v = Some s \<and>
      read_SchemaSpec (defaulted schema_spec_crd v) = Some s) \<and>
    (\<exists>v. json_parse (render (SchemaRegistrySpec_json r)) = Some v \<and> read_SchemaRegistrySpec v = Some r \<and>
      read_SchemaRegistrySpec (defaulted registry_spec_crd v) =
        Some (r\<lparr>sr_timeout := if sr_timeout r = 0 then 30 else sr_timeout r\<rparr>))"
proof -
  have "json_parse (render (SchemaSpec_json s)) = Some (SchemaSpec_json s)"
    by (intro json_parse_render SchemaSpec_json_wf assms(1)) (simp add: max_nesting_depth_def)
  moreover have "json_parse (render (SchemaRegistrySpec_json r)) = Some (SchemaRegistrySpec_json r)"
    by (intro json_parse_render SchemaRegistrySpec_json_wf assms(2)) (simp add: max_nesting_depth_def)
  ultimately show ?thesis
    by (simp add: read_SchemaSpec_json read_SchemaRegistrySpec_json schema_defaulted
        registry_defaulted_read with_defaults_def del: render.simps)
qed

text \<open>A stored status records the same registration as the one that was written.\<close>

lemma find_map: "find P (map f xs) = map_option f (find (P \<circ> f) xs)"
  by (induction xs) simp_all

lemma registered_stored:
  "registered (x\<lparr>sch_status := stored_status sec t\<rparr>) \<longleftrightarrow> registered (x\<lparr>sch_status := t\<rparr>)"
proof -
  have "(\<lambda>c. cond_type c = ''Ready'') \<circ> cut_condition sec = (\<lambda>c. cond_type c = ''Ready'')"
    by (simp add: cut_condition_def comp_def)
  then have "ready_status (x\<lparr>sch_status := stored_status sec t\<rparr>) = ready_status (x\<lparr>sch_status := t\<rparr>)"
    by (simp add: ready_status_def find_condition_def stored_status_def find_map option.map_comp)
      (simp add: cut_condition_def comp_def)
  then show ?thesis by (simp add: registered_def stored_status_def)
qed

text \<open>A codec that keeps the laws: seconds as decimal numbers, a condition as the list of its fields.\<close>

definition read_int :: "string \<Rightarrow> int option" where
  "read_int s =
     (case s of
        [] \<Rightarrow> None
      | c # cs \<Rightarrow> if c = CHR ''-'' then map_option (\<lambda>n. - int n) (read_nat cs) else map_option int (read_nat s))"

lemma read_int_show_int: "read_int (show_int i) = Some i"
proof (cases "i < 0")
  case True
  then show ?thesis by (simp add: read_int_def show_int_def)
next
  case False
  obtain c cs where s: "show_nat (nat i) = c # cs" by (cases "show_nat (nat i)") auto
  then have "read_nat (c # cs) = Some (nat i)" by (metis read_nat_show_nat)
  then show ?thesis using False hd_show_nat_not_minus [OF s] by (simp add: read_int_def show_int_def s)
qed

definition ref_second :: "instant \<Rightarrow> instant" where
  "ref_second t = t div 1000000000 * 1000000000"

definition ref_enc_time :: "instant \<Rightarrow> json" where
  "ref_enc_time t = (if t = 0 then JNull else JStr (show_int (t div 1000000000)))"

definition ref_dec_time :: "json \<Rightarrow> instant option" where
  "ref_dec_time v =
     (case v of
        JStr s \<Rightarrow> map_option (\<lambda>i. i * 1000000000) (read_int s)
      | JNull \<Rightarrow> Some 0
      | _ \<Rightarrow> None)"

lemma ref_dec_enc_time: "ref_dec_time (ref_enc_time t) = Some (ref_second t)"
  by (simp add: ref_dec_time_def ref_enc_time_def ref_second_def read_int_show_int)

definition ref_enc_condition :: "Condition \<Rightarrow> json" where
  "ref_enc_condition c =
     JArr [JStr (cond_type c), JStr (cond_status c), JNum (fmt_d (cond_observedGeneration c)),
       ref_enc_time (cond_lastTransitionTime c), JStr (cond_reason c), JStr (cond_message c)]"

fun ref_dec_condition :: "json \<Rightarrow> Condition option" where
  "ref_dec_condition (JArr [JStr t, JStr s, JNum g, l, JStr r, JStr m]) =
     (case (parse_int64 g, ref_dec_time l) of
        (Some i, Some x) \<Rightarrow>
          Some \<lparr>cond_type = t, cond_status = s, cond_observedGeneration = i, cond_lastTransitionTime = x,
                cond_reason = r, cond_message = m\<rparr>
      | _ \<Rightarrow> None)"
| "ref_dec_condition _ = None"

definition ref_codec :: meta_codec where
  "ref_codec =
     \<lparr>enc_time = ref_enc_time, dec_time = ref_dec_time, enc_condition = ref_enc_condition,
      dec_condition = ref_dec_condition\<rparr>"

lemma show_int_utf8: "utf8_valid (show_int i)"
proof (rule utf8_valid_ascii)
  have "list_all ascii (show_nat n)" for n
    using show_nat_digits [of n] by (auto simp: list_all_iff is_digit_def)
  then show "list_all ascii (show_int i)" by (simp add: show_int_def)
qed

lemma ref_codec_laws: "codec_laws ref_codec ref_second"
proof -
  have "json_wf d (ref_enc_condition c)" if "condition_utf8 c" "1 \<le> d" for c d
    using that by (auto simp: ref_enc_condition_def condition_utf8_def num_ok_fmt_d ref_enc_time_def show_int_utf8)
  moreover have "ref_dec_condition (ref_enc_condition c) =
      Some (c\<lparr>cond_lastTransitionTime := ref_second (cond_lastTransitionTime c)\<rparr>)" for c
    by (simp add: ref_enc_condition_def ref_dec_enc_time parse_int64_fmt_d)
  moreover have "\<exists>s. ref_enc_time t = JStr s \<and> utf8_valid s" if "t \<noteq> 0" for t
    using that show_int_utf8 by (simp add: ref_enc_time_def)
  ultimately show ?thesis by (simp add: codec_laws_def ref_codec_def ref_dec_enc_time)
qed

text \<open>
  C31. Storage. What the operator and its users write is what is read. A specification whose strings
  are UTF-8 is written as JSON that decodes to it again; the defaults of the API server change
  nothing in a Schema, and in a SchemaRegistry only a timeout of zero, which the struct tag leaves out
  and the server stores as 30. A status decodes to itself with its times cut to the second; so it
  records a registration exactly when the written one did.
\<close>

theorem objects_survive_storage:
  assumes "spec_utf8 s" "registry_utf8 r" "codec_laws K sec"
    and "status_storable (status_registeredAt t) (status_conditions t)"
    and "status_storable (sr_lastChecked u) (sr_conditions u)" "utf8_valid (sr_connectionStatus u)"
  shows "(\<exists>v. json_parse (render (SchemaSpec_json s)) = Some v \<and> read_SchemaSpec v = Some s \<and>
      read_SchemaSpec (defaulted schema_spec_crd v) = Some s) \<and>
    (\<exists>v. json_parse (render (SchemaRegistrySpec_json r)) = Some v \<and> read_SchemaRegistrySpec v = Some r \<and>
      read_SchemaRegistrySpec (defaulted registry_spec_crd v) =
        Some (r\<lparr>sr_timeout := if sr_timeout r = 0 then 30 else sr_timeout r\<rparr>)) \<and>
    (\<exists>v. json_parse (render (SchemaStatus_json K t)) = Some v \<and> read_SchemaStatus K v = Some (stored_status sec t)) \<and>
    (\<exists>v. json_parse (render (SchemaRegistryStatus_json K u)) = Some v \<and>
      read_SchemaRegistryStatus K v = Some (stored_registry_status sec u)) \<and>
    (registered (x\<lparr>sch_status := stored_status sec t\<rparr>) \<longleftrightarrow> registered (x\<lparr>sch_status := t\<rparr>))"
proof (intro conjI)
  have "json_parse (render (SchemaStatus_json K t)) = Some (SchemaStatus_json K t)"
    by (intro json_parse_render SchemaStatus_json_wf [OF assms(3,4)]) (simp add: max_nesting_depth_def)
  then show "\<exists>v. json_parse (render (SchemaStatus_json K t)) = Some v \<and> read_SchemaStatus K v = Some (stored_status sec t)"
    using read_SchemaStatus_json [OF assms(3,4)] by blast
  have "json_parse (render (SchemaRegistryStatus_json K u)) = Some (SchemaRegistryStatus_json K u)"
    by (intro json_parse_render SchemaRegistryStatus_json_wf [OF assms(3,5,6)]) (simp add: max_nesting_depth_def)
  then show "\<exists>v. json_parse (render (SchemaRegistryStatus_json K u)) = Some v \<and>
      read_SchemaRegistryStatus K v = Some (stored_registry_status sec u)"
    using read_SchemaRegistryStatus_json [OF assms(3,5)] by blast
qed (rule registered_stored specs_survive_storage [OF assms(1,2), THEN conjunct1]
    specs_survive_storage [OF assms(1,2), THEN conjunct2])+

text \<open>The status of a registration, and the one of a SchemaRegistry that was checked.\<close>

definition sample_status :: SchemaStatus where
  "sample_status =
     \<lparr>status_schemaID = Some 42, status_version = Some 0, status_registeredAt = Some 1000000001,
      status_observedGeneration = 1, status_conditions = [ready_condition ConditionTrue ''Registered'' [] 1]\<rparr>"

theorem objects_survive_storage_witness:
  "(\<exists>v. json_parse (render (SchemaRegistrySpec_json (sr_spec basic_registry))) = Some v \<and>
     map_option sr_timeout (read_SchemaRegistrySpec v) = Some 0 \<and>
     map_option sr_timeout (read_SchemaRegistrySpec (defaulted registry_spec_crd v)) = Some 30) \<and>
   (\<exists>v. json_parse (render (SchemaStatus_json ref_codec sample_status)) = Some v \<and>
     map_option status_registeredAt (read_SchemaStatus ref_codec v) = Some (Some 1000000000)) \<and>
   registered (sample_schema\<lparr>sch_status := stored_status ref_second sample_status\<rparr>)"
proof -
  have u: "spec_utf8 (sch_spec sample_schema)" "registry_utf8 (sr_spec basic_registry)" by code_simp+
  have s: "status_storable (status_registeredAt sample_status) (status_conditions sample_status)" by code_simp
  have r: "status_storable (sr_lastChecked (sr_status basic_registry)) (sr_conditions (sr_status basic_registry))"
    "utf8_valid (sr_connectionStatus (sr_status basic_registry))" by code_simp+
  have t: "sr_timeout (sr_spec basic_registry) = 0" by (simp add: basic_registry_def sample_registry_def)
  have reg: "registered (sample_schema\<lparr>sch_status := sample_status\<rparr>)" by code_simp
  have at: "status_registeredAt (stored_status ref_second sample_status) = Some 1000000000"
    by (simp add: stored_status_def sample_status_def ref_second_def)
  show ?thesis
    using objects_survive_storage [OF u ref_codec_laws s r, of sample_schema] t reg at by auto
qed

text \<open>
  C30. Admission as a whole. A Schema passes the structural schema of its CRD and the webhook
  exactly when it passes the former and its registry is named, its AVRO or JSON text is valid
  JSON and its references are complete: the other checks of the webhook repeat the CRD. A
  SchemaRegistry, as stored with its defaults, passes both exactly when it passes the former and
  the block of its authentication type names a Secret. The default timeout of the CRD is the one
  the client would use anyway.
\<close>

theorem crd_and_webhook_decide:
  "(conforms schema_spec_crd (SchemaSpec_json (sch_spec s)) \<and> schema_ValidateCreate s = None \<longleftrightarrow>
      spec_subject (sch_spec s) \<noteq> [] \<and> spec_schema (sch_spec s) \<noteq> [] \<and>
      spec_schemaType (sch_spec s) \<in> {SchemaTypeAvro, SchemaTypeJSON, SchemaTypeProtobuf} \<and>
      spec_compatibilityLevel (sch_spec s) \<in> insert [] (set compatibility_levels) \<and>
      rr_name (spec_registryRef (sch_spec s)) \<noteq> [] \<and>
      (spec_schemaType (sch_spec s) = SchemaTypeProtobuf \<or> json_valid (spec_schema (sch_spec s))) \<and>
      list_all reference_ok (spec_references (sch_spec s))) \<and>
   (let v = defaulted registry_spec_crd (SchemaRegistrySpec_json (sr_spec r));
        stored = r\<lparr>sr_spec := the (read_SchemaRegistrySpec v)\<rparr>
    in (conforms registry_spec_crd v \<and> registry_ValidateCreate stored = None \<longleftrightarrow>
          http_url (sr_url (sr_spec r)) \<and> 0 \<le> sint (sr_timeout (sr_spec r)) \<and>
          present_ok (\<lambda>a. auth_type a \<in> set auth_types \<and> auth_ok a) (sr_auth (sr_spec r))) \<and>
       clientTimeout stored = clientTimeout r)"
proof (intro conjI)
  show "conforms schema_spec_crd (SchemaSpec_json (sch_spec s)) \<and> schema_ValidateCreate s = None \<longleftrightarrow>
      spec_subject (sch_spec s) \<noteq> [] \<and> spec_schema (sch_spec s) \<noteq> [] \<and>
      spec_schemaType (sch_spec s) \<in> {SchemaTypeAvro, SchemaTypeJSON, SchemaTypeProtobuf} \<and>
      spec_compatibilityLevel (sch_spec s) \<in> insert [] (set compatibility_levels) \<and>
      rr_name (spec_registryRef (sch_spec s)) \<noteq> [] \<and>
      (spec_schemaType (sch_spec s) = SchemaTypeProtobuf \<or> json_valid (spec_schema (sch_spec s))) \<and>
      list_all reference_ok (spec_references (sch_spec s))"
    using schema_rest [of s]
    by (auto simp: schema_conforms crd_schema_ok_def webhook_schema_rest_def schema_types_def)
next
  have "registry_ValidateCreate (r\<lparr>sr_spec := with_defaults (sr_spec r)\<rparr>) = None \<longleftrightarrow>
      present_ok auth_ok (sr_auth (sr_spec r))" if "crd_registry_ok (sr_spec r)"
    using registry_rest [of "r\<lparr>sr_spec := with_defaults (sr_spec r)\<rparr>"] that
    by (auto simp: crd_registry_ok_def with_defaults_def split: if_splits)
  then show "let v = defaulted registry_spec_crd (SchemaRegistrySpec_json (sr_spec r));
        stored = r\<lparr>sr_spec := the (read_SchemaRegistrySpec v)\<rparr>
    in (conforms registry_spec_crd v \<and> registry_ValidateCreate stored = None \<longleftrightarrow>
          http_url (sr_url (sr_spec r)) \<and> 0 \<le> sint (sr_timeout (sr_spec r)) \<and>
          present_ok (\<lambda>a. auth_type a \<in> set auth_types \<and> auth_ok a) (sr_auth (sr_spec r))) \<and>
       clientTimeout stored = clientTimeout r"
    unfolding Let_def registry_defaulted_conforms registry_defaulted_read option.sel
    using defaults_timeout [of r] timeout_pos [of "sr_timeout (sr_spec r)"]
    by (auto simp: crd_registry_ok_def present_ok_iff)
qed

end
