(* ===== verification/Heap.thy ===== *)
theory Heap
  imports Main
begin

text \<open>
  An explicit store for the code that copies structures through pointers and slices: cells at
  addresses, allocation, and assignment. A pointer is an optional address, a slice an optional
  pair of the address of its array and its length, \<open>None\<close> being nil.

  The locale \<open>deep_copy\<close> is the contract of a copy function: the copy has the value of the
  original, consists of new cells only, and no existing cell changes. Pointers, arrays and
  slices of a type that has such a function have one again.
\<close>

section \<open>The store\<close>

record 'c heap =
  heap_next :: nat
  heap_cells :: "nat \<Rightarrow> 'c option"

definition heap_wf :: "'c heap \<Rightarrow> bool" where
  "heap_wf h \<longleftrightarrow> (\<forall>x c. heap_cells h x = Some c \<longrightarrow> x < heap_next h)"

definition extends :: "'c heap \<Rightarrow> 'c heap \<Rightarrow> bool" where
  "extends g h \<longleftrightarrow>
     heap_next g \<le> heap_next h \<and> (\<forall>x < heap_next g. heap_cells h x = heap_cells g x)"

definition alloc :: "'c \<Rightarrow> 'c heap \<Rightarrow> nat \<times> 'c heap" where
  "alloc c h =
     (heap_next h, \<lparr>heap_next = Suc (heap_next h), heap_cells = (heap_cells h)(heap_next h \<mapsto> c)\<rparr>)"

definition store :: "nat \<Rightarrow> 'c \<Rightarrow> 'c heap \<Rightarrow> 'c heap" where
  "store a c h = h\<lparr>heap_cells := (heap_cells h)(a \<mapsto> c)\<rparr>"

lemma extends_refl [simp]: "extends h h"
  by (simp add: extends_def)

lemma extends_trans: "extends f g \<Longrightarrow> extends g h \<Longrightarrow> extends f h"
  by (simp add: extends_def)

lemma alloc_simps:
  assumes "alloc c h = (a, h')" "heap_wf h"
  shows "a = heap_next h" "heap_next h' = Suc (heap_next h)" "heap_cells h' a = Some c"
    "heap_wf h'" "extends h h'"
  using assms by (auto simp: alloc_def heap_wf_def extends_def less_Suc_eq split: if_splits)

lemma store_simps [simp]:
  "heap_next (store a c h) = heap_next h"
  "heap_cells (store a c h) x = (if x = a then Some c else heap_cells h x)"
  by (simp_all add: store_def)

lemma store_wf: "heap_wf h \<Longrightarrow> a < heap_next h \<Longrightarrow> heap_wf (store a c h)"
  by (auto simp: heap_wf_def store_def)

lemma store_extends: "extends g h \<Longrightarrow> heap_next g \<le> a \<Longrightarrow> extends g (store a c h)"
  by (auto simp: extends_def)

section \<open>Copying through pointers and slices\<close>

text \<open>
  \<open>if in.P != nil { *out.P = new(T); ... }\<close>: allocate, assign the contents, and copy what they
  point to. A pointer to no cell of the type does not occur in Go and is left alone.
\<close>

definition cell_at :: "('c \<Rightarrow> 'm option) \<Rightarrow> 'c heap \<Rightarrow> nat \<Rightarrow> 'm option" where
  "cell_at unwrap h a = Option.bind (heap_cells h a) unwrap"

definition copy_ptr ::
  "('m \<Rightarrow> 'c heap \<Rightarrow> 'm \<times> 'c heap) \<Rightarrow> ('m \<Rightarrow> 'c) \<Rightarrow> ('c \<Rightarrow> 'm option) \<Rightarrow>
    nat option \<Rightarrow> 'c heap \<Rightarrow> nat option \<times> 'c heap" where
  "copy_ptr copy wrap unwrap p h =
     (case p of
        None \<Rightarrow> (None, h)
      | Some a \<Rightarrow>
          (case cell_at unwrap h a of
             None \<Rightarrow> (None, h)
           | Some m \<Rightarrow>
               (case alloc (wrap m) h of (a', h1) \<Rightarrow>
                (case copy m h1 of (m', h2) \<Rightarrow> (Some a', store a' (wrap m') h2)))))"

text \<open>\<open>if in.P != nil { *out.P = (*in.P).DeepCopy() }\<close>.\<close>

definition copy_unless_nil ::
  "(nat option \<Rightarrow> 'c heap \<Rightarrow> nat option \<times> 'c heap) \<Rightarrow> nat option \<Rightarrow> 'c heap \<Rightarrow> nat option \<times> 'c heap" where
  "copy_unless_nil copy p h = (if p \<noteq> None then copy p h else (None, h))"

text \<open>\<open>for i := range *in { (*in)[i].DeepCopyInto(&(*out)[i]) }\<close>.\<close>

fun copy_elems :: "('m \<Rightarrow> 'c heap \<Rightarrow> 'm \<times> 'c heap) \<Rightarrow> 'm list \<Rightarrow> 'c heap \<Rightarrow> 'm list \<times> 'c heap" where
  "copy_elems copy [] h = ([], h)"
| "copy_elems copy (x # xs) h =
     (case copy x h of (x', h1) \<Rightarrow>
      (case copy_elems copy xs h1 of (xs', h2) \<Rightarrow> (x' # xs', h2)))"

text \<open>\<open>*out = make([]T, len(*in))\<close> and the loop over the elements.\<close>

definition copy_slice ::
  "('m \<Rightarrow> 'c heap \<Rightarrow> 'm \<times> 'c heap) \<Rightarrow> ('m list \<Rightarrow> 'c) \<Rightarrow> ('c \<Rightarrow> 'm list option) \<Rightarrow>
    (nat \<times> nat) option \<Rightarrow> 'c heap \<Rightarrow> (nat \<times> nat) option \<times> 'c heap" where
  "copy_slice copy wrap unwrap s h =
     (case s of
        None \<Rightarrow> (None, h)
      | Some (a, n) \<Rightarrow>
          (case cell_at unwrap h a of
             None \<Rightarrow> (None, h)
           | Some xs \<Rightarrow>
               (case alloc (wrap (take n xs)) h of (a', h1) \<Rightarrow>
                (case copy_elems copy (take n xs) h1 of (ys, h2) \<Rightarrow>
                   (Some (a', n), store a' (wrap ys) h2)))))"

text \<open>The value behind a pointer or a slice, and the addresses it occupies.\<close>

definition view_ptr ::
  "('c heap \<Rightarrow> 'm \<Rightarrow> 'v option) \<Rightarrow> ('c \<Rightarrow> 'm option) \<Rightarrow> 'c heap \<Rightarrow> nat option \<Rightarrow> 'v option option" where
  "view_ptr view unwrap h p =
     (case p of
        None \<Rightarrow> Some None
      | Some a \<Rightarrow> map_option Some (Option.bind (cell_at unwrap h a) (view h)))"

definition foot_ptr ::
  "('c heap \<Rightarrow> 'm \<Rightarrow> nat list) \<Rightarrow> ('c \<Rightarrow> 'm option) \<Rightarrow> 'c heap \<Rightarrow> nat option \<Rightarrow> nat list" where
  "foot_ptr foot unwrap h p =
     (case p of
        None \<Rightarrow> []
      | Some a \<Rightarrow> a # (case cell_at unwrap h a of None \<Rightarrow> [] | Some m \<Rightarrow> foot h m))"

fun view_elems :: "('c heap \<Rightarrow> 'm \<Rightarrow> 'v option) \<Rightarrow> 'c heap \<Rightarrow> 'm list \<Rightarrow> 'v list option" where
  "view_elems view h [] = Some []"
| "view_elems view h (x # xs) =
     (case view h x of
        None \<Rightarrow> None
      | Some v \<Rightarrow> map_option (\<lambda>vs. v # vs) (view_elems view h xs))"

definition foot_elems :: "('c heap \<Rightarrow> 'm \<Rightarrow> nat list) \<Rightarrow> 'c heap \<Rightarrow> 'm list \<Rightarrow> nat list" where
  "foot_elems foot h xs = concat (map (foot h) xs)"

definition view_slice ::
  "('c heap \<Rightarrow> 'm \<Rightarrow> 'v option) \<Rightarrow> ('c \<Rightarrow> 'm list option) \<Rightarrow> 'c heap \<Rightarrow> (nat \<times> nat) option \<Rightarrow>
    'v list option" where
  "view_slice view unwrap h s =
     (case s of
        None \<Rightarrow> Some []
      | Some (a, n) \<Rightarrow>
          (case cell_at unwrap h a of
             None \<Rightarrow> None
           | Some xs \<Rightarrow> if n \<le> length xs then view_elems view h (take n xs) else None))"

definition foot_slice ::
  "('c heap \<Rightarrow> 'm \<Rightarrow> nat list) \<Rightarrow> ('c \<Rightarrow> 'm list option) \<Rightarrow> 'c heap \<Rightarrow> (nat \<times> nat) option \<Rightarrow> nat list" where
  "foot_slice foot unwrap h s =
     (case s of
        None \<Rightarrow> []
      | Some (a, n) \<Rightarrow>
          a # (case cell_at unwrap h a of None \<Rightarrow> [] | Some xs \<Rightarrow> foot_elems foot h (take n xs)))"

section \<open>The contract\<close>

locale deep_copy =
  fixes copy :: "'m \<Rightarrow> 'c heap \<Rightarrow> 'm \<times> 'c heap"
    and view :: "'c heap \<Rightarrow> 'm \<Rightarrow> 'v option"
    and foot :: "'c heap \<Rightarrow> 'm \<Rightarrow> nat list"
  assumes copy_correct:
      "heap_wf h \<Longrightarrow> view h m = Some v \<Longrightarrow> copy m h = (m', h') \<Longrightarrow>
        heap_wf h' \<and> extends h h' \<and> view h' m' = Some v \<and>
        set (foot h' m') \<subseteq> {heap_next h..<heap_next h'}"
    and view_local:
      "view h m = Some v \<Longrightarrow> \<forall>x \<in> set (foot h m). heap_cells g x = heap_cells h x \<Longrightarrow>
        view g m = Some v \<and> foot g m = foot h m"
    and foot_dom: "view h m = Some v \<Longrightarrow> set (foot h m) \<subseteq> dom (heap_cells h)"
begin

lemma persists:
  assumes "heap_wf h" "view h m = Some v" "extends h g"
  shows "view g m = Some v \<and> foot g m = foot h m"
proof (rule view_local [OF assms(2)])
  show "\<forall>x \<in> set (foot h m). heap_cells g x = heap_cells h x"
    using foot_dom [OF assms(2)] assms(1,3) by (auto simp: heap_wf_def extends_def subset_iff)
qed

lemma view_store:
  assumes "view h m = Some v" "a \<notin> set (foot h m)"
  shows "view (store a c h) m = Some v \<and> foot (store a c h) m = foot h m"
proof (rule view_local [OF assms(1)])
  show "\<forall>x \<in> set (foot h m). heap_cells (store a c h) x = heap_cells h x"
    using assms(2) by auto
qed

text \<open>The copy and the original share no cell, and the original keeps its value.\<close>

lemma copy_disjoint:
  assumes "heap_wf h" "view h m = Some v" "copy m h = (m', h')"
  shows "set (foot h' m) \<inter> set (foot h' m') = {}"
proof -
  have c: "extends h h'" "set (foot h' m') \<subseteq> {heap_next h..<heap_next h'}"
    using copy_correct [OF assms] by auto
  have "foot h' m = foot h m" using persists [OF assms(1,2) c(1)] by simp
  moreover have "set (foot h m) \<subseteq> {..<heap_next h}"
    using foot_dom [OF assms(2)] assms(1) by (auto simp: heap_wf_def)
  ultimately show ?thesis using c(2) by force
qed

text \<open>Whatever is written through the copy, the original does not change, and conversely.\<close>

lemma write_copy:
  assumes "heap_wf h" "view h m = Some v" "copy m h = (m', h')" "a \<in> set (foot h' m')"
  shows "view (store a c h') m = Some v"
proof -
  have o: "view h' m = Some v"
    using persists [OF assms(1,2)] copy_correct [OF assms(1-3)] by blast
  have "a \<notin> set (foot h' m)" using copy_disjoint [OF assms(1-3)] assms(4) by blast
  then show ?thesis using view_store [OF o] by blast
qed

lemma write_original:
  assumes "heap_wf h" "view h m = Some v" "copy m h = (m', h')" "a \<in> set (foot h' m)"
  shows "view (store a c h') m' = Some v"
proof -
  have o: "view h' m' = Some v" using copy_correct [OF assms(1-3)] by blast
  have "a \<notin> set (foot h' m')" using copy_disjoint [OF assms(1-3)] assms(4) by blast
  then show ?thesis using view_store [OF o] by blast
qed

text \<open>Copying an array element by element.\<close>

lemma elems_persist:
  assumes "heap_wf h" "extends h g"
  shows "view_elems view h xs = Some vs \<Longrightarrow> view_elems view g xs = Some vs"
proof (induction xs arbitrary: vs)
  case Nil
  then show ?case by simp
next
  case (Cons x xs)
  obtain v vs' where v: "view h x = Some v" "view_elems view h xs = Some vs'" "vs = v # vs'"
    using Cons.prems by (auto split: option.splits)
  have "view g x = Some v" using persists [OF assms(1) v(1) assms(2)] by simp
  then show ?case using Cons.IH [OF v(2)] v(3) by simp
qed

lemma elems_correct:
  "heap_wf h \<Longrightarrow> view_elems view h xs = Some vs \<Longrightarrow> copy_elems copy xs h = (ys, h') \<Longrightarrow>
    heap_wf h' \<and> extends h h' \<and> view_elems view h' ys = Some vs \<and> length ys = length xs \<and>
    set (foot_elems foot h' ys) \<subseteq> {heap_next h..<heap_next h'}"
proof (induction xs arbitrary: h vs ys h')
  case Nil
  then show ?case by (auto simp: foot_elems_def)
next
  case (Cons x xs)
  obtain v vs' where v: "view h x = Some v" "view_elems view h xs = Some vs'" "vs = v # vs'"
    using Cons.prems(2) by (auto split: option.splits)
  obtain x' h1 where c: "copy x h = (x', h1)" by (cases "copy x h")
  obtain ys' where r: "copy_elems copy xs h1 = (ys', h')" "ys = x' # ys'"
    using Cons.prems(3) c by (auto split: prod.splits)
  note c1 = copy_correct [OF Cons.prems(1) v(1) c]
  have "view_elems view h1 xs = Some vs'"
    using elems_persist [OF Cons.prems(1) _ v(2)] c1 by blast
  note IH = Cons.IH [OF conjunct1 [OF c1] this r(1)]
  have "view h' x' = Some v \<and> foot h' x' = foot h1 x'" using persists c1 IH by blast
  moreover have "heap_next h \<le> heap_next h1" "heap_next h1 \<le> heap_next h'"
    using c1 IH by (auto simp: extends_def)
  moreover have "extends h h'" using c1 IH extends_trans by blast
  moreover have "set (foot h1 x') \<subseteq> {heap_next h..<heap_next h'}"
    using c1 calculation(2,3) by (auto simp: subset_iff)
  moreover have "set (foot_elems foot h' ys') \<subseteq> {heap_next h..<heap_next h'}"
    using IH calculation(2,3) by (auto simp: subset_iff)
  ultimately show ?case using IH v(3) r(2) by (simp add: foot_elems_def)
qed

lemma elems_local:
  "view_elems view h xs = Some vs \<Longrightarrow> \<forall>x \<in> set (foot_elems foot h xs). heap_cells g x = heap_cells h x \<Longrightarrow>
    view_elems view g xs = Some vs \<and> foot_elems foot g xs = foot_elems foot h xs"
proof (induction xs arbitrary: vs)
  case Nil
  then show ?case by (simp add: foot_elems_def)
next
  case (Cons x xs)
  obtain v vs' where v: "view h x = Some v" "view_elems view h xs = Some vs'" "vs = v # vs'"
    using Cons.prems(1) by (auto split: option.splits)
  have f: "foot_elems foot h (x # xs) = foot h x @ foot_elems foot h xs" by (simp add: foot_elems_def)
  have "view g x = Some v \<and> foot g x = foot h x"
    by (rule view_local [OF v(1)]) (use Cons.prems(2) f in simp)
  moreover have "view_elems view g xs = Some vs' \<and> foot_elems foot g xs = foot_elems foot h xs"
    by (rule Cons.IH [OF v(2)]) (use Cons.prems(2) f in simp)
  ultimately show ?case using v(3) by (simp add: foot_elems_def)
qed

lemma elems_dom:
  "view_elems view h xs = Some vs \<Longrightarrow> set (foot_elems foot h xs) \<subseteq> dom (heap_cells h)"
proof (induction xs arbitrary: vs)
  case Nil
  then show ?case by (simp add: foot_elems_def)
next
  case (Cons x xs)
  obtain v vs' where v: "view h x = Some v" "view_elems view h xs = Some vs'"
    using Cons.prems by (auto split: option.splits)
  have "foot_elems foot h (x # xs) = foot h x @ foot_elems foot h xs" by (simp add: foot_elems_def)
  then show ?case using foot_dom [OF v(1)] Cons.IH [OF v(2)] by simp
qed

lemma elems_length: "view_elems view h xs = Some vs \<Longrightarrow> length vs = length xs"
  by (induction xs arbitrary: vs) (auto split: option.splits)

end

text \<open>
  A type whose values live in cells of their own: \<open>wrap\<close> makes the cell, \<open>unwrap\<close> reads it. Then
  pointers to the type are copied deeply by \<open>copy_ptr\<close>; with a cell for arrays of it, slices
  are by \<open>copy_slice\<close>.
\<close>

locale deep_copy_cell = deep_copy copy view foot
  for copy :: "'m \<Rightarrow> 'c heap \<Rightarrow> 'm \<times> 'c heap"
    and view :: "'c heap \<Rightarrow> 'm \<Rightarrow> 'v option"
    and foot :: "'c heap \<Rightarrow> 'm \<Rightarrow> nat list" +
  fixes wrap :: "'m \<Rightarrow> 'c"
    and unwrap :: "'c \<Rightarrow> 'm option"
  assumes unwrap_wrap: "unwrap (wrap m) = Some m"
begin

lemma ptr_correct:
  assumes wf: "heap_wf h" and v: "view_ptr view unwrap h p = Some v"
    and c: "copy_ptr copy wrap unwrap p h = (p', h')"
  shows "heap_wf h' \<and> extends h h' \<and> view_ptr view unwrap h' p' = Some v \<and>
    set (foot_ptr foot unwrap h' p') \<subseteq> {heap_next h..<heap_next h'}"
proof (cases p)
  case None
  then show ?thesis using assms by (simp add: copy_ptr_def view_ptr_def foot_ptr_def)
next
  case (Some a)
  obtain m u where m: "cell_at unwrap h a = Some m" "view h m = Some u" "v = Some u"
    using v Some by (cases "cell_at unwrap h a") (auto simp: view_ptr_def)
  obtain a' h1 where al: "alloc (wrap m) h = (a', h1)" by (cases "alloc (wrap m) h")
  note a1 = alloc_simps [OF al wf]
  obtain m' h2 where cp: "copy m h1 = (m', h2)" by (cases "copy m h1")
  have "view h1 m = Some u" using persists [OF wf m(2) a1(5)] by simp
  note c1 = copy_correct [OF a1(4) this cp]
  have r: "p' = Some a'" "h' = store a' (wrap m') h2"
    using c Some m(1) al cp by (simp_all add: copy_ptr_def)
  have a': "heap_next h \<le> a'" "a' < heap_next h2" using a1 c1 by (auto simp: extends_def)
  have fresh: "a' \<notin> set (foot h2 m')" using a1 c1 by auto
  note s1 = view_store [OF _ fresh, of u "wrap m'"]
  have at: "cell_at unwrap h' a' = Some m'" by (simp add: cell_at_def r(2) unwrap_wrap)
  have "heap_wf h'" "extends h h'"
    using c1 a1 a' r(2) extends_trans [of h h1 h2] by (simp_all add: store_wf store_extends)
  moreover have "view_ptr view unwrap h' p' = Some v"
    using at s1 c1 m(3) r by (simp add: view_ptr_def)
  moreover have "foot_ptr foot unwrap h' p' = a' # foot h2 m'"
    using at s1 c1 r by (simp add: foot_ptr_def)
  ultimately show ?thesis using c1 a1 a' r(2) by auto
qed

lemma ptr_local:
  assumes v: "view_ptr view unwrap h p = Some v"
    and same: "\<forall>x \<in> set (foot_ptr foot unwrap h p). heap_cells g x = heap_cells h x"
  shows "view_ptr view unwrap g p = Some v \<and> foot_ptr foot unwrap g p = foot_ptr foot unwrap h p"
proof (cases p)
  case None
  then show ?thesis using v by (simp add: view_ptr_def foot_ptr_def)
next
  case (Some a)
  obtain m u where m: "cell_at unwrap h a = Some m" "view h m = Some u" "v = Some u"
    using v Some by (cases "cell_at unwrap h a") (auto simp: view_ptr_def)
  have f: "foot_ptr foot unwrap h p = a # foot h m" by (simp add: foot_ptr_def Some m(1))
  have "heap_cells g a = heap_cells h a" using same f by simp
  then have at: "cell_at unwrap g a = Some m" using m(1) by (simp add: cell_at_def)
  have "view g m = Some u \<and> foot g m = foot h m"
    by (rule view_local [OF m(2)]) (use same f in simp)
  then show ?thesis using at m(3) Some f by (simp add: view_ptr_def foot_ptr_def)
qed

lemma cell_at_dom: "cell_at unwrap h a = Some m \<Longrightarrow> a \<in> dom (heap_cells h)"
  by (cases "heap_cells h a") (auto simp: cell_at_def)

lemma ptr_dom:
  assumes "view_ptr view unwrap h p = Some v"
  shows "set (foot_ptr foot unwrap h p) \<subseteq> dom (heap_cells h)"
proof (cases p)
  case None
  then show ?thesis by (simp add: foot_ptr_def)
next
  case (Some a)
  obtain m u where m: "cell_at unwrap h a = Some m" "view h m = Some u"
    using assms Some by (cases "cell_at unwrap h a") (auto simp: view_ptr_def)
  then show ?thesis using cell_at_dom [OF m(1)] foot_dom [OF m(2)] Some by (simp add: foot_ptr_def)
qed

end

sublocale deep_copy_cell \<subseteq> ptr: deep_copy
  "copy_ptr copy wrap unwrap" "view_ptr view unwrap" "foot_ptr foot unwrap"
  by (unfold_locales; rule ptr_correct ptr_local ptr_dom; assumption)

locale deep_copy_array = deep_copy copy view foot
  for copy :: "'m \<Rightarrow> 'c heap \<Rightarrow> 'm \<times> 'c heap"
    and view :: "'c heap \<Rightarrow> 'm \<Rightarrow> 'v option"
    and foot :: "'c heap \<Rightarrow> 'm \<Rightarrow> nat list" +
  fixes wrap_array :: "'m list \<Rightarrow> 'c"
    and unwrap_array :: "'c \<Rightarrow> 'm list option"
  assumes unwrap_wrap_array: "unwrap_array (wrap_array xs) = Some xs"
begin

lemma slice_view_cases:
  assumes "view_slice view unwrap_array h s = Some vs"
  obtains "s = None" "vs = []"
  | a n xs where "s = Some (a, n)" "cell_at unwrap_array h a = Some xs" "n \<le> length xs"
      "view_elems view h (take n xs) = Some vs"
  using assms by (auto simp: view_slice_def split: option.splits if_splits)

lemma elems_view_store:
  assumes "view_elems view h xs = Some vs" "a \<notin> set (foot_elems foot h xs)"
  shows "view_elems view (store a c h) xs = Some vs \<and> foot_elems foot (store a c h) xs = foot_elems foot h xs"
proof (rule elems_local [OF assms(1)])
  show "\<forall>x \<in> set (foot_elems foot h xs). heap_cells (store a c h) x = heap_cells h x"
    using assms(2) by auto
qed

lemma slice_correct:
  assumes wf: "heap_wf h" and v: "view_slice view unwrap_array h s = Some vs"
    and c: "copy_slice copy wrap_array unwrap_array s h = (s', h')"
  shows "heap_wf h' \<and> extends h h' \<and> view_slice view unwrap_array h' s' = Some vs \<and>
    set (foot_slice foot unwrap_array h' s') \<subseteq> {heap_next h..<heap_next h'}"
  using v
proof (cases rule: slice_view_cases)
  case 1
  then show ?thesis using wf c by (simp add: copy_slice_def view_slice_def foot_slice_def)
next
  case (2 a n xs)
  let ?ys = "take n xs"
  obtain a' h1 where al: "alloc (wrap_array ?ys) h = (a', h1)" by (cases "alloc (wrap_array ?ys) h")
  note a1 = alloc_simps [OF al wf]
  obtain zs h2 where cp: "copy_elems copy ?ys h1 = (zs, h2)" by (cases "copy_elems copy ?ys h1")
  have "view_elems view h1 ?ys = Some vs" by (rule elems_persist [OF wf a1(5) 2(4)])
  note c1 = elems_correct [OF a1(4) this cp]
  have r: "s' = Some (a', n)" "h' = store a' (wrap_array zs) h2"
    using c 2 al cp by (simp_all add: copy_slice_def)
  have n: "length zs = n" "take n zs = zs" using c1 2(3) by simp_all
  have a': "heap_next h \<le> a'" "a' < heap_next h2" using a1 c1 by (auto simp: extends_def)
  have fresh: "a' \<notin> set (foot_elems foot h2 zs)" using a1 c1 by auto
  note s1 = elems_view_store [OF _ fresh, of vs "wrap_array zs"]
  have at: "cell_at unwrap_array h' a' = Some zs" by (simp add: cell_at_def r(2) unwrap_wrap_array)
  have "heap_wf h'" "extends h h'"
    using c1 a1 a' r(2) extends_trans [of h h1 h2] by (simp_all add: store_wf store_extends)
  moreover have "view_slice view unwrap_array h' s' = Some vs"
    using at s1 c1 n r by (simp add: view_slice_def)
  moreover have "foot_slice foot unwrap_array h' s' = a' # foot_elems foot h2 zs"
    using at s1 c1 n r by (simp add: foot_slice_def)
  ultimately show ?thesis using c1 a1 a' r(2) by auto
qed

lemma slice_local:
  assumes v: "view_slice view unwrap_array h s = Some vs"
    and same: "\<forall>x \<in> set (foot_slice foot unwrap_array h s). heap_cells g x = heap_cells h x"
  shows "view_slice view unwrap_array g s = Some vs \<and>
    foot_slice foot unwrap_array g s = foot_slice foot unwrap_array h s"
  using v
proof (cases rule: slice_view_cases)
  case 1
  then show ?thesis by (simp add: view_slice_def foot_slice_def)
next
  case (2 a n xs)
  have f: "foot_slice foot unwrap_array h s = a # foot_elems foot h (take n xs)"
    by (simp add: foot_slice_def 2)
  have "heap_cells g a = heap_cells h a" using same f by simp
  then have at: "cell_at unwrap_array g a = Some xs" using 2(2) by (simp add: cell_at_def)
  have "view_elems view g (take n xs) = Some vs \<and>
      foot_elems foot g (take n xs) = foot_elems foot h (take n xs)"
    by (rule elems_local [OF 2(4)]) (use same f in simp)
  then show ?thesis using at 2(1,3) f by (simp add: view_slice_def foot_slice_def)
qed

lemma slice_dom:
  assumes v: "view_slice view unwrap_array h s = Some vs"
  shows "set (foot_slice foot unwrap_array h s) \<subseteq> dom (heap_cells h)"
  using v
proof (cases rule: slice_view_cases)
  case 1
  then show ?thesis by (simp add: foot_slice_def)
next
  case (2 a n xs)
  have "a \<in> dom (heap_cells h)" using 2(2) by (cases "heap_cells h a") (auto simp: cell_at_def)
  then show ?thesis using elems_dom [OF 2(4)] 2 by (simp add: foot_slice_def)
qed

end

sublocale deep_copy_array \<subseteq> slice: deep_copy
  "copy_slice copy wrap_array unwrap_array" "view_slice view unwrap_array" "foot_slice foot unwrap_array"
  by (unfold_locales; rule slice_correct slice_local slice_dom; assumption)

section \<open>Building contracts\<close>

text \<open>
  The contract of a structure from those of its parts: plain values, pairs of parts copied
  one after the other, and a record whose parts are replaced. The rules are collected in
  \<open>copy_intros\<close>.
\<close>

named_theorems copy_intros

definition plain_copy :: "'m \<Rightarrow> 'c heap \<Rightarrow> 'm \<times> 'c heap" where
  "plain_copy m h = (m, h)"

definition plain_view :: "'c heap \<Rightarrow> 'm \<Rightarrow> 'm option" where
  "plain_view h m = Some m"

definition plain_foot :: "'c heap \<Rightarrow> 'm \<Rightarrow> nat list" where
  "plain_foot h m = []"

lemmas plain_defs = plain_copy_def plain_view_def plain_foot_def

interpretation plain: deep_copy plain_copy plain_view plain_foot
  by unfold_locales (auto simp: plain_defs)

lemma deep_copy_plain [copy_intros]: "deep_copy plain_copy plain_view plain_foot"
  by (rule plain.deep_copy_axioms)

lemma deep_copy_ptr:
  assumes "deep_copy_cell copy view foot wrap unwrap"
  shows "deep_copy (copy_ptr copy wrap unwrap) (view_ptr view unwrap) (foot_ptr foot unwrap)"
  by (rule deep_copy.intro; rule deep_copy_cell.ptr_correct [OF assms] deep_copy_cell.ptr_local [OF assms]
      deep_copy_cell.ptr_dom [OF assms]; assumption)

lemma deep_copy_slice:
  assumes "deep_copy_array copy view foot wrap unwrap"
  shows "deep_copy (copy_slice copy wrap unwrap) (view_slice view unwrap) (foot_slice foot unwrap)"
  by (rule deep_copy.intro; rule deep_copy_array.slice_correct [OF assms]
      deep_copy_array.slice_local [OF assms] deep_copy_array.slice_dom [OF assms]; assumption)

lemma deep_copy_ptr_intro [copy_intros]:
  assumes "deep_copy copy view foot" "\<And>m. unwrap (wrap m) = Some m"
  shows "deep_copy (copy_ptr copy wrap unwrap) (view_ptr view unwrap) (foot_ptr foot unwrap)"
  by (intro deep_copy_ptr deep_copy_cell.intro deep_copy_cell_axioms.intro assms)

lemma deep_copy_unless_nil [copy_intros]:
  assumes c: "deep_copy copy (view_ptr view unwrap) (foot_ptr foot unwrap)"
  shows "deep_copy (copy_unless_nil copy) (view_ptr view unwrap) (foot_ptr foot unwrap)"
proof (rule deep_copy.intro)
  fix h p v p' h'
  assume a: "heap_wf h" "view_ptr view unwrap h p = Some v" "copy_unless_nil copy p h = (p', h')"
  show "heap_wf h' \<and> extends h h' \<and> view_ptr view unwrap h' p' = Some v \<and>
      set (foot_ptr foot unwrap h' p') \<subseteq> {heap_next h..<heap_next h'}"
  proof (cases p)
    case None
    then show ?thesis using a by (simp add: copy_unless_nil_def view_ptr_def foot_ptr_def)
  next
    case (Some x)
    then have "copy p h = (p', h')" using a(3) by (simp add: copy_unless_nil_def)
    then show ?thesis by (rule deep_copy.copy_correct [OF c a(1,2)])
  qed
qed (rule deep_copy.view_local [OF c] deep_copy.foot_dom [OF c]; assumption)+

lemma deep_copy_slice_intro [copy_intros]:
  assumes "deep_copy copy view foot" "\<And>xs. unwrap (wrap xs) = Some xs"
  shows "deep_copy (copy_slice copy wrap unwrap) (view_slice view unwrap) (foot_slice foot unwrap)"
  by (intro deep_copy_slice deep_copy_array.intro deep_copy_array_axioms.intro assms)

definition copy_both ::
  "('m \<Rightarrow> 'c heap \<Rightarrow> 'm \<times> 'c heap) \<Rightarrow> ('n \<Rightarrow> 'c heap \<Rightarrow> 'n \<times> 'c heap) \<Rightarrow>
    'm \<times> 'n \<Rightarrow> 'c heap \<Rightarrow> ('m \<times> 'n) \<times> 'c heap" where
  "copy_both c1 c2 p h =
     (case c1 (fst p) h of (m, h1) \<Rightarrow> (case c2 (snd p) h1 of (n, h2) \<Rightarrow> ((m, n), h2)))"

definition view_both ::
  "('c heap \<Rightarrow> 'm \<Rightarrow> 'v option) \<Rightarrow> ('c heap \<Rightarrow> 'n \<Rightarrow> 'w option) \<Rightarrow>
    'c heap \<Rightarrow> 'm \<times> 'n \<Rightarrow> ('v \<times> 'w) option" where
  "view_both v1 v2 h p =
     (case v1 h (fst p) of None \<Rightarrow> None | Some v \<Rightarrow> map_option (Pair v) (v2 h (snd p)))"

definition foot_both ::
  "('c heap \<Rightarrow> 'm \<Rightarrow> nat list) \<Rightarrow> ('c heap \<Rightarrow> 'n \<Rightarrow> nat list) \<Rightarrow> 'c heap \<Rightarrow> 'm \<times> 'n \<Rightarrow> nat list" where
  "foot_both f1 f2 h p = f1 h (fst p) @ f2 h (snd p)"

lemma view_both_Some:
  "view_both v1 v2 h p = Some u \<longleftrightarrow> v1 h (fst p) = Some (fst u) \<and> v2 h (snd p) = Some (snd u)"
  by (cases u) (auto simp: view_both_def split: option.splits)

lemma deep_copy_both [copy_intros]:
  fixes v1 :: "'c heap \<Rightarrow> 'm \<Rightarrow> 'v option"
  assumes c1: "deep_copy c1 v1 f1" and c2: "deep_copy c2 v2 f2"
  shows "deep_copy (copy_both c1 c2) (view_both v1 v2) (foot_both f1 f2)"
proof (rule deep_copy.intro)
  fix h p u p' h'
  assume wf: "heap_wf h" and v: "view_both v1 v2 h p = Some u" and c: "copy_both c1 c2 p h = (p', h')"
  obtain m h1 where cp1: "c1 (fst p) h = (m, h1)" by (cases "c1 (fst p) h")
  obtain n h2 where cp2: "c2 (snd p) h1 = (n, h2)" by (cases "c2 (snd p) h1")
  have r: "p' = (m, n)" "h' = h2" using c cp1 cp2 by (simp_all add: copy_both_def)
  note a1 = deep_copy.copy_correct [OF c1 wf conjunct1 [OF v [unfolded view_both_Some]] cp1]
  have "v2 h1 (snd p) = Some (snd u)"
    using deep_copy.persists [OF c2 wf conjunct2 [OF v [unfolded view_both_Some]]] a1 by blast
  note a2 = deep_copy.copy_correct [OF c2 conjunct1 [OF a1] this cp2]
  have keep: "v1 h2 m = Some (fst u) \<and> f1 h2 m = f1 h1 m"
    using deep_copy.persists [OF c1] a1 a2 by blast
  have "extends h h2" using a1 a2 extends_trans by blast
  moreover have "heap_next h \<le> heap_next h1" "heap_next h1 \<le> heap_next h2"
    using a1 a2 by (simp_all add: extends_def)
  ultimately show "heap_wf h' \<and> extends h h' \<and> view_both v1 v2 h' p' = Some u \<and>
      set (foot_both f1 f2 h' p') \<subseteq> {heap_next h..<heap_next h'}"
    using a1 a2 keep r by (auto simp: view_both_Some foot_both_def)
next
  fix h p u and g :: "'c heap"
  assume v: "view_both v1 v2 h p = Some u"
    and same: "\<forall>x \<in> set (foot_both f1 f2 h p). heap_cells g x = heap_cells h x"
  have "v1 g (fst p) = Some (fst u) \<and> f1 g (fst p) = f1 h (fst p)"
    by (rule deep_copy.view_local [OF c1 conjunct1 [OF v [unfolded view_both_Some]]])
      (use same in \<open>simp add: foot_both_def\<close>)
  moreover have "v2 g (snd p) = Some (snd u) \<and> f2 g (snd p) = f2 h (snd p)"
    by (rule deep_copy.view_local [OF c2 conjunct2 [OF v [unfolded view_both_Some]]])
      (use same in \<open>simp add: foot_both_def\<close>)
  ultimately show "view_both v1 v2 g p = Some u \<and> foot_both f1 f2 g p = foot_both f1 f2 h p"
    by (simp add: view_both_Some foot_both_def)
next
  fix h p u
  assume "view_both v1 v2 h p = Some u"
  then show "set (foot_both f1 f2 h p) \<subseteq> dom (heap_cells h)"
    using deep_copy.foot_dom [OF c1] deep_copy.foot_dom [OF c2]
    by (simp add: view_both_Some foot_both_def)
qed

text \<open>
  A record \<open>r\<close> with the parts \<open>parts r\<close>: its copy has the copied parts, its value is that of its
  parts together with its plain fields.
\<close>

definition copy_via ::
  "('r \<Rightarrow> 'm) \<Rightarrow> ('r \<Rightarrow> 'm \<Rightarrow> 'r) \<Rightarrow> ('m \<Rightarrow> 'c heap \<Rightarrow> 'm \<times> 'c heap) \<Rightarrow> 'r \<Rightarrow> 'c heap \<Rightarrow> 'r \<times> 'c heap" where
  "copy_via parts build copy r h = (case copy (parts r) h of (m, h1) \<Rightarrow> (build r m, h1))"

definition view_via ::
  "('r \<Rightarrow> 'm) \<Rightarrow> ('r \<Rightarrow> 'v \<Rightarrow> 'w) \<Rightarrow> ('c heap \<Rightarrow> 'm \<Rightarrow> 'v option) \<Rightarrow> 'c heap \<Rightarrow> 'r \<Rightarrow> 'w option" where
  "view_via parts val view h r = map_option (val r) (view h (parts r))"

definition foot_via :: "('r \<Rightarrow> 'm) \<Rightarrow> ('c heap \<Rightarrow> 'm \<Rightarrow> nat list) \<Rightarrow> 'c heap \<Rightarrow> 'r \<Rightarrow> nat list" where
  "foot_via parts foot h r = foot h (parts r)"

lemma deep_copy_via [copy_intros]:
  fixes view :: "'c heap \<Rightarrow> 'm \<Rightarrow> 'v option"
  assumes c: "deep_copy copy view foot"
    and b: "\<And>r m. parts (build r m) = m" "\<And>r m v. val (build r m) v = val r v"
  shows "deep_copy (copy_via parts build copy) (view_via parts val view) (foot_via parts foot)"
proof (rule deep_copy.intro)
  fix h r w r' h'
  assume wf: "heap_wf h" and v: "view_via parts val view h r = Some w"
    and cp: "copy_via parts build copy r h = (r', h')"
  obtain m where m: "copy (parts r) h = (m, h')" "r' = build r m"
    using cp by (auto simp: copy_via_def split: prod.splits)
  obtain u where u: "view h (parts r) = Some u" "w = val r u"
    using v by (auto simp: view_via_def)
  show "heap_wf h' \<and> extends h h' \<and> view_via parts val view h' r' = Some w \<and>
      set (foot_via parts foot h' r') \<subseteq> {heap_next h..<heap_next h'}"
    using deep_copy.copy_correct [OF c wf u(1) m(1)] u(2) m(2) b
    by (simp add: view_via_def foot_via_def)
next
  fix h r w and g :: "'c heap"
  assume v: "view_via parts val view h r = Some w"
    and same: "\<forall>x \<in> set (foot_via parts foot h r). heap_cells g x = heap_cells h x"
  obtain u where u: "view h (parts r) = Some u" "w = val r u"
    using v by (auto simp: view_via_def)
  have "view g (parts r) = Some u \<and> foot g (parts r) = foot h (parts r)"
    by (rule deep_copy.view_local [OF c u(1)]) (use same in \<open>simp add: foot_via_def\<close>)
  then show "view_via parts val view g r = Some w \<and> foot_via parts foot g r = foot_via parts foot h r"
    using u(2) by (simp add: view_via_def foot_via_def)
next
  fix h r w
  assume "view_via parts val view h r = Some w"
  then obtain u where "view h (parts r) = Some u" by (auto simp: view_via_def)
  then show "set (foot_via parts foot h r) \<subseteq> dom (heap_cells h)"
    using deep_copy.foot_dom [OF c] by (simp add: foot_via_def)
qed

end
