(* ===== verification/DeepCopy.thy ===== *)
theory DeepCopy
  imports ApiTypes Heap
begin

text \<open>
  The generated copy functions of \<open>api/v1alpha1/zz_generated.deepcopy.go\<close>, over the explicit
  store of \<open>Heap\<close>. A structure in memory has pointers and slices where the Go struct has them; a
  view gives its value as the record of \<open>ApiTypes\<close>. \<open>T_DeepCopyInto\<close> takes the contents of the
  receiver and returns the contents of \<open>*out\<close>, \<open>T_DeepCopy\<close> takes and returns a pointer.

  The copy functions of the apimachinery types \<open>ObjectMeta\<close>, \<open>ListMeta\<close>, \<open>Condition\<close> and \<open>Time\<close>
  are parameters (a \<open>library\<close>); how the two kinds of metadata lie in memory is left open by the
  type parameters \<open>'om\<close> and \<open>'lm\<close>.
\<close>

section \<open>Structures in memory\<close>

type_synonym ptr = "nat option"
type_synonym slice = "(nat \<times> nat) option"

record TypeMeta =
  type_kind :: string
  type_apiVersion :: string

record AuthConfigMem =
  am_type :: AuthType
  am_basicAuth :: ptr
  am_bearerAuth :: ptr
  am_mtls :: ptr

record SchemaSpecMem =
  sm_subject :: string
  sm_schemaType :: SchemaType
  sm_schema :: string
  sm_references :: slice
  sm_registryRef :: SchemaRegistryRef
  sm_compatibilityLevel :: string

record SchemaStatusMem =
  tm_schemaID :: ptr
  tm_version :: ptr
  tm_registeredAt :: ptr
  tm_observedGeneration :: go_int
  tm_conditions :: slice

record 'om SchemaMem =
  hm_type :: TypeMeta
  hm_meta :: 'om
  hm_spec :: SchemaSpecMem
  hm_status :: SchemaStatusMem

record SchemaRegistrySpecMem =
  rsm_url :: string
  rsm_auth :: ptr
  rsm_insecureSkipVerify :: bool
  rsm_timeout :: go_int

record SchemaRegistryStatusMem =
  rtm_connectionStatus :: string
  rtm_lastChecked :: ptr
  rtm_observedGeneration :: go_int
  rtm_conditions :: slice

record 'om SchemaRegistryMem =
  rhm_type :: TypeMeta
  rhm_meta :: 'om
  rhm_spec :: SchemaRegistrySpecMem
  rhm_status :: SchemaRegistryStatusMem

record 'lm SchemaListMem =
  lm_type :: TypeMeta
  lm_meta :: 'lm
  lm_items :: slice

record 'lm SchemaRegistryListMem =
  rlm_type :: TypeMeta
  rlm_meta :: 'lm
  rlm_items :: slice

text \<open>What a cell of the store holds: a value \<open>new\<close> allocates, or an array \<open>make\<close> allocates.\<close>

datatype ('om, 'lm) cell =
    BasicCell BasicAuthConfig
  | BearerCell BearerAuthConfig
  | MtlsCell MTLSConfig
  | AuthCell AuthConfigMem
  | IntCell go_int
  | TimeCell instant
  | ReferenceCell SchemaReference
  | RegistryRefCell SchemaRegistryRef
  | ReferencesCell "SchemaReference list"
  | ConditionsCell "Condition list"
  | SpecCell SchemaSpecMem
  | StatusCell SchemaStatusMem
  | SchemaCell "'om SchemaMem"
  | SchemasCell "'om SchemaMem list"
  | SchemaListCell "'lm SchemaListMem"
  | RegistrySpecCell SchemaRegistrySpecMem
  | RegistryStatusCell SchemaRegistryStatusMem
  | RegistryCell "'om SchemaRegistryMem"
  | RegistriesCell "'om SchemaRegistryMem list"
  | RegistryListCell "'lm SchemaRegistryListMem"
  | StringsCell "string list"

type_synonym ('om, 'lm) mem = "('om, 'lm) cell heap"

definition "the_basic c = (case c of BasicCell x \<Rightarrow> Some x | _ \<Rightarrow> None)"
definition "the_bearer c = (case c of BearerCell x \<Rightarrow> Some x | _ \<Rightarrow> None)"
definition "the_mtls c = (case c of MtlsCell x \<Rightarrow> Some x | _ \<Rightarrow> None)"
definition "the_auth c = (case c of AuthCell x \<Rightarrow> Some x | _ \<Rightarrow> None)"
definition "the_int c = (case c of IntCell x \<Rightarrow> Some x | _ \<Rightarrow> None)"
definition "the_time c = (case c of TimeCell x \<Rightarrow> Some x | _ \<Rightarrow> None)"
definition "the_reference c = (case c of ReferenceCell x \<Rightarrow> Some x | _ \<Rightarrow> None)"
definition "the_registryRef c = (case c of RegistryRefCell x \<Rightarrow> Some x | _ \<Rightarrow> None)"
definition "the_references c = (case c of ReferencesCell x \<Rightarrow> Some x | _ \<Rightarrow> None)"
definition "the_conditions c = (case c of ConditionsCell x \<Rightarrow> Some x | _ \<Rightarrow> None)"
definition "the_spec c = (case c of SpecCell x \<Rightarrow> Some x | _ \<Rightarrow> None)"
definition "the_status c = (case c of StatusCell x \<Rightarrow> Some x | _ \<Rightarrow> None)"
definition "the_schema c = (case c of SchemaCell x \<Rightarrow> Some x | _ \<Rightarrow> None)"
definition "the_schemas c = (case c of SchemasCell x \<Rightarrow> Some x | _ \<Rightarrow> None)"
definition "the_schemaList c = (case c of SchemaListCell x \<Rightarrow> Some x | _ \<Rightarrow> None)"
definition "the_registrySpec c = (case c of RegistrySpecCell x \<Rightarrow> Some x | _ \<Rightarrow> None)"
definition "the_registryStatus c = (case c of RegistryStatusCell x \<Rightarrow> Some x | _ \<Rightarrow> None)"
definition "the_registry c = (case c of RegistryCell x \<Rightarrow> Some x | _ \<Rightarrow> None)"
definition "the_registries c = (case c of RegistriesCell x \<Rightarrow> Some x | _ \<Rightarrow> None)"
definition "the_registryList c = (case c of RegistryListCell x \<Rightarrow> Some x | _ \<Rightarrow> None)"

lemmas the_cell_defs =
  the_basic_def the_bearer_def the_mtls_def the_auth_def the_int_def the_time_def the_reference_def
  the_registryRef_def the_references_def the_conditions_def the_spec_def the_status_def
  the_schema_def the_schemas_def the_schemaList_def the_registrySpec_def the_registryStatus_def
  the_registry_def the_registries_def the_registryList_def

text \<open>The copy functions of the apimachinery types.\<close>

record ('om, 'lm) library =
  lib_meta :: "'om \<Rightarrow> ('om, 'lm) mem \<Rightarrow> 'om \<times> ('om, 'lm) mem"
  lib_listMeta :: "'lm \<Rightarrow> ('om, 'lm) mem \<Rightarrow> 'lm \<times> ('om, 'lm) mem"
  lib_condition :: "Condition \<Rightarrow> ('om, 'lm) mem \<Rightarrow> Condition \<times> ('om, 'lm) mem"
  lib_time :: "ptr \<Rightarrow> ('om, 'lm) mem \<Rightarrow> ptr \<times> ('om, 'lm) mem"

section \<open>The copy functions\<close>

definition BasicAuthConfig_DeepCopyInto ::
  "BasicAuthConfig \<Rightarrow> ('om, 'lm) mem \<Rightarrow> BasicAuthConfig \<times> ('om, 'lm) mem" where
  "BasicAuthConfig_DeepCopyInto inn h = (inn, h)"

definition BasicAuthConfig_DeepCopy :: "ptr \<Rightarrow> ('om, 'lm) mem \<Rightarrow> ptr \<times> ('om, 'lm) mem" where
  "BasicAuthConfig_DeepCopy = copy_ptr BasicAuthConfig_DeepCopyInto BasicCell the_basic"

definition BearerAuthConfig_DeepCopyInto ::
  "BearerAuthConfig \<Rightarrow> ('om, 'lm) mem \<Rightarrow> BearerAuthConfig \<times> ('om, 'lm) mem" where
  "BearerAuthConfig_DeepCopyInto inn h = (inn, h)"

definition BearerAuthConfig_DeepCopy :: "ptr \<Rightarrow> ('om, 'lm) mem \<Rightarrow> ptr \<times> ('om, 'lm) mem" where
  "BearerAuthConfig_DeepCopy = copy_ptr BearerAuthConfig_DeepCopyInto BearerCell the_bearer"

definition MTLSConfig_DeepCopyInto :: "MTLSConfig \<Rightarrow> ('om, 'lm) mem \<Rightarrow> MTLSConfig \<times> ('om, 'lm) mem" where
  "MTLSConfig_DeepCopyInto inn h = (inn, h)"

definition MTLSConfig_DeepCopy :: "ptr \<Rightarrow> ('om, 'lm) mem \<Rightarrow> ptr \<times> ('om, 'lm) mem" where
  "MTLSConfig_DeepCopy = copy_ptr MTLSConfig_DeepCopyInto MtlsCell the_mtls"

text \<open>\<open>*out = new(T); **out = **in\<close> is \<open>copy_ptr plain_copy\<close>.\<close>

definition AuthConfig_DeepCopyInto ::
  "AuthConfigMem \<Rightarrow> ('om, 'lm) mem \<Rightarrow> AuthConfigMem \<times> ('om, 'lm) mem" where
  "AuthConfig_DeepCopyInto inn h =
     (case copy_ptr plain_copy BasicCell the_basic (am_basicAuth inn) h of (basic, h1) \<Rightarrow>
     (case copy_ptr plain_copy BearerCell the_bearer (am_bearerAuth inn) h1 of (bearer, h2) \<Rightarrow>
     (case copy_ptr plain_copy MtlsCell the_mtls (am_mtls inn) h2 of (mtls, h3) \<Rightarrow>
        (inn\<lparr>am_basicAuth := basic, am_bearerAuth := bearer, am_mtls := mtls\<rparr>, h3))))"

definition AuthConfig_DeepCopy :: "ptr \<Rightarrow> ('om, 'lm) mem \<Rightarrow> ptr \<times> ('om, 'lm) mem" where
  "AuthConfig_DeepCopy = copy_ptr AuthConfig_DeepCopyInto AuthCell the_auth"

definition SchemaReference_DeepCopyInto ::
  "SchemaReference \<Rightarrow> ('om, 'lm) mem \<Rightarrow> SchemaReference \<times> ('om, 'lm) mem" where
  "SchemaReference_DeepCopyInto inn h = (inn, h)"

definition SchemaReference_DeepCopy :: "ptr \<Rightarrow> ('om, 'lm) mem \<Rightarrow> ptr \<times> ('om, 'lm) mem" where
  "SchemaReference_DeepCopy = copy_ptr SchemaReference_DeepCopyInto ReferenceCell the_reference"

definition SchemaRegistryRef_DeepCopyInto ::
  "SchemaRegistryRef \<Rightarrow> ('om, 'lm) mem \<Rightarrow> SchemaRegistryRef \<times> ('om, 'lm) mem" where
  "SchemaRegistryRef_DeepCopyInto inn h = (inn, h)"

definition SchemaRegistryRef_DeepCopy :: "ptr \<Rightarrow> ('om, 'lm) mem \<Rightarrow> ptr \<times> ('om, 'lm) mem" where
  "SchemaRegistryRef_DeepCopy = copy_ptr SchemaRegistryRef_DeepCopyInto RegistryRefCell the_registryRef"

text \<open>The built-in \<open>copy(*out, *in)\<close> assigns the elements.\<close>

definition SchemaSpec_DeepCopyInto ::
  "SchemaSpecMem \<Rightarrow> ('om, 'lm) mem \<Rightarrow> SchemaSpecMem \<times> ('om, 'lm) mem" where
  "SchemaSpec_DeepCopyInto inn h =
     (case copy_slice plain_copy ReferencesCell the_references (sm_references inn) h of (refs, h1) \<Rightarrow>
        (inn\<lparr>sm_references := refs, sm_registryRef := sm_registryRef inn\<rparr>, h1))"

definition SchemaSpec_DeepCopy :: "ptr \<Rightarrow> ('om, 'lm) mem \<Rightarrow> ptr \<times> ('om, 'lm) mem" where
  "SchemaSpec_DeepCopy = copy_ptr SchemaSpec_DeepCopyInto SpecCell the_spec"

definition SchemaStatus_DeepCopyInto ::
  "('om, 'lm) library \<Rightarrow> SchemaStatusMem \<Rightarrow> ('om, 'lm) mem \<Rightarrow> SchemaStatusMem \<times> ('om, 'lm) mem" where
  "SchemaStatus_DeepCopyInto L inn h =
     (case copy_ptr plain_copy IntCell the_int (tm_schemaID inn) h of (schemaID, h1) \<Rightarrow>
     (case copy_ptr plain_copy IntCell the_int (tm_version inn) h1 of (version, h2) \<Rightarrow>
     (case copy_unless_nil (lib_time L) (tm_registeredAt inn) h2 of (registeredAt, h3) \<Rightarrow>
     (case copy_slice (lib_condition L) ConditionsCell the_conditions (tm_conditions inn) h3 of
        (conditions, h4) \<Rightarrow>
        (inn\<lparr>tm_schemaID := schemaID, tm_version := version, tm_registeredAt := registeredAt,
             tm_conditions := conditions\<rparr>, h4)))))"

definition SchemaStatus_DeepCopy :: "('om, 'lm) library \<Rightarrow> ptr \<Rightarrow> ('om, 'lm) mem \<Rightarrow> ptr \<times> ('om, 'lm) mem" where
  "SchemaStatus_DeepCopy L = copy_ptr (SchemaStatus_DeepCopyInto L) StatusCell the_status"

definition Schema_DeepCopyInto ::
  "('om, 'lm) library \<Rightarrow> 'om SchemaMem \<Rightarrow> ('om, 'lm) mem \<Rightarrow> 'om SchemaMem \<times> ('om, 'lm) mem" where
  "Schema_DeepCopyInto L inn h =
     (case lib_meta L (hm_meta inn) h of (m, h1) \<Rightarrow>
     (case SchemaSpec_DeepCopyInto (hm_spec inn) h1 of (spec, h2) \<Rightarrow>
     (case SchemaStatus_DeepCopyInto L (hm_status inn) h2 of (status, h3) \<Rightarrow>
        (inn\<lparr>hm_type := hm_type inn, hm_meta := m, hm_spec := spec, hm_status := status\<rparr>, h3))))"

definition Schema_DeepCopy :: "('om, 'lm) library \<Rightarrow> ptr \<Rightarrow> ('om, 'lm) mem \<Rightarrow> ptr \<times> ('om, 'lm) mem" where
  "Schema_DeepCopy L = copy_ptr (Schema_DeepCopyInto L) SchemaCell the_schema"

definition Schema_DeepCopyObject :: "('om, 'lm) library \<Rightarrow> ptr \<Rightarrow> ('om, 'lm) mem \<Rightarrow> ptr \<times> ('om, 'lm) mem" where
  "Schema_DeepCopyObject L p h =
     (case Schema_DeepCopy L p h of
        (Some c, h1) \<Rightarrow> (Some c, h1)
      | (None, h1) \<Rightarrow> (None, h1))"

definition SchemaList_DeepCopyInto ::
  "('om, 'lm) library \<Rightarrow> 'lm SchemaListMem \<Rightarrow> ('om, 'lm) mem \<Rightarrow> 'lm SchemaListMem \<times> ('om, 'lm) mem" where
  "SchemaList_DeepCopyInto L inn h =
     (case lib_listMeta L (lm_meta inn) h of (m, h1) \<Rightarrow>
     (case copy_slice (Schema_DeepCopyInto L) SchemasCell the_schemas (lm_items inn) h1 of (items, h2) \<Rightarrow>
        (inn\<lparr>lm_type := lm_type inn, lm_meta := m, lm_items := items\<rparr>, h2)))"

definition SchemaList_DeepCopy :: "('om, 'lm) library \<Rightarrow> ptr \<Rightarrow> ('om, 'lm) mem \<Rightarrow> ptr \<times> ('om, 'lm) mem" where
  "SchemaList_DeepCopy L = copy_ptr (SchemaList_DeepCopyInto L) SchemaListCell the_schemaList"

definition SchemaList_DeepCopyObject :: "('om, 'lm) library \<Rightarrow> ptr \<Rightarrow> ('om, 'lm) mem \<Rightarrow> ptr \<times> ('om, 'lm) mem" where
  "SchemaList_DeepCopyObject L p h =
     (case SchemaList_DeepCopy L p h of
        (Some c, h1) \<Rightarrow> (Some c, h1)
      | (None, h1) \<Rightarrow> (None, h1))"

definition SchemaRegistrySpec_DeepCopyInto ::
  "SchemaRegistrySpecMem \<Rightarrow> ('om, 'lm) mem \<Rightarrow> SchemaRegistrySpecMem \<times> ('om, 'lm) mem" where
  "SchemaRegistrySpec_DeepCopyInto inn h =
     (case copy_ptr AuthConfig_DeepCopyInto AuthCell the_auth (rsm_auth inn) h of (auth, h1) \<Rightarrow>
        (inn\<lparr>rsm_auth := auth\<rparr>, h1))"

definition SchemaRegistrySpec_DeepCopy :: "ptr \<Rightarrow> ('om, 'lm) mem \<Rightarrow> ptr \<times> ('om, 'lm) mem" where
  "SchemaRegistrySpec_DeepCopy = copy_ptr SchemaRegistrySpec_DeepCopyInto RegistrySpecCell the_registrySpec"

definition SchemaRegistryStatus_DeepCopyInto ::
  "('om, 'lm) library \<Rightarrow> SchemaRegistryStatusMem \<Rightarrow> ('om, 'lm) mem \<Rightarrow> SchemaRegistryStatusMem \<times> ('om, 'lm) mem" where
  "SchemaRegistryStatus_DeepCopyInto L inn h =
     (case copy_unless_nil (lib_time L) (rtm_lastChecked inn) h of (lastChecked, h1) \<Rightarrow>
     (case copy_slice (lib_condition L) ConditionsCell the_conditions (rtm_conditions inn) h1 of
        (conditions, h2) \<Rightarrow>
        (inn\<lparr>rtm_lastChecked := lastChecked, rtm_conditions := conditions\<rparr>, h2)))"

definition SchemaRegistryStatus_DeepCopy ::
  "('om, 'lm) library \<Rightarrow> ptr \<Rightarrow> ('om, 'lm) mem \<Rightarrow> ptr \<times> ('om, 'lm) mem" where
  "SchemaRegistryStatus_DeepCopy L =
     copy_ptr (SchemaRegistryStatus_DeepCopyInto L) RegistryStatusCell the_registryStatus"

definition SchemaRegistry_DeepCopyInto ::
  "('om, 'lm) library \<Rightarrow> 'om SchemaRegistryMem \<Rightarrow> ('om, 'lm) mem \<Rightarrow> 'om SchemaRegistryMem \<times> ('om, 'lm) mem" where
  "SchemaRegistry_DeepCopyInto L inn h =
     (case lib_meta L (rhm_meta inn) h of (m, h1) \<Rightarrow>
     (case SchemaRegistrySpec_DeepCopyInto (rhm_spec inn) h1 of (spec, h2) \<Rightarrow>
     (case SchemaRegistryStatus_DeepCopyInto L (rhm_status inn) h2 of (status, h3) \<Rightarrow>
        (inn\<lparr>rhm_type := rhm_type inn, rhm_meta := m, rhm_spec := spec, rhm_status := status\<rparr>, h3))))"

definition SchemaRegistry_DeepCopy :: "('om, 'lm) library \<Rightarrow> ptr \<Rightarrow> ('om, 'lm) mem \<Rightarrow> ptr \<times> ('om, 'lm) mem" where
  "SchemaRegistry_DeepCopy L = copy_ptr (SchemaRegistry_DeepCopyInto L) RegistryCell the_registry"

definition SchemaRegistry_DeepCopyObject ::
  "('om, 'lm) library \<Rightarrow> ptr \<Rightarrow> ('om, 'lm) mem \<Rightarrow> ptr \<times> ('om, 'lm) mem" where
  "SchemaRegistry_DeepCopyObject L p h =
     (case SchemaRegistry_DeepCopy L p h of
        (Some c, h1) \<Rightarrow> (Some c, h1)
      | (None, h1) \<Rightarrow> (None, h1))"

definition SchemaRegistryList_DeepCopyInto ::
  "('om, 'lm) library \<Rightarrow> 'lm SchemaRegistryListMem \<Rightarrow> ('om, 'lm) mem \<Rightarrow> 'lm SchemaRegistryListMem \<times> ('om, 'lm) mem" where
  "SchemaRegistryList_DeepCopyInto L inn h =
     (case lib_listMeta L (rlm_meta inn) h of (m, h1) \<Rightarrow>
     (case copy_slice (SchemaRegistry_DeepCopyInto L) RegistriesCell the_registries (rlm_items inn) h1 of
        (items, h2) \<Rightarrow>
        (inn\<lparr>rlm_type := rlm_type inn, rlm_meta := m, rlm_items := items\<rparr>, h2)))"

definition SchemaRegistryList_DeepCopy ::
  "('om, 'lm) library \<Rightarrow> ptr \<Rightarrow> ('om, 'lm) mem \<Rightarrow> ptr \<times> ('om, 'lm) mem" where
  "SchemaRegistryList_DeepCopy L =
     copy_ptr (SchemaRegistryList_DeepCopyInto L) RegistryListCell the_registryList"

definition SchemaRegistryList_DeepCopyObject ::
  "('om, 'lm) library \<Rightarrow> ptr \<Rightarrow> ('om, 'lm) mem \<Rightarrow> ptr \<times> ('om, 'lm) mem" where
  "SchemaRegistryList_DeepCopyObject L p h =
     (case SchemaRegistryList_DeepCopy L p h of
        (Some c, h1) \<Rightarrow> (Some c, h1)
      | (None, h1) \<Rightarrow> (None, h1))"

end
