(* ===== verification/DeepCopyCorrect.thy ===== *)
theory DeepCopyCorrect
  imports DeepCopy
begin

text \<open>
  What a structure in memory stands for, and the contract of every generated copy function: the
  copy has the same value and no cell in common with the original. A view reads the record of
  \<open>ApiTypes\<close> out of the store (together with the \<open>TypeMeta\<close> for an API object), a footprint lists
  the cells a structure occupies.

  Each copy function is shown to be the copy of its pointer parts, and its contract then follows
  by the rules \<open>copy_intros\<close>. The contracts of the library's copy functions are the hypothesis
  \<open>library_laws\<close>; \<open>ref_library\<close> is a library that satisfies it.
\<close>

section \<open>Values in memory\<close>

type_synonym ('om, 'lm, 'm, 'v) view = "('om, 'lm) mem \<Rightarrow> 'm \<Rightarrow> 'v option"
type_synonym ('om, 'lm, 'm) foot = "('om, 'lm) mem \<Rightarrow> 'm \<Rightarrow> nat list"

definition "auth_parts r = (am_basicAuth r, am_bearerAuth r, am_mtls r)"
definition "auth_build r = (\<lambda>(b, t, m). r\<lparr>am_basicAuth := b, am_bearerAuth := t, am_mtls := m\<rparr>)"
definition "auth_val r =
  (\<lambda>(b, t, m). \<lparr>auth_type = am_type r, auth_basicAuth = b, auth_bearerAuth = t, auth_mtls = m\<rparr>)"

definition view_AuthConfig :: "('om, 'lm, AuthConfigMem, ApiAuthConfig) view" where
  "view_AuthConfig = view_via auth_parts auth_val
     (view_both (view_ptr plain_view the_basic)
       (view_both (view_ptr plain_view the_bearer) (view_ptr plain_view the_mtls)))"

definition foot_AuthConfig :: "('om, 'lm, AuthConfigMem) foot" where
  "foot_AuthConfig = foot_via auth_parts
     (foot_both (foot_ptr plain_foot the_basic)
       (foot_both (foot_ptr plain_foot the_bearer) (foot_ptr plain_foot the_mtls)))"

definition "spec_build r x = r\<lparr>sm_references := x\<rparr>"
definition "spec_val r x =
  \<lparr>spec_subject = sm_subject r, spec_schemaType = sm_schemaType r, spec_schema = sm_schema r,
   spec_references = x, spec_registryRef = sm_registryRef r,
   spec_compatibilityLevel = sm_compatibilityLevel r\<rparr>"

definition view_SchemaSpec :: "('om, 'lm, SchemaSpecMem, SchemaSpec) view" where
  "view_SchemaSpec = view_via sm_references spec_val (view_slice plain_view the_references)"

definition foot_SchemaSpec :: "('om, 'lm, SchemaSpecMem) foot" where
  "foot_SchemaSpec = foot_via sm_references (foot_slice plain_foot the_references)"

definition "status_parts r = (tm_schemaID r, tm_version r, tm_registeredAt r, tm_conditions r)"
definition "status_build r =
  (\<lambda>(i, v, t, c). r\<lparr>tm_schemaID := i, tm_version := v, tm_registeredAt := t, tm_conditions := c\<rparr>)"
definition "status_val r =
  (\<lambda>(i, v, t, c). \<lparr>status_schemaID = i, status_version = v, status_registeredAt = t,
     status_observedGeneration = tm_observedGeneration r, status_conditions = c\<rparr>)"

definition view_SchemaStatus :: "('om, 'lm, SchemaStatusMem, SchemaStatus) view" where
  "view_SchemaStatus = view_via status_parts status_val
     (view_both (view_ptr plain_view the_int) (view_both (view_ptr plain_view the_int)
       (view_both (view_ptr plain_view the_time) (view_slice plain_view the_conditions))))"

definition foot_SchemaStatus :: "('om, 'lm, SchemaStatusMem) foot" where
  "foot_SchemaStatus = foot_via status_parts
     (foot_both (foot_ptr plain_foot the_int) (foot_both (foot_ptr plain_foot the_int)
       (foot_both (foot_ptr plain_foot the_time) (foot_slice plain_foot the_conditions))))"

definition "schema_parts r = (hm_meta r, hm_spec r, hm_status r)"
definition "schema_build r = (\<lambda>(m, s, t). r\<lparr>hm_meta := m, hm_spec := s, hm_status := t\<rparr>)"
definition "schema_val r =
  (\<lambda>(m, s, t). (hm_type r, \<lparr>sch_meta = m, sch_spec = s, sch_status = t\<rparr>))"

definition view_Schema ::
  "('om, 'lm, 'om, ObjectMeta) view \<Rightarrow> ('om, 'lm, 'om SchemaMem, TypeMeta \<times> Schema) view" where
  "view_Schema mv = view_via schema_parts schema_val
     (view_both mv (view_both view_SchemaSpec view_SchemaStatus))"

definition foot_Schema :: "('om, 'lm, 'om) foot \<Rightarrow> ('om, 'lm, 'om SchemaMem) foot" where
  "foot_Schema mf = foot_via schema_parts (foot_both mf (foot_both foot_SchemaSpec foot_SchemaStatus))"

definition "registrySpec_build r x = r\<lparr>rsm_auth := x\<rparr>"
definition "registrySpec_val r x =
  \<lparr>sr_url = rsm_url r, sr_auth = x, sr_insecureSkipVerify = rsm_insecureSkipVerify r,
   sr_timeout = rsm_timeout r\<rparr>"

definition view_SchemaRegistrySpec :: "('om, 'lm, SchemaRegistrySpecMem, SchemaRegistrySpec) view" where
  "view_SchemaRegistrySpec = view_via rsm_auth registrySpec_val (view_ptr view_AuthConfig the_auth)"

definition foot_SchemaRegistrySpec :: "('om, 'lm, SchemaRegistrySpecMem) foot" where
  "foot_SchemaRegistrySpec = foot_via rsm_auth (foot_ptr foot_AuthConfig the_auth)"

definition "registryStatus_parts r = (rtm_lastChecked r, rtm_conditions r)"
definition "registryStatus_build r = (\<lambda>(t, c). r\<lparr>rtm_lastChecked := t, rtm_conditions := c\<rparr>)"
definition "registryStatus_val r =
  (\<lambda>(t, c). \<lparr>sr_connectionStatus = rtm_connectionStatus r, sr_lastChecked = t,
     sr_observedGeneration = rtm_observedGeneration r, sr_conditions = c\<rparr>)"

definition view_SchemaRegistryStatus ::
  "('om, 'lm, SchemaRegistryStatusMem, SchemaRegistryStatus) view" where
  "view_SchemaRegistryStatus = view_via registryStatus_parts registryStatus_val
     (view_both (view_ptr plain_view the_time) (view_slice plain_view the_conditions))"

definition foot_SchemaRegistryStatus :: "('om, 'lm, SchemaRegistryStatusMem) foot" where
  "foot_SchemaRegistryStatus = foot_via registryStatus_parts
     (foot_both (foot_ptr plain_foot the_time) (foot_slice plain_foot the_conditions))"

definition "registry_parts r = (rhm_meta r, rhm_spec r, rhm_status r)"
definition "registry_build r = (\<lambda>(m, s, t). r\<lparr>rhm_meta := m, rhm_spec := s, rhm_status := t\<rparr>)"
definition "registry_val r =
  (\<lambda>(m, s, t). (rhm_type r, \<lparr>sr_meta = m, sr_spec = s, sr_status = t\<rparr>))"

definition view_SchemaRegistry ::
  "('om, 'lm, 'om, ObjectMeta) view \<Rightarrow> ('om, 'lm, 'om SchemaRegistryMem, TypeMeta \<times> SchemaRegistry) view" where
  "view_SchemaRegistry mv = view_via registry_parts registry_val
     (view_both mv (view_both view_SchemaRegistrySpec view_SchemaRegistryStatus))"

definition foot_SchemaRegistry :: "('om, 'lm, 'om) foot \<Rightarrow> ('om, 'lm, 'om SchemaRegistryMem) foot" where
  "foot_SchemaRegistry mf = foot_via registry_parts
     (foot_both mf (foot_both foot_SchemaRegistrySpec foot_SchemaRegistryStatus))"

text \<open>A list is its \<open>TypeMeta\<close>, its \<open>ListMeta\<close> and its items.\<close>

definition "list_parts r = (lm_meta r, lm_items r)"
definition "list_build r = (\<lambda>(m, s). r\<lparr>lm_meta := m, lm_items := s\<rparr>)"
definition "list_val r = (\<lambda>(m, s). (lm_type r, m, s))"

definition view_SchemaList where
  "view_SchemaList mv lv = view_via list_parts list_val
     (view_both lv (view_slice (view_Schema mv) the_schemas))"

definition foot_SchemaList where
  "foot_SchemaList mf lf = foot_via list_parts (foot_both lf (foot_slice (foot_Schema mf) the_schemas))"

definition "registryList_parts r = (rlm_meta r, rlm_items r)"
definition "registryList_build r = (\<lambda>(m, s). r\<lparr>rlm_meta := m, rlm_items := s\<rparr>)"
definition "registryList_val r = (\<lambda>(m, s). (rlm_type r, m, s))"

definition view_SchemaRegistryList where
  "view_SchemaRegistryList mv lv = view_via registryList_parts registryList_val
     (view_both lv (view_slice (view_SchemaRegistry mv) the_registries))"

definition foot_SchemaRegistryList where
  "foot_SchemaRegistryList mf lf = foot_via registryList_parts
     (foot_both lf (foot_slice (foot_SchemaRegistry mf) the_registries))"

lemmas part_defs =
  auth_parts_def auth_build_def auth_val_def spec_build_def spec_val_def
  status_parts_def status_build_def status_val_def schema_parts_def schema_build_def schema_val_def
  registrySpec_build_def registrySpec_val_def registryStatus_parts_def registryStatus_build_def
  registryStatus_val_def registry_parts_def registry_build_def registry_val_def
  list_parts_def list_build_def list_val_def
  registryList_parts_def registryList_build_def registryList_val_def

lemmas view_defs =
  view_AuthConfig_def view_SchemaSpec_def view_SchemaStatus_def view_Schema_def
  view_SchemaRegistrySpec_def view_SchemaRegistryStatus_def view_SchemaRegistry_def
  view_SchemaList_def view_SchemaRegistryList_def

lemmas foot_defs =
  foot_AuthConfig_def foot_SchemaSpec_def foot_SchemaStatus_def foot_Schema_def
  foot_SchemaRegistrySpec_def foot_SchemaRegistryStatus_def foot_SchemaRegistry_def
  foot_SchemaList_def foot_SchemaRegistryList_def

section \<open>The copy functions copy their parts\<close>

lemmas copy_part_defs = fun_eq_iff copy_via_def copy_both_def part_defs

lemma AuthConfig_copy_parts:
  "AuthConfig_DeepCopyInto = copy_via auth_parts auth_build
     (copy_both (copy_ptr plain_copy BasicCell the_basic)
       (copy_both (copy_ptr plain_copy BearerCell the_bearer) (copy_ptr plain_copy MtlsCell the_mtls)))"
  by (simp add: AuthConfig_DeepCopyInto_def copy_part_defs split: prod.splits)

lemma SchemaSpec_copy_parts:
  "SchemaSpec_DeepCopyInto =
     copy_via sm_references spec_build (copy_slice plain_copy ReferencesCell the_references)"
  by (simp add: SchemaSpec_DeepCopyInto_def copy_part_defs split: prod.splits)

lemma SchemaStatus_copy_parts:
  "SchemaStatus_DeepCopyInto L = copy_via status_parts status_build
     (copy_both (copy_ptr plain_copy IntCell the_int) (copy_both (copy_ptr plain_copy IntCell the_int)
       (copy_both (copy_unless_nil (lib_time L))
         (copy_slice (lib_condition L) ConditionsCell the_conditions))))"
  by (simp add: SchemaStatus_DeepCopyInto_def copy_part_defs split: prod.splits)

lemma Schema_copy_parts:
  "Schema_DeepCopyInto L = copy_via schema_parts schema_build
     (copy_both (lib_meta L) (copy_both SchemaSpec_DeepCopyInto (SchemaStatus_DeepCopyInto L)))"
  by (simp add: Schema_DeepCopyInto_def copy_part_defs split: prod.splits)

lemma SchemaList_copy_parts:
  "SchemaList_DeepCopyInto L = copy_via list_parts list_build
     (copy_both (lib_listMeta L) (copy_slice (Schema_DeepCopyInto L) SchemasCell the_schemas))"
  by (simp add: SchemaList_DeepCopyInto_def copy_part_defs split: prod.splits)

lemma SchemaRegistrySpec_copy_parts:
  "SchemaRegistrySpec_DeepCopyInto =
     copy_via rsm_auth registrySpec_build (copy_ptr AuthConfig_DeepCopyInto AuthCell the_auth)"
  by (simp add: SchemaRegistrySpec_DeepCopyInto_def copy_part_defs split: prod.splits)

lemma SchemaRegistryStatus_copy_parts:
  "SchemaRegistryStatus_DeepCopyInto L = copy_via registryStatus_parts registryStatus_build
     (copy_both (copy_unless_nil (lib_time L))
       (copy_slice (lib_condition L) ConditionsCell the_conditions))"
  by (simp add: SchemaRegistryStatus_DeepCopyInto_def copy_part_defs split: prod.splits)

lemma SchemaRegistry_copy_parts:
  "SchemaRegistry_DeepCopyInto L = copy_via registry_parts registry_build
     (copy_both (lib_meta L) (copy_both SchemaRegistrySpec_DeepCopyInto (SchemaRegistryStatus_DeepCopyInto L)))"
  by (simp add: SchemaRegistry_DeepCopyInto_def copy_part_defs split: prod.splits)

lemma SchemaRegistryList_copy_parts:
  "SchemaRegistryList_DeepCopyInto L = copy_via registryList_parts registryList_build
     (copy_both (lib_listMeta L)
       (copy_slice (SchemaRegistry_DeepCopyInto L) RegistriesCell the_registries))"
  by (simp add: SchemaRegistryList_DeepCopyInto_def copy_part_defs split: prod.splits)

section \<open>The contracts\<close>

text \<open>The documented behaviour of the library: each of its copies is a deep copy of its type.\<close>

definition library_laws ::
  "('om, 'lm) library \<Rightarrow> ('om, 'lm, 'om, 'v) view \<Rightarrow> ('om, 'lm, 'om) foot \<Rightarrow>
    ('om, 'lm, 'lm, 'w) view \<Rightarrow> ('om, 'lm, 'lm) foot \<Rightarrow> bool" where
  "library_laws L mv mf lv lf \<longleftrightarrow>
     deep_copy (lib_meta L) mv mf \<and> deep_copy (lib_listMeta L) lv lf \<and>
     deep_copy (lib_condition L) plain_view plain_foot \<and>
     deep_copy (lib_time L) (view_ptr plain_view the_time) (foot_ptr plain_foot the_time)"

lemma library_copies:
  assumes "library_laws L mv mf lv lf"
  shows "deep_copy (lib_meta L) mv mf" "deep_copy (lib_listMeta L) lv lf"
    "deep_copy (lib_condition L) plain_view plain_foot"
    "deep_copy (lib_time L) (view_ptr plain_view the_time) (foot_ptr plain_foot the_time)"
  using assms by (simp_all add: library_laws_def)

lemma cells_read [simp]:
  "the_basic (BasicCell a) = Some a" "the_bearer (BearerCell b) = Some b"
  "the_mtls (MtlsCell c) = Some c" "the_auth (AuthCell d) = Some d" "the_int (IntCell i) = Some i"
  "the_time (TimeCell t) = Some t" "the_references (ReferencesCell rs) = Some rs"
  "the_conditions (ConditionsCell cs) = Some cs" "the_schema (SchemaCell s) = Some s"
  "the_schemas (SchemasCell ss) = Some ss" "the_schemaList (SchemaListCell l) = Some l"
  "the_registry (RegistryCell r) = Some r" "the_registries (RegistriesCell q) = Some q"
  "the_registryList (RegistryListCell k) = Some k"
  by (simp_all add: the_cell_defs)

lemma parts_build [simp]:
  "auth_parts (auth_build a p1) = p1" "auth_val (auth_build a p1) = auth_val a"
  "sm_references (spec_build b s1) = s1" "spec_val (spec_build b s1) = spec_val b"
  "status_parts (status_build c p2) = p2" "status_val (status_build c p2) = status_val c"
  "schema_parts (schema_build d p3) = p3" "schema_val (schema_build d p3) = schema_val d"
  "rsm_auth (registrySpec_build e s2) = s2" "registrySpec_val (registrySpec_build e s2) = registrySpec_val e"
  "registryStatus_parts (registryStatus_build f p4) = p4"
  "registryStatus_val (registryStatus_build f p4) = registryStatus_val f"
  "registry_parts (registry_build g p5) = p5" "registry_val (registry_build g p5) = registry_val g"
  "list_parts (list_build i p6) = p6" "list_val (list_build i p6) = list_val i"
  "registryList_parts (registryList_build j p7) = p7"
  "registryList_val (registryList_build j p7) = registryList_val j"
  by (simp_all add: part_defs fun_eq_iff split: prod.splits)

lemma AuthConfig_deep_copy [copy_intros]:
  "deep_copy AuthConfig_DeepCopyInto view_AuthConfig foot_AuthConfig"
  unfolding AuthConfig_copy_parts view_defs foot_defs by (intro copy_intros) simp_all

lemma SchemaSpec_deep_copy [copy_intros]:
  "deep_copy SchemaSpec_DeepCopyInto view_SchemaSpec foot_SchemaSpec"
  unfolding SchemaSpec_copy_parts view_defs foot_defs by (intro copy_intros) simp_all

lemma SchemaRegistrySpec_deep_copy [copy_intros]:
  "deep_copy SchemaRegistrySpec_DeepCopyInto view_SchemaRegistrySpec foot_SchemaRegistrySpec"
  unfolding SchemaRegistrySpec_copy_parts view_SchemaRegistrySpec_def foot_SchemaRegistrySpec_def
  by (intro copy_intros) simp_all

lemma SchemaStatus_deep_copy:
  assumes "library_laws L mv mf lv lf"
  shows "deep_copy (SchemaStatus_DeepCopyInto L) view_SchemaStatus foot_SchemaStatus"
  unfolding SchemaStatus_copy_parts view_SchemaStatus_def foot_SchemaStatus_def
  by (intro copy_intros library_copies [OF assms]) simp_all

lemma SchemaRegistryStatus_deep_copy:
  assumes "library_laws L mv mf lv lf"
  shows "deep_copy (SchemaRegistryStatus_DeepCopyInto L) view_SchemaRegistryStatus foot_SchemaRegistryStatus"
  unfolding SchemaRegistryStatus_copy_parts view_SchemaRegistryStatus_def foot_SchemaRegistryStatus_def
  by (intro copy_intros library_copies [OF assms]) simp_all

lemma Schema_deep_copy:
  assumes "library_laws L mv mf lv lf"
  shows "deep_copy (Schema_DeepCopyInto L) (view_Schema mv) (foot_Schema mf)"
  unfolding Schema_copy_parts view_Schema_def foot_Schema_def
  by (intro copy_intros library_copies [OF assms] SchemaStatus_deep_copy [OF assms]) simp_all

lemma SchemaRegistry_deep_copy:
  assumes "library_laws L mv mf lv lf"
  shows "deep_copy (SchemaRegistry_DeepCopyInto L) (view_SchemaRegistry mv) (foot_SchemaRegistry mf)"
  unfolding SchemaRegistry_copy_parts view_SchemaRegistry_def foot_SchemaRegistry_def
  by (intro copy_intros library_copies [OF assms] SchemaRegistryStatus_deep_copy [OF assms]) simp_all

lemma SchemaList_deep_copy:
  assumes "library_laws L mv mf lv lf"
  shows "deep_copy (SchemaList_DeepCopyInto L) (view_SchemaList mv lv) (foot_SchemaList mf lf)"
  unfolding SchemaList_copy_parts view_SchemaList_def foot_SchemaList_def
  by (intro copy_intros library_copies [OF assms] Schema_deep_copy [OF assms]) simp_all

lemma SchemaRegistryList_deep_copy:
  assumes "library_laws L mv mf lv lf"
  shows "deep_copy (SchemaRegistryList_DeepCopyInto L) (view_SchemaRegistryList mv lv)
    (foot_SchemaRegistryList mf lf)"
  unfolding SchemaRegistryList_copy_parts view_SchemaRegistryList_def foot_SchemaRegistryList_def
  by (intro copy_intros library_copies [OF assms] SchemaRegistry_deep_copy [OF assms]) simp_all

text \<open>
  The contracts as interpretations: pointers to an \<open>AuthConfig\<close> and slices of \<open>SchemaReference\<close>
  are copied deeply without any assumption on the library.
\<close>

interpretation auth: deep_copy_cell AuthConfig_DeepCopyInto view_AuthConfig foot_AuthConfig AuthCell the_auth
  by (intro deep_copy_cell.intro AuthConfig_deep_copy deep_copy_cell_axioms.intro) simp

interpretation references: deep_copy_array SchemaReference_DeepCopyInto plain_view plain_foot
  ReferencesCell the_references
  by unfold_locales (auto simp: SchemaReference_DeepCopyInto_def plain_defs)

section \<open>Pointers to API objects\<close>

abbreviation schema_at where "schema_at mv \<equiv> view_ptr (view_Schema mv) the_schema"
abbreviation schema_cells where "schema_cells mf \<equiv> foot_ptr (foot_Schema mf) the_schema"
abbreviation registry_at where "registry_at mv \<equiv> view_ptr (view_SchemaRegistry mv) the_registry"
abbreviation registry_cells where "registry_cells mf \<equiv> foot_ptr (foot_SchemaRegistry mf) the_registry"
abbreviation schemaList_at where "schemaList_at mv lv \<equiv> view_ptr (view_SchemaList mv lv) the_schemaList"
abbreviation schemaList_cells where
  "schemaList_cells mf lf \<equiv> foot_ptr (foot_SchemaList mf lf) the_schemaList"
abbreviation registryList_at where
  "registryList_at mv lv \<equiv> view_ptr (view_SchemaRegistryList mv lv) the_registryList"
abbreviation registryList_cells where
  "registryList_cells mf lf \<equiv> foot_ptr (foot_SchemaRegistryList mf lf) the_registryList"

lemma DeepCopyObject_is_DeepCopy:
  "Schema_DeepCopyObject L = Schema_DeepCopy L"
  "SchemaRegistry_DeepCopyObject L = SchemaRegistry_DeepCopy L"
  "SchemaList_DeepCopyObject L = SchemaList_DeepCopy L"
  "SchemaRegistryList_DeepCopyObject L = SchemaRegistryList_DeepCopy L"
  by (simp_all add: fun_eq_iff Schema_DeepCopyObject_def SchemaRegistry_DeepCopyObject_def
      SchemaList_DeepCopyObject_def SchemaRegistryList_DeepCopyObject_def
      split: prod.splits option.splits)

lemma object_deep_copies:
  assumes "library_laws L mv mf lv lf"
  shows "deep_copy (Schema_DeepCopyObject L) (schema_at mv) (schema_cells mf)"
    "deep_copy (SchemaRegistry_DeepCopyObject L) (registry_at mv) (registry_cells mf)"
    "deep_copy (SchemaList_DeepCopyObject L) (schemaList_at mv lv) (schemaList_cells mf lf)"
    "deep_copy (SchemaRegistryList_DeepCopyObject L) (registryList_at mv lv) (registryList_cells mf lf)"
  unfolding DeepCopyObject_is_DeepCopy Schema_DeepCopy_def SchemaRegistry_DeepCopy_def
    SchemaList_DeepCopy_def SchemaRegistryList_DeepCopy_def
  by (intro copy_intros Schema_deep_copy [OF assms] SchemaRegistry_deep_copy [OF assms]
      SchemaList_deep_copy [OF assms] SchemaRegistryList_deep_copy [OF assms]; simp)+

text \<open>
  What a caller relies on: the copy \<open>p'\<close> of \<open>p\<close> has the value of \<open>p\<close>, every cell that existed
  keeps its contents, the two share no cell, and whatever is then written into a cell of one
  leaves the value of the other.
\<close>

definition isolated_copy ::
  "('m \<Rightarrow> 'c heap \<Rightarrow> 'm \<times> 'c heap) \<Rightarrow> ('c heap \<Rightarrow> 'm \<Rightarrow> 'v option) \<Rightarrow> ('c heap \<Rightarrow> 'm \<Rightarrow> nat list) \<Rightarrow>
    'c heap \<Rightarrow> 'm \<Rightarrow> bool" where
  "isolated_copy copy view foot h p \<longleftrightarrow>
     (case copy p h of (p', h') \<Rightarrow>
        heap_wf h' \<and> extends h h' \<and> view h' p' = view h p \<and> view h' p = view h p \<and>
        set (foot h' p) \<inter> set (foot h' p') = {} \<and>
        (\<forall>a \<in> set (foot h' p'). \<forall>c. view (store a c h') p = view h p) \<and>
        (\<forall>a \<in> set (foot h' p). \<forall>c. view (store a c h') p' = view h p))"

lemma deep_copy_isolated:
  assumes c: "deep_copy copy view foot" and h: "heap_wf h" "view h p = Some v"
  shows "isolated_copy copy view foot h p"
proof (cases "copy p h")
  case (Pair p' h')
  note r = h Pair
  show ?thesis
    using deep_copy.copy_correct [OF c r] deep_copy.persists [OF c h, of h']
      deep_copy.copy_disjoint [OF c r] deep_copy.write_copy [OF c r]
      deep_copy.write_original [OF c r] h(2)
    by (simp add: isolated_copy_def Pair)
qed

section \<open>A library and a store\<close>

text \<open>Metadata with a pointer and a slice, copied the way the generated functions copy.\<close>

record MetaMem =
  mm_name :: string
  mm_namespace :: string
  mm_generation :: go_int
  mm_deletionTimestamp :: ptr
  mm_finalizers :: slice

definition "the_strings c = (case c of StringsCell x \<Rightarrow> Some x | _ \<Rightarrow> None)"
definition "meta_parts r = (mm_deletionTimestamp r, mm_finalizers r)"
definition "meta_build r = (\<lambda>(t, f). r\<lparr>mm_deletionTimestamp := t, mm_finalizers := f\<rparr>)"
definition "meta_val r =
  (\<lambda>(t, f). \<lparr>meta_name = mm_name r, meta_namespace = mm_namespace r, meta_generation = mm_generation r,
     meta_deletionTimestamp = t, meta_finalizers = f\<rparr>)"

definition ref_library :: "(MetaMem, string) library" where
  "ref_library =
     \<lparr>lib_meta = copy_via meta_parts meta_build
        (copy_both (copy_ptr plain_copy TimeCell the_time) (copy_slice plain_copy StringsCell the_strings)),
      lib_listMeta = plain_copy, lib_condition = plain_copy,
      lib_time = copy_ptr plain_copy TimeCell the_time\<rparr>"

definition ref_meta_view :: "(MetaMem, string, MetaMem, ObjectMeta) view" where
  "ref_meta_view = view_via meta_parts meta_val
     (view_both (view_ptr plain_view the_time) (view_slice plain_view the_strings))"

definition ref_meta_foot :: "(MetaMem, string, MetaMem) foot" where
  "ref_meta_foot = foot_via meta_parts
     (foot_both (foot_ptr plain_foot the_time) (foot_slice plain_foot the_strings))"

lemma ref_library_laws:
  "library_laws ref_library ref_meta_view ref_meta_foot plain_view plain_foot"
  unfolding library_laws_def ref_library_def library.simps ref_meta_view_def ref_meta_foot_def
  by (intro conjI copy_intros)
    (simp_all add: the_strings_def meta_parts_def meta_build_def meta_val_def split: prod.splits)

interpretation ref_schemas: deep_copy_array "Schema_DeepCopyInto ref_library"
  "view_Schema ref_meta_view" "foot_Schema ref_meta_foot" SchemasCell the_schemas
  by (intro deep_copy_array.intro Schema_deep_copy [OF ref_library_laws] deep_copy_array_axioms.intro) simp

text \<open>A store with a registered Schema, its SchemaRegistry with basic authentication, and lists of them.\<close>

definition ref_schema_mem :: "MetaMem SchemaMem" where
  "ref_schema_mem =
     \<lparr>hm_type = \<lparr>type_kind = ''Schema'', type_apiVersion = ''v1alpha1''\<rparr>,
      hm_meta = \<lparr>mm_name = ''orders'', mm_namespace = ''app'', mm_generation = 2,
        mm_deletionTimestamp = None, mm_finalizers = Some (0, 1)\<rparr>,
      hm_spec = \<lparr>sm_subject = ''orders-value'', sm_schemaType = SchemaTypeAvro, sm_schema = ''{}'',
        sm_references = Some (1, 1), sm_registryRef = \<lparr>rr_name = ''main'', rr_namespace = []\<rparr>,
        sm_compatibilityLevel = ''FULL''\<rparr>,
      hm_status = \<lparr>tm_schemaID = Some 2, tm_version = Some 3, tm_registeredAt = Some 4,
        tm_observedGeneration = 2, tm_conditions = None\<rparr>\<rparr>"

definition ref_registry_mem :: "MetaMem SchemaRegistryMem" where
  "ref_registry_mem =
     \<lparr>rhm_type = \<lparr>type_kind = ''SchemaRegistry'', type_apiVersion = ''v1alpha1''\<rparr>,
      rhm_meta = \<lparr>mm_name = ''main'', mm_namespace = ''app'', mm_generation = 1,
        mm_deletionTimestamp = None, mm_finalizers = None\<rparr>,
      rhm_spec = \<lparr>rsm_url = ''http://sr'', rsm_auth = Some 6, rsm_insecureSkipVerify = False,
        rsm_timeout = 30\<rparr>,
      rhm_status = \<lparr>rtm_connectionStatus = ''Connected'', rtm_lastChecked = Some 4,
        rtm_observedGeneration = 1, rtm_conditions = None\<rparr>\<rparr>"

definition ref_store :: "(MetaMem, string) mem" where
  "ref_store =
     \<lparr>heap_next = 13, heap_cells = map_of
       [(0, StringsCell [''finalizer'']),
        (1, ReferencesCell [\<lparr>ref_name = ''common'', ref_subject = ''common-value'', ref_version = 1\<rparr>]),
        (2, IntCell 7), (3, IntCell 1), (4, TimeCell 5),
        (5, BasicCell \<lparr>basic_secretRef = ''creds''\<rparr>),
        (6, AuthCell \<lparr>am_type = AuthTypeBasic, am_basicAuth = Some 5, am_bearerAuth = None, am_mtls = None\<rparr>),
        (7, SchemaCell ref_schema_mem), (8, RegistryCell ref_registry_mem),
        (9, SchemasCell [ref_schema_mem]), (10, SchemaListCell \<lparr>lm_type = \<lparr>type_kind = ''SchemaList'',
          type_apiVersion = ''v1alpha1''\<rparr>, lm_meta = ''12'', lm_items = Some (9, 1)\<rparr>),
        (11, RegistriesCell [ref_registry_mem]), (12, RegistryListCell \<lparr>rlm_type =
          \<lparr>type_kind = ''SchemaRegistryList'', type_apiVersion = ''v1alpha1''\<rparr>, rlm_meta = ''12'',
          rlm_items = Some (11, 1)\<rparr>)]\<rparr>"

end
