(* ===== verification/CopyProperties.thy ===== *)
theory CopyProperties
  imports DeepCopyCorrect
begin

text \<open>
  What the generated copy functions guarantee to controller-runtime, which hands out copies of
  the objects in its cache: a reconciler that writes to its copy leaves the cache as it was.
\<close>

section \<open>The store of the witnesses\<close>

lemma ref_store_wf: "heap_wf ref_store"
proof -
  have "\<forall>x \<in> dom (heap_cells ref_store). x < heap_next ref_store"
    unfolding ref_store_def heap.simps dom_map_of_conv_image_fst by simp
  then show ?thesis by (auto simp: heap_wf_def dom_def)
qed

lemmas ref_store_simps =
  ref_store_def ref_schema_mem_def ref_registry_mem_def cell_at_def view_ptr_def view_slice_def
  view_defs part_defs view_via_def view_both_def plain_defs ref_meta_view_def meta_parts_def
  meta_val_def the_strings_def

lemma ref_store_values:
  "\<exists>v. schema_at ref_meta_view ref_store (Some 7) = Some v"
  "\<exists>v. registry_at ref_meta_view ref_store (Some 8) = Some v"
  "\<exists>v. schemaList_at ref_meta_view plain_view ref_store (Some 10) = Some v"
  "\<exists>v. registryList_at ref_meta_view plain_view ref_store (Some 12) = Some v"
  by (simp_all add: ref_store_simps)

section \<open>Copies are isolated\<close>

lemma object_copies_isolated:
  assumes "library_laws L mv mf lv lf" and "heap_wf h"
    and "schema_at mv h p = Some v" and "registry_at mv h q = Some u"
  shows "isolated_copy (Schema_DeepCopyObject L) (schema_at mv) (schema_cells mf) h p \<and>
    isolated_copy (SchemaRegistry_DeepCopyObject L) (registry_at mv) (registry_cells mf) h q"
  using deep_copy_isolated [OF object_deep_copies(1) [OF assms(1)] assms(2,3)]
    deep_copy_isolated [OF object_deep_copies(2) [OF assms(1)] assms(2,4)] by (rule conjI)

lemma list_copies_isolated:
  assumes "library_laws L mv mf lv lf" and "heap_wf h"
    and "schemaList_at mv lv h p = Some v" and "registryList_at mv lv h q = Some w"
  shows "isolated_copy (SchemaList_DeepCopyObject L) (schemaList_at mv lv) (schemaList_cells mf lf) h p \<and>
    isolated_copy (SchemaRegistryList_DeepCopyObject L) (registryList_at mv lv)
      (registryList_cells mf lf) h q"
  using deep_copy_isolated [OF object_deep_copies(3) [OF assms(1)] assms(2,3)]
    deep_copy_isolated [OF object_deep_copies(4) [OF assms(1)] assms(2,4)] by (rule conjI)

text \<open>
  C35. The deep copies of a Schema, of a SchemaRegistry and of their lists are isolated: the copy has
  the same value (metadata, specification with its references or its authentication block and what
  that points to, status with the values behind pointers, conditions, and every item of a list in
  its order), no existing cell changes, the copy shares no cell with the original, and a write to
  any cell of either leaves the other's value as it was.
\<close>

theorem copies_isolated:
  assumes "library_laws L mv mf lv lf" and "heap_wf h"
    and "schema_at mv h p = Some v" and "registry_at mv h q = Some u"
    and "schemaList_at mv lv h p' = Some v'" and "registryList_at mv lv h q' = Some u'"
  shows "isolated_copy (Schema_DeepCopyObject L) (schema_at mv) (schema_cells mf) h p \<and>
    isolated_copy (SchemaRegistry_DeepCopyObject L) (registry_at mv) (registry_cells mf) h q \<and>
    isolated_copy (SchemaList_DeepCopyObject L) (schemaList_at mv lv) (schemaList_cells mf lf) h p' \<and>
    isolated_copy (SchemaRegistryList_DeepCopyObject L) (registryList_at mv lv)
      (registryList_cells mf lf) h q'"
  using object_copies_isolated [OF assms(1-4)] list_copies_isolated [OF assms(1,2,5,6)] by blast

theorem copies_isolated_witness:
  "isolated_copy (Schema_DeepCopyObject ref_library) (schema_at ref_meta_view)
     (schema_cells ref_meta_foot) ref_store (Some 7) \<and>
   isolated_copy (SchemaRegistryList_DeepCopyObject ref_library) (registryList_at ref_meta_view plain_view)
     (registryList_cells ref_meta_foot plain_foot) ref_store (Some 12)"
proof -
  obtain v u v' u' where "schema_at ref_meta_view ref_store (Some 7) = Some v"
      "registry_at ref_meta_view ref_store (Some 8) = Some u"
      "schemaList_at ref_meta_view plain_view ref_store (Some 10) = Some v'"
      "registryList_at ref_meta_view plain_view ref_store (Some 12) = Some u'"
    using ref_store_values by blast
  from copies_isolated [OF ref_library_laws ref_store_wf this] show ?thesis by blast
qed

end
