(* ===== verification/GoFlag.thy ===== *)
theory GoFlag
  imports Prelude
begin

text \<open>
  The part of Go's \<open>flag\<close> package that \<open>main.go\<close> uses: string and boolean variables, and the parsing
  of a command line. The state \<open>'f\<close> holds the variables of the flags. A flag that a library adds is
  known by whether it is boolean and by the values it accepts.
\<close>

section \<open>Values\<close>

datatype 'f flag_value =
    StringValue "string \<Rightarrow> 'f \<Rightarrow> 'f"
  | BoolValue "bool \<Rightarrow> 'f \<Rightarrow> 'f"
  | LibraryValue bool "string \<Rightarrow> bool"

text \<open>\<open>strconv.ParseBool\<close>.\<close>

definition parse_bool :: "string \<Rightarrow> bool option" where
  "parse_bool s =
     (if s \<in> {''1'', ''t'', ''T'', ''TRUE'', ''true'', ''True''} then Some True
      else if s \<in> {''0'', ''f'', ''F'', ''FALSE'', ''false'', ''False''} then Some False
      else None)"

fun is_bool_flag :: "'f flag_value \<Rightarrow> bool" where
  "is_bool_flag (StringValue g) = False"
| "is_bool_flag (BoolValue g) = True"
| "is_bool_flag (LibraryValue b ok) = b"

text \<open>\<open>Value.Set\<close>; \<open>None\<close> is an error.\<close>

fun set_flag :: "'f flag_value \<Rightarrow> string \<Rightarrow> 'f \<Rightarrow> 'f option" where
  "set_flag (StringValue g) v f = Some (g v f)"
| "set_flag (BoolValue g) v f = map_option (\<lambda>b. g b f) (parse_bool v)"
| "set_flag (LibraryValue b ok) v f = (if ok v then Some f else None)"

section \<open>Parsing\<close>

datatype flag_error =
    ErrHelp
  | BadFlagSyntax string
  | FlagNotDefined string
  | FlagNeedsArgument string
  | InvalidFlagValue string string

text \<open>
  What one argument is: the end of the flags, a malformed flag, or a flag by its name with the value
  after the first equals sign, if it has one.
\<close>

datatype argument = NoFlag | Malformed | FlagArg string "string option"

definition flag_arg :: "string \<Rightarrow> argument" where
  "flag_arg name =
     (if name = [] \<or> hd name = CHR ''-'' \<or> hd name = CHR ''='' then Malformed
      else FlagArg (hd name # takeWhile (\<lambda>c. c \<noteq> CHR ''='') (tl name))
        (case dropWhile (\<lambda>c. c \<noteq> CHR ''='') (tl name) of [] \<Rightarrow> None | _ # value \<Rightarrow> Some value))"

definition scan_argument :: "string \<Rightarrow> argument" where
  "scan_argument s =
     (if length s < 2 \<or> hd s \<noteq> CHR ''-'' then NoFlag
      else if s ! 1 = CHR ''-'' then (if length s = 2 then NoFlag else flag_arg (drop 2 s))
      else flag_arg (drop 1 s))"

text \<open>
  \<open>FlagSet.Parse\<close>: one flag after the other, until an argument is none; what follows is left alone. A
  boolean flag takes a value only after an equals sign, any other takes the next argument when it
  has none.
\<close>

fun parse_flags :: "(string \<Rightarrow> 'f flag_value option) \<Rightarrow> string list \<Rightarrow> 'f \<Rightarrow> flag_error + 'f" where
  "parse_flags formal [] f = Inr f"
| "parse_flags formal (s # args) f =
     (case scan_argument s of
        NoFlag \<Rightarrow> Inr f
      | Malformed \<Rightarrow> Inl (BadFlagSyntax s)
      | FlagArg name value \<Rightarrow>
          (case formal name of
             None \<Rightarrow> Inl (if name = ''help'' \<or> name = ''h'' then ErrHelp else FlagNotDefined name)
           | Some fv \<Rightarrow>
               if is_bool_flag fv then
                 (let v = (case value of None \<Rightarrow> ''true'' | Some v \<Rightarrow> v) in
                  case set_flag fv v f of
                    None \<Rightarrow> Inl (InvalidFlagValue name v)
                  | Some f1 \<Rightarrow> parse_flags formal args f1)
               else
                 (case value of
                    Some v \<Rightarrow>
                      (case set_flag fv v f of
                         None \<Rightarrow> Inl (InvalidFlagValue name v)
                       | Some f1 \<Rightarrow> parse_flags formal args f1)
                  | None \<Rightarrow>
                      (case args of
                         [] \<Rightarrow> Inl (FlagNeedsArgument name)
                       | v # args1 \<Rightarrow>
                           (case set_flag fv v f of
                              None \<Rightarrow> Inl (InvalidFlagValue name v)
                            | Some f1 \<Rightarrow> parse_flags formal args1 f1)))))"

section \<open>Facts about parsing\<close>

text \<open>\<open>--name=value\<close> is the flag of that name with that value.\<close>

definition flag_name :: "string \<Rightarrow> bool" where
  "flag_name n \<longleftrightarrow> n \<noteq> [] \<and> hd n \<noteq> CHR ''-'' \<and> CHR ''='' \<notin> set n"

lemma scan_flag_value:
  assumes "flag_name n"
  shows "scan_argument (''--'' @ n @ ''='' @ v) = FlagArg n (Some v)"
proof -
  obtain c cs where n: "n = c # cs" "c \<noteq> CHR ''-''" "c \<noteq> CHR ''=''" "CHR ''='' \<notin> set cs"
    using assms by (cases n) (auto simp: flag_name_def)
  have "takeWhile (\<lambda>c. c \<noteq> CHR ''='') (cs @ CHR ''='' # v) = cs"
      "dropWhile (\<lambda>c. c \<noteq> CHR ''='') (cs @ CHR ''='' # v) = CHR ''='' # v"
    using n(4) by (simp_all add: takeWhile_append dropWhile_append)
  then show ?thesis using n by (simp add: scan_argument_def flag_arg_def)
qed

text \<open>A flag given with a value that it accepts is set, and the parsing goes on behind it.\<close>

lemma parse_flag_value:
  assumes "flag_name n" "formal n = Some fv" "set_flag fv v f = Some f1"
  shows "parse_flags formal ((''--'' @ n @ ''='' @ v) # args) f = parse_flags formal args f1"
  using assms by (simp add: scan_flag_value del: append.simps append_Cons)

text \<open>A list of such flags sets one after the other.\<close>

lemma parse_flag_values:
  assumes "\<And>n v f. (n, v) \<in> set nvs \<Longrightarrow> flag_name n \<and> (\<exists>fv. formal n = Some fv \<and> set_flag fv v f = Some (g n v f))"
  shows "parse_flags formal (map (\<lambda>(n, v). ''--'' @ n @ ''='' @ v) nvs) f = Inr (fold (\<lambda>(n, v). g n v) nvs f)"
  using assms
proof (induction nvs arbitrary: f)
  case (Cons nv nvs)
  obtain n v where nv: "nv = (n, v)" by (cases nv)
  obtain fv where fv: "flag_name n" "formal n = Some fv" "set_flag fv v f = Some (g n v f)"
    using Cons.prems [of n v f] nv by auto
  have "parse_flags formal (map (\<lambda>(n, v). ''--'' @ n @ ''='' @ v) (nv # nvs)) f =
      parse_flags formal ((''--'' @ n @ ''='' @ v) # map (\<lambda>(n, v). ''--'' @ n @ ''='' @ v) nvs) f"
    by (simp add: nv)
  also have "\<dots> = parse_flags formal (map (\<lambda>(n, v). ''--'' @ n @ ''='' @ v) nvs) (g n v f)"
    using fv by (rule parse_flag_value)
  also have "\<dots> = Inr (fold (\<lambda>(n, v). g n v) nvs (g n v f))"
    by (rule Cons.IH) (use Cons.prems in auto)
  finally show ?case by (simp add: nv)
qed simp

text \<open>Whatever the accepted values of the flags that are mentioned keep holds after the parsing.\<close>

definition mentioned :: "string \<Rightarrow> string list \<Rightarrow> bool" where
  "mentioned n args \<longleftrightarrow> (\<exists>s \<in> set args. \<exists>value. scan_argument s = FlagArg n value)"

lemma parse_flags_keeps:
  assumes "parse_flags formal args f = Inr f'" "P f"
    and "\<And>n fv v g g'. mentioned n args \<Longrightarrow> formal n = Some fv \<Longrightarrow> set_flag fv v g = Some g' \<Longrightarrow> P g \<Longrightarrow> P g'"
  shows "P f'"
  using assms
proof (induction formal args f rule: parse_flags.induct)
  case (1 formal f)
  then show ?case by simp
next
  case (2 formal s args f)
  show ?case
  proof (cases "scan_argument s")
    case (FlagArg n ov)
    then have m: "mentioned n (s # args)" by (auto simp: mentioned_def)
    have tail: "mentioned k xs \<Longrightarrow> mentioned k (s # args)" if "set xs \<subseteq> set args" for k xs
      using that by (auto simp: mentioned_def)
    show ?thesis
    proof (cases "formal n")
      case (Some fv)
      have keep: "P f1" if "set_flag fv v f = Some f1" for v f1
        using "2.prems"(2,3) m Some that by blast
      show ?thesis
      proof (cases "is_bool_flag fv")
        case True
        define v where "v = (case ov of None \<Rightarrow> ''true'' | Some v \<Rightarrow> v)"
        obtain f1 where "set_flag fv v f = Some f1" "parse_flags formal args f1 = Inr f'"
          using "2.prems"(1) FlagArg Some True by (auto simp: v_def Let_def split: option.splits)
        then show ?thesis
          using "2.IH"(1) [OF FlagArg Some True v_def, of f1] keep "2.prems"(3) tail by blast
      next
        case False
        show ?thesis
        proof (cases ov)
          case given: (Some v)
          obtain f1 where "set_flag fv v f = Some f1" "parse_flags formal args f1 = Inr f'"
            using "2.prems"(1) FlagArg Some False given by (auto split: option.splits)
          then show ?thesis
            using "2.IH"(3) [OF FlagArg Some False given, of f1] keep "2.prems"(3) tail by blast
        next
          case None
          obtain v args1 f1 where "args = v # args1" "set_flag fv v f = Some f1"
              "parse_flags formal args1 f1 = Inr f'"
            using "2.prems"(1) FlagArg Some False None by (auto split: option.splits list.splits)
          moreover have "set args1 \<subseteq> set args" using \<open>args = v # args1\<close> by auto
          ultimately show ?thesis
            using "2.IH"(2) [OF FlagArg Some False None, of v args1 f1] keep "2.prems"(3) tail by blast
        qed
      qed
    next
      case None
      then show ?thesis using "2.prems"(1) FlagArg by simp
    qed
  qed (use "2.prems" in auto)
qed

end
