(* ===== verification/Manager.thy ===== *)
theory Manager
  imports GoFlag
begin

text \<open>
  The entry point \<open>cmd/main.go\<close>: the flags it declares and reads from the command line, the options
  it builds from them and the order in which it sets the manager up. The certificate watcher and
  controller-runtime are outside the repository: the flags they add to the command line are a
  parameter \<open>lib\<close>, under names of their own, and the effect of each call on controller-runtime is a
  parameter that returns an error or none. The TLS option is the one function the source appends, as
  a value with its meaning \<open>apply_tls\<close>.
\<close>

section \<open>Flags\<close>

record Flags =
  metricsAddr :: string
  probeAddr :: string
  enableLeaderElection :: bool
  secureMetrics :: bool
  webhookCertPath :: string
  webhookCertName :: string
  webhookCertKey :: string
  metricsCertPath :: string
  metricsCertName :: string
  metricsCertKey :: string
  enableHTTP2 :: bool

text \<open>The declarations of \<open>main\<close>, in order: the name, the variable that is set and the default.\<close>

datatype flag_decl =
    StringVar "string \<Rightarrow> Flags \<Rightarrow> Flags" string string
  | BoolVar "bool \<Rightarrow> Flags \<Rightarrow> Flags" string bool

definition main_decls :: "flag_decl list" where
  "main_decls =
     [StringVar (\<lambda>v f. f\<lparr>metricsAddr := v\<rparr>) ''metrics-bind-address'' ''0'',
      StringVar (\<lambda>v f. f\<lparr>probeAddr := v\<rparr>) ''health-probe-bind-address'' '':8081'',
      BoolVar (\<lambda>v f. f\<lparr>enableLeaderElection := v\<rparr>) ''leader-elect'' False,
      BoolVar (\<lambda>v f. f\<lparr>secureMetrics := v\<rparr>) ''metrics-secure'' True,
      StringVar (\<lambda>v f. f\<lparr>webhookCertPath := v\<rparr>) ''webhook-cert-path'' [],
      StringVar (\<lambda>v f. f\<lparr>webhookCertName := v\<rparr>) ''webhook-cert-name'' ''tls.crt'',
      StringVar (\<lambda>v f. f\<lparr>webhookCertKey := v\<rparr>) ''webhook-cert-key'' ''tls.key'',
      StringVar (\<lambda>v f. f\<lparr>metricsCertPath := v\<rparr>) ''metrics-cert-path'' [],
      StringVar (\<lambda>v f. f\<lparr>metricsCertName := v\<rparr>) ''metrics-cert-name'' ''tls.crt'',
      StringVar (\<lambda>v f. f\<lparr>metricsCertKey := v\<rparr>) ''metrics-cert-key'' ''tls.key'',
      BoolVar (\<lambda>v f. f\<lparr>enableHTTP2 := v\<rparr>) ''enable-http2'' False]"

text \<open>A declaration stores its default in the variable and makes the name known.\<close>

fun declare_var :: "flag_decl \<Rightarrow> Flags \<Rightarrow> Flags" where
  "declare_var (StringVar g n d) f = g d f"
| "declare_var (BoolVar g n d) f = g d f"

fun declared_flag :: "flag_decl \<Rightarrow> string \<times> Flags flag_value" where
  "declared_flag (StringVar g n d) = (n, StringValue g)"
| "declared_flag (BoolVar g n d) = (n, BoolValue g)"

definition zero_flags :: Flags where
  "zero_flags =
     \<lparr>metricsAddr = [], probeAddr = [], enableLeaderElection = False, secureMetrics = False,
      webhookCertPath = [], webhookCertName = [], webhookCertKey = [],
      metricsCertPath = [], metricsCertName = [], metricsCertKey = [], enableHTTP2 = False\<rparr>"

definition default_flags :: Flags where
  "default_flags = fold declare_var main_decls zero_flags"

text \<open>The flags that libraries add, by name: whether one is boolean, and which values it accepts.\<close>

type_synonym library_flags = "string \<Rightarrow> (bool \<times> (string \<Rightarrow> bool)) option"

definition formal_flags :: "library_flags \<Rightarrow> string \<Rightarrow> Flags flag_value option" where
  "formal_flags lib n =
     (case map_of (map declared_flag main_decls) n of
        Some fv \<Rightarrow> Some fv
      | None \<Rightarrow> map_option (\<lambda>(b, ok). LibraryValue b ok) (lib n))"

definition parse_command_line ::
  "library_flags \<Rightarrow> string list \<Rightarrow> flag_error + Flags" where
  "parse_command_line lib args = parse_flags (formal_flags lib) args default_flags"

section \<open>Options\<close>

record ServerTls =
  nextProtos :: "string list"

datatype tls_option = DisableHTTP2

fun apply_tls :: "tls_option \<Rightarrow> ServerTls \<Rightarrow> ServerTls" where
  "apply_tls DisableHTTP2 c = c\<lparr>nextProtos := [''http/1.1'']\<rparr>"

text \<open>Both servers run the options over their own configuration, in order.\<close>

definition server_tls :: "tls_option list \<Rightarrow> ServerTls \<Rightarrow> ServerTls" where
  "server_tls opts c = fold apply_tls opts c"

record WebhookOptions =
  wo_tlsOpts :: "tls_option list"
  wo_certDir :: string
  wo_certName :: string
  wo_keyName :: string

record MetricsOptions =
  mo_bindAddress :: string
  mo_secureServing :: bool
  mo_tlsOpts :: "tls_option list"
  mo_authentication :: bool
  mo_certDir :: string
  mo_certName :: string
  mo_keyName :: string

record ManagerOptions =
  opt_metrics :: MetricsOptions
  opt_webhook :: WebhookOptions
  opt_healthProbeBindAddress :: string
  opt_leaderElection :: bool
  opt_leaderElectionID :: string

definition tls_opts :: "Flags \<Rightarrow> tls_option list" where
  "tls_opts f = (if \<not> enableHTTP2 f then [] @ [DisableHTTP2] else [])"

definition webhook_options :: "Flags \<Rightarrow> WebhookOptions" where
  "webhook_options f =
     (let o1 = \<lparr>wo_tlsOpts = tls_opts f, wo_certDir = [], wo_certName = [], wo_keyName = []\<rparr> in
      if 0 < length (webhookCertPath f)
      then o1\<lparr>wo_certDir := webhookCertPath f, wo_certName := webhookCertName f,
              wo_keyName := webhookCertKey f\<rparr>
      else o1)"

definition metrics_options :: "Flags \<Rightarrow> MetricsOptions" where
  "metrics_options f =
     (let o1 = \<lparr>mo_bindAddress = metricsAddr f, mo_secureServing = secureMetrics f,
                mo_tlsOpts = tls_opts f, mo_authentication = False,
                mo_certDir = [], mo_certName = [], mo_keyName = []\<rparr>;
          o2 = (if secureMetrics f then o1\<lparr>mo_authentication := True\<rparr> else o1)
      in if 0 < length (metricsCertPath f)
         then o2\<lparr>mo_certDir := metricsCertPath f, mo_certName := metricsCertName f,
                 mo_keyName := metricsCertKey f\<rparr>
         else o2)"

definition manager_options :: "Flags \<Rightarrow> ManagerOptions" where
  "manager_options f =
     \<lparr>opt_metrics = metrics_options f, opt_webhook = webhook_options f,
      opt_healthProbeBindAddress = probeAddr f, opt_leaderElection = enableLeaderElection f,
      opt_leaderElectionID = ''36d28028.strimzi.io''\<rparr>"

section \<open>The start\<close>

datatype setup_step =
    GetConfigOrDie
  | NewManager ManagerOptions
  | SetupSchemaReconciler
  | SetupSchemaRegistryReconciler
  | SetupSchemaWebhook
  | SetupSchemaRegistryWebhook
  | AddHealthzCheck
  | AddReadyzCheck
  | StartManager

text \<open>The calls of \<open>main\<close>, in order; \<open>enable\<close> is the value of \<open>ENABLE_WEBHOOKS\<close>.\<close>

definition setup_steps :: "Flags \<Rightarrow> string \<Rightarrow> setup_step list" where
  "setup_steps f enable =
     [GetConfigOrDie, NewManager (manager_options f), SetupSchemaReconciler, SetupSchemaRegistryReconciler] @
     (if enable \<noteq> ''false'' then [SetupSchemaWebhook] else []) @
     (if enable \<noteq> ''false'' then [SetupSchemaRegistryWebhook] else []) @
     [AddHealthzCheck, AddReadyzCheck, StartManager]"

text \<open>
  Each call either returns no error, or the program exits with status 1. The result is the
  exit status, the calls made, and the state they leave.
\<close>

fun run_steps ::
  "(setup_step \<Rightarrow> 'm \<Rightarrow> go_error option \<times> 'm) \<Rightarrow> setup_step list \<Rightarrow> 'm \<Rightarrow>
    nat \<times> setup_step list \<times> 'm" where
  "run_steps act [] m = (0, [], m)"
| "run_steps act (s # ss) m =
     (case act s m of
        (Some err, m1) \<Rightarrow> (1, [s], m1)
      | (None, m1) \<Rightarrow> (case run_steps act ss m1 of (code, made, m2) \<Rightarrow> (code, s # made, m2)))"

text \<open>
  A command line that cannot be read ends the program with status 2, one that asks for help with
  status 0; \<open>args\<close> is \<open>os.Args\<close> without the name of the program.
\<close>

definition main ::
  "library_flags \<Rightarrow> (setup_step \<Rightarrow> 'm \<Rightarrow> go_error option \<times> 'm) \<Rightarrow>
    string list \<Rightarrow> string \<Rightarrow> 'm \<Rightarrow> nat \<times> setup_step list \<times> 'm" where
  "main lib act args enable m =
     (case parse_command_line lib args of
        Inl e \<Rightarrow> (if e = ErrHelp then 0 else 2, [], m)
      | Inr f \<Rightarrow> run_steps act (setup_steps f enable) m)"

section \<open>The deployment\<close>

text \<open>
  The command line of the deployment: that of \<open>config/manager/manager.yaml\<close>, to which
  \<open>config/default/kustomization.yaml\<close> applies the patch of the metrics endpoint, which adds at index 0,
  and then that of the webhook server, which adds at the end.
\<close>

definition manager_yaml_args :: "string list" where
  "manager_yaml_args = [''--leader-elect'', ''--health-probe-bind-address=:8081'']"

definition manager_metrics_patch :: "string list \<Rightarrow> string list" where
  "manager_metrics_patch args = ''--metrics-bind-address=:8443'' # args"

definition manager_webhook_patch :: "string list \<Rightarrow> string list" where
  "manager_webhook_patch args = args @ [''--webhook-cert-path=/tmp/k8s-webhook-server/serving-certs'']"

definition deployed_args :: "string list" where
  "deployed_args = manager_webhook_patch (manager_metrics_patch manager_yaml_args)"

section \<open>Facts about the start\<close>

text \<open>
  All calls are made without an error and the status is 0, or they are made up to the first
  that fails and the status is 1.
\<close>

lemma run_steps_outcome:
  "run_steps act ss m = (code, made, m') \<Longrightarrow>
    code = 0 \<and> made = ss \<or>
    code = 1 \<and> (\<exists>n < length ss. made = take (Suc n) ss \<and> (\<exists>m0 err. act (ss ! n) m0 = (Some err, m')))"
proof (induction ss arbitrary: m code made)
  case Nil
  then show ?case by simp
next
  case (Cons s ss)
  obtain r m1 where a: "act s m = (r, m1)" by (cases "act s m")
  show ?case
  proof (cases r)
    case (Some e)
    then have "code = 1" "made = [s]" "act s m = (Some e, m')" using Cons.prems a by simp_all
    then show ?thesis by (intro disjI2 conjI exI [of _ "0 :: nat"]) auto
  next
    case None
    obtain c made1 m2 where r: "run_steps act ss m1 = (c, made1, m2)" by (cases "run_steps act ss m1")
    then have d: "code = c" "made = s # made1" "m' = m2" using Cons.prems a None by simp_all
    have "c = 0 \<and> made1 = ss \<or>
        c = 1 \<and> (\<exists>n < length ss. made1 = take (Suc n) ss \<and> (\<exists>m0 err. act (ss ! n) m0 = (Some err, m')))"
      using Cons.IH r d(3) by simp
    then show ?thesis
    proof (elim disjE conjE exE)
      fix n m0 err
      assume "c = 1" "n < length ss" "made1 = take (Suc n) ss" "act (ss ! n) m0 = (Some err, m')"
      then show ?thesis using d by (intro disjI2 conjI exI [of _ "Suc n"]) auto
    qed (simp add: d)
  qed
qed

lemma start_only_last: "n < length (setup_steps f enable) \<Longrightarrow> StartManager \<notin> set (take n (setup_steps f enable))"
proof -
  let ?ss = "setup_steps f enable"
  assume "n < length ?ss"
  then have "take n ?ss = take n (butlast ?ss)" by (simp add: take_butlast)
  moreover have "StartManager \<notin> set (butlast ?ss)" by (simp add: setup_steps_def butlast_append)
  ultimately show "StartManager \<notin> set (take n ?ss)" by (metis in_set_takeD)
qed

lemma start_is_last:
  assumes "run_steps act (setup_steps f enable) m = (code, made, m')" "StartManager \<in> set made"
  shows "made = setup_steps f enable"
proof -
  let ?ss = "setup_steps f enable"
  have "made = ?ss \<or> (\<exists>n < length ?ss. made = take (Suc n) ?ss)"
    using run_steps_outcome [OF assms(1)] by blast
  then show ?thesis
  proof (elim disjE exE conjE)
    fix n assume n: "n < length ?ss" "made = take (Suc n) ?ss"
    then have "\<not> Suc n < length ?ss" using start_only_last assms(2) by blast
    then show ?thesis using n by simp
  qed
qed

lemma default_flags_eq:
  "default_flags =
     \<lparr>metricsAddr = ''0'', probeAddr = '':8081'', enableLeaderElection = False, secureMetrics = True,
      webhookCertPath = [], webhookCertName = ''tls.crt'', webhookCertKey = ''tls.key'',
      metricsCertPath = [], metricsCertName = ''tls.crt'', metricsCertKey = ''tls.key'',
      enableHTTP2 = False\<rparr>"
  by (simp add: default_flags_def main_decls_def zero_flags_def)

lemma server_tls_protocols:
  "nextProtos (server_tls (tls_opts f) c) = (if enableHTTP2 f then nextProtos c else [''http/1.1''])"
  by (simp add: server_tls_def tls_opts_def)

section \<open>Facts about the command line\<close>

text \<open>The value of every flag as text, by its name.\<close>

definition show_bool :: "bool \<Rightarrow> string" where
  "show_bool b = (if b then ''true'' else ''false'')"

lemma parse_show_bool [simp]: "parse_bool (show_bool b) = Some b"
  by (simp add: show_bool_def parse_bool_def)

definition flag_texts :: "Flags \<Rightarrow> (string \<times> string) list" where
  "flag_texts f =
     [(''metrics-bind-address'', metricsAddr f), (''health-probe-bind-address'', probeAddr f),
      (''leader-elect'', show_bool (enableLeaderElection f)), (''metrics-secure'', show_bool (secureMetrics f)),
      (''webhook-cert-path'', webhookCertPath f), (''webhook-cert-name'', webhookCertName f),
      (''webhook-cert-key'', webhookCertKey f), (''metrics-cert-path'', metricsCertPath f),
      (''metrics-cert-name'', metricsCertName f), (''metrics-cert-key'', metricsCertKey f),
      (''enable-http2'', show_bool (enableHTTP2 f))]"

definition flag_args :: "Flags \<Rightarrow> string list" where
  "flag_args f = map (\<lambda>(n, v). ''--'' @ n @ ''='' @ v) (flag_texts f)"

definition set_text :: "string \<Rightarrow> string \<Rightarrow> Flags \<Rightarrow> Flags" where
  "set_text n v f =
     (case map_of (map declared_flag main_decls) n of
        None \<Rightarrow> f
      | Some fv \<Rightarrow> (case set_flag fv v f of None \<Rightarrow> f | Some f1 \<Rightarrow> f1))"

lemma declared_values:
  "map_of (map declared_flag main_decls) ''metrics-bind-address'' = Some (StringValue (\<lambda>v f. f\<lparr>metricsAddr := v\<rparr>))"
  "map_of (map declared_flag main_decls) ''health-probe-bind-address'' = Some (StringValue (\<lambda>v f. f\<lparr>probeAddr := v\<rparr>))"
  "map_of (map declared_flag main_decls) ''leader-elect'' = Some (BoolValue (\<lambda>v f. f\<lparr>enableLeaderElection := v\<rparr>))"
  "map_of (map declared_flag main_decls) ''metrics-secure'' = Some (BoolValue (\<lambda>v f. f\<lparr>secureMetrics := v\<rparr>))"
  "map_of (map declared_flag main_decls) ''webhook-cert-path'' = Some (StringValue (\<lambda>v f. f\<lparr>webhookCertPath := v\<rparr>))"
  "map_of (map declared_flag main_decls) ''webhook-cert-name'' = Some (StringValue (\<lambda>v f. f\<lparr>webhookCertName := v\<rparr>))"
  "map_of (map declared_flag main_decls) ''webhook-cert-key'' = Some (StringValue (\<lambda>v f. f\<lparr>webhookCertKey := v\<rparr>))"
  "map_of (map declared_flag main_decls) ''metrics-cert-path'' = Some (StringValue (\<lambda>v f. f\<lparr>metricsCertPath := v\<rparr>))"
  "map_of (map declared_flag main_decls) ''metrics-cert-name'' = Some (StringValue (\<lambda>v f. f\<lparr>metricsCertName := v\<rparr>))"
  "map_of (map declared_flag main_decls) ''metrics-cert-key'' = Some (StringValue (\<lambda>v f. f\<lparr>metricsCertKey := v\<rparr>))"
  "map_of (map declared_flag main_decls) ''enable-http2'' = Some (BoolValue (\<lambda>v f. f\<lparr>enableHTTP2 := v\<rparr>))"
  by (simp_all add: main_decls_def)

lemma flag_texts_settable:
  assumes "(n, v) \<in> set (flag_texts f)"
  shows "flag_name n \<and> (\<exists>fv. formal_flags lib n = Some fv \<and> set_flag fv v g = Some (set_text n v g))"
  using assms unfolding flag_texts_def list.set insert_iff empty_iff prod.inject
  by (elim disjE conjE) (simp_all add: flag_name_def formal_flags_def set_text_def declared_values)

lemma set_texts: "fold (\<lambda>(n, v). set_text n v) (flag_texts f) g = f"
  by (cases f; cases g) (simp add: flag_texts_def set_text_def declared_values)

lemma parse_flag_args: "parse_command_line lib (flag_args f) = Inr f"
  unfolding parse_command_line_def flag_args_def
  by (subst parse_flag_values [where g = set_text, OF flag_texts_settable]) (simp_all add: set_texts)

text \<open>A flag sets its own variable only.\<close>

lemma flag_texts_update:
  "''metrics-bind-address'' \<noteq> n \<Longrightarrow> map_of (flag_texts (f\<lparr>metricsAddr := v\<rparr>)) n = map_of (flag_texts f) n"
  "''health-probe-bind-address'' \<noteq> n \<Longrightarrow> map_of (flag_texts (f\<lparr>probeAddr := v\<rparr>)) n = map_of (flag_texts f) n"
  "''leader-elect'' \<noteq> n \<Longrightarrow> map_of (flag_texts (f\<lparr>enableLeaderElection := b\<rparr>)) n = map_of (flag_texts f) n"
  "''metrics-secure'' \<noteq> n \<Longrightarrow> map_of (flag_texts (f\<lparr>secureMetrics := b\<rparr>)) n = map_of (flag_texts f) n"
  "''webhook-cert-path'' \<noteq> n \<Longrightarrow> map_of (flag_texts (f\<lparr>webhookCertPath := v\<rparr>)) n = map_of (flag_texts f) n"
  "''webhook-cert-name'' \<noteq> n \<Longrightarrow> map_of (flag_texts (f\<lparr>webhookCertName := v\<rparr>)) n = map_of (flag_texts f) n"
  "''webhook-cert-key'' \<noteq> n \<Longrightarrow> map_of (flag_texts (f\<lparr>webhookCertKey := v\<rparr>)) n = map_of (flag_texts f) n"
  "''metrics-cert-path'' \<noteq> n \<Longrightarrow> map_of (flag_texts (f\<lparr>metricsCertPath := v\<rparr>)) n = map_of (flag_texts f) n"
  "''metrics-cert-name'' \<noteq> n \<Longrightarrow> map_of (flag_texts (f\<lparr>metricsCertName := v\<rparr>)) n = map_of (flag_texts f) n"
  "''metrics-cert-key'' \<noteq> n \<Longrightarrow> map_of (flag_texts (f\<lparr>metricsCertKey := v\<rparr>)) n = map_of (flag_texts f) n"
  "''enable-http2'' \<noteq> n \<Longrightarrow> map_of (flag_texts (f\<lparr>enableHTTP2 := b\<rparr>)) n = map_of (flag_texts f) n"
  by (simp_all add: flag_texts_def)

lemma declared_flag_other:
  assumes "(n', fv) \<in> set (map declared_flag main_decls)" "set_flag fv v f = Some f'" "n' \<noteq> n"
  shows "map_of (flag_texts f') n = map_of (flag_texts f) n"
  using assms unfolding main_decls_def list.map list.set declared_flag.simps insert_iff empty_iff prod.inject
  by (elim disjE conjE) (auto simp: flag_texts_update)

lemma set_flag_other:
  assumes "formal_flags lib n' = Some fv" "set_flag fv v f = Some f'" "n' \<noteq> n"
  shows "map_of (flag_texts f') n = map_of (flag_texts f) n"
proof (cases "map_of (map declared_flag main_decls) n'")
  case None
  then show ?thesis using assms(1,2) by (auto simp: formal_flags_def split: if_splits)
next
  case (Some fv')
  then have "(n', fv) \<in> set (map declared_flag main_decls)"
    using assms(1) map_of_SomeD [OF Some] by (simp add: formal_flags_def)
  then show ?thesis using assms(2,3) by (rule declared_flag_other)
qed

text \<open>A flag that the command line does not mention has its default.\<close>

lemma unmentioned_default:
  assumes "parse_command_line lib args = Inr f" "\<not> mentioned n args"
  shows "map_of (flag_texts f) n = map_of (flag_texts default_flags) n"
proof -
  have "map_of (flag_texts g') n = map_of (flag_texts default_flags) n"
    if "mentioned m args" "formal_flags lib m = Some fv" "set_flag fv v g = Some g'"
      "map_of (flag_texts g) n = map_of (flag_texts default_flags) n" for m fv v g g'
  proof -
    have "m \<noteq> n" using that(1) assms(2) by blast
    then show ?thesis using set_flag_other [OF that(2,3)] that(4) by simp
  qed
  then show ?thesis
    using parse_flags_keeps [OF assms(1) [unfolded parse_command_line_def],
        where P = "\<lambda>f. map_of (flag_texts f) n = map_of (flag_texts default_flags) n"] by blast
qed

text \<open>The deployment's command line is read.\<close>

lemma parse_deployed:
  "parse_command_line lib deployed_args = Inr (default_flags\<lparr>metricsAddr := '':8443'',
     enableLeaderElection := True, probeAddr := '':8081'',
     webhookCertPath := ''/tmp/k8s-webhook-server/serving-certs''\<rparr>)"
  by (simp add: parse_command_line_def deployed_args_def manager_webhook_patch_def manager_metrics_patch_def
      manager_yaml_args_def scan_argument_def flag_arg_def formal_flags_def declared_values parse_bool_def)

end
