(* ===== verification/ManagerProperties.thy ===== *)
theory ManagerProperties
  imports Manager
begin

text \<open>The properties of the start of the program.\<close>

section \<open>The start\<close>

text \<open>Calls of which the registration of the second webhook fails.\<close>

definition ref_act :: "setup_step \<Rightarrow> nat \<Rightarrow> go_error option \<times> nat" where
  "ref_act s n = (if s = SetupSchemaRegistryWebhook then Some (errorf ''no webhook server'') else None, Suc n)"

text \<open>
  C36. The command line is read first: when it cannot be read nothing is set up and the status is 2,
  or 0 when it asks for help. Otherwise the program exits with 0 after all of the set-up calls, or with 1
  after the first that failed. So the manager is started only when both reconcilers and both probes
  are set up with the options of the command line, and both webhooks, unless \<open>ENABLE_WEBHOOKS\<close> is
  exactly \<open>false\<close>, in which case neither is.
\<close>

theorem manager_started_complete:
  assumes "main lib act args enable m = (code, made, m')"
  shows "case parse_command_line lib args of
      Inl e \<Rightarrow> made = [] \<and> m' = m \<and> code = (if e = ErrHelp then 0 else 2)
    | Inr f \<Rightarrow>
        (code = 0 \<and> made = setup_steps f enable \<or>
         code = 1 \<and> (\<exists>n < length (setup_steps f enable). made = take (Suc n) (setup_steps f enable) \<and>
           (\<exists>m0 err. act (setup_steps f enable ! n) m0 = (Some err, m')))) \<and>
        (StartManager \<in> set made \<longrightarrow>
          {NewManager (manager_options f), SetupSchemaReconciler, SetupSchemaRegistryReconciler,
            AddHealthzCheck, AddReadyzCheck} \<subseteq> set made \<and>
          (SetupSchemaWebhook \<in> set made \<longleftrightarrow> enable \<noteq> ''false'') \<and>
          (SetupSchemaRegistryWebhook \<in> set made \<longleftrightarrow> enable \<noteq> ''false''))"
proof (cases "parse_command_line lib args")
  case (Inl e)
  then show ?thesis using assms by (auto simp: main_def)
next
  case (Inr f)
  then have run: "run_steps act (setup_steps f enable) m = (code, made, m')" using assms by (simp add: main_def)
  have "{NewManager (manager_options f), SetupSchemaReconciler, SetupSchemaRegistryReconciler,
        AddHealthzCheck, AddReadyzCheck} \<subseteq> set made \<and>
      (SetupSchemaWebhook \<in> set made \<longleftrightarrow> enable \<noteq> ''false'') \<and>
      (SetupSchemaRegistryWebhook \<in> set made \<longleftrightarrow> enable \<noteq> ''false'')" if "StartManager \<in> set made"
    using start_is_last [OF run that] by (simp add: setup_steps_def)
  then show ?thesis using run_steps_outcome [OF run] Inr by simp
qed

theorem manager_started_complete_witness:
  "main (\<lambda>n. None) ref_act [''--help''] [] 0 = (0, [], 0) \<and>
   (\<exists>made. main (\<lambda>n. None) ref_act [] ''false'' 0 = (0, made, 7) \<and> StartManager \<in> set made \<and>
     SetupSchemaWebhook \<notin> set made \<and> AddReadyzCheck \<in> set made)"
proof -
  have h: "parse_command_line (\<lambda>n. None) [''--help''] = Inl ErrHelp"
    by (simp add: parse_command_line_def scan_argument_def flag_arg_def formal_flags_def main_decls_def)
  obtain c made m' where "main (\<lambda>n. None) ref_act [''--help''] [] 0 = (c, made, m')"
    by (cases "main (\<lambda>n. None) ref_act [''--help''] [] 0")
  with manager_started_complete [OF this] h
  have asked: "main (\<lambda>n. None) ref_act [''--help''] [] 0 = (0, [], 0)" by simp
  have none: "parse_command_line (\<lambda>n. None) [] = Inr default_flags" by (simp add: parse_command_line_def)
  obtain made2 where r2: "main (\<lambda>n. None) ref_act [] ''false'' 0 = (0, made2, 7)"
    by (simp add: main_def none setup_steps_def ref_act_def)
  note t = manager_started_complete [OF r2, unfolded none sum.case]
  have "made2 = setup_steps default_flags ''false''" using t by simp
  then have s: "StartManager \<in> set made2" by (simp add: setup_steps_def)
  show ?thesis using asked r2 s conjunct2 [OF t, rule_format, OF s] by blast
qed

text \<open>
  C37. Both servers the manager runs speak HTTP/1.1 only unless \<open>--enable-http2\<close> is given, each
  metrics endpoint that is served over TLS asks for authentication and authorisation, and the
  certificate files of a server come from the flags exactly when its directory is given. Without
  arguments the metrics endpoint is not bound and leader election is off; with those of the deployment
  the metrics are served over TLS on port 8443, with authentication, the probes on port 8081, where
  \<open>manager.yaml\<close> looks for them, the leader is elected and HTTP/2 is off.
\<close>

theorem servers_configured_safely:
  "nextProtos (server_tls (mo_tlsOpts (opt_metrics (manager_options f))) c) =
     (if enableHTTP2 f then nextProtos c else [''http/1.1'']) \<and>
   nextProtos (server_tls (wo_tlsOpts (opt_webhook (manager_options f))) c) =
     (if enableHTTP2 f then nextProtos c else [''http/1.1'']) \<and>
   (mo_secureServing (opt_metrics (manager_options f)) \<longleftrightarrow> secureMetrics f) \<and>
   (mo_authentication (opt_metrics (manager_options f)) \<longleftrightarrow> secureMetrics f) \<and>
   mo_certDir (opt_metrics (manager_options f)) = metricsCertPath f \<and>
   (mo_certName (opt_metrics (manager_options f)), mo_keyName (opt_metrics (manager_options f))) =
     (if metricsCertPath f = [] then ([], []) else (metricsCertName f, metricsCertKey f)) \<and>
   wo_certDir (opt_webhook (manager_options f)) = webhookCertPath f \<and>
   (wo_certName (opt_webhook (manager_options f)), wo_keyName (opt_webhook (manager_options f))) =
     (if webhookCertPath f = [] then ([], []) else (webhookCertName f, webhookCertKey f)) \<and>
   (\<exists>f0. parse_command_line lib [] = Inr f0 \<and>
     mo_bindAddress (opt_metrics (manager_options f0)) = ''0'' \<and> \<not> opt_leaderElection (manager_options f0)) \<and>
   (\<exists>f1. parse_command_line lib deployed_args = Inr f1 \<and>
     mo_bindAddress (opt_metrics (manager_options f1)) = '':8443'' \<and>
     mo_secureServing (opt_metrics (manager_options f1)) \<and> mo_authentication (opt_metrics (manager_options f1)) \<and>
     opt_healthProbeBindAddress (manager_options f1) = '':8081'' \<and> opt_leaderElection (manager_options f1) \<and>
     \<not> enableHTTP2 f1)"
proof (intro conjI)
  show "nextProtos (server_tls (mo_tlsOpts (opt_metrics (manager_options f))) c) =
      (if enableHTTP2 f then nextProtos c else [''http/1.1''])"
    "nextProtos (server_tls (wo_tlsOpts (opt_webhook (manager_options f))) c) =
      (if enableHTTP2 f then nextProtos c else [''http/1.1''])"
    using server_tls_protocols [of f c]
    by (simp_all add: manager_options_def metrics_options_def webhook_options_def Let_def)
  show "\<exists>f0. parse_command_line lib [] = Inr f0 \<and>
      mo_bindAddress (opt_metrics (manager_options f0)) = ''0'' \<and> \<not> opt_leaderElection (manager_options f0)"
    by (simp add: parse_command_line_def default_flags_eq manager_options_def metrics_options_def Let_def)
  show "\<exists>f1. parse_command_line lib deployed_args = Inr f1 \<and>
      mo_bindAddress (opt_metrics (manager_options f1)) = '':8443'' \<and>
      mo_secureServing (opt_metrics (manager_options f1)) \<and> mo_authentication (opt_metrics (manager_options f1)) \<and>
      opt_healthProbeBindAddress (manager_options f1) = '':8081'' \<and> opt_leaderElection (manager_options f1) \<and>
      \<not> enableHTTP2 f1"
    unfolding parse_deployed [of lib]
    by (simp add: default_flags_eq manager_options_def metrics_options_def Let_def)
qed (simp_all add: manager_options_def metrics_options_def webhook_options_def Let_def)

section \<open>The command line\<close>

text \<open>
  C38. Reading the command line loses nothing: every combination of flag values is read back from the
  command line that gives them all as \<open>--name=value\<close>, whatever the strings contain. And it adds
  nothing: after any command line that is read, each flag that no argument names has its default, so
  HTTP/2 is on only when an argument \<open>--enable-http2\<close> asks for it.
\<close>

theorem command_line_read:
  "parse_command_line lib (flag_args f) = Inr f \<and>
   (parse_command_line lib args = Inr f' \<longrightarrow>
     (\<forall>n. \<not> mentioned n args \<longrightarrow> map_of (flag_texts f') n = map_of (flag_texts default_flags) n) \<and>
     (enableHTTP2 f' \<longrightarrow> mentioned ''enable-http2'' args))"
proof (intro conjI impI allI)
  assume parsed: "parse_command_line lib args = Inr f'"
  show "map_of (flag_texts f') n = map_of (flag_texts default_flags) n" if "\<not> mentioned n args" for n
    using unmentioned_default [OF parsed that] .
  show "mentioned ''enable-http2'' args" if "enableHTTP2 f'"
    using unmentioned_default [OF parsed, of "''enable-http2''"] that
    by (auto simp: flag_texts_def default_flags_eq show_bool_def)
qed (rule parse_flag_args)

theorem command_line_read_witness:
  "parse_command_line (\<lambda>n. None) (flag_args (default_flags\<lparr>metricsAddr := ''--enable-http2''\<rparr>)) =
     Inr (default_flags\<lparr>metricsAddr := ''--enable-http2''\<rparr>) \<and>
   map_of (flag_texts (default_flags\<lparr>metricsAddr := '':8443'', enableLeaderElection := True,
     probeAddr := '':8081'', webhookCertPath := ''/tmp/k8s-webhook-server/serving-certs''\<rparr>)) ''metrics-secure'' =
     Some ''true''"
proof -
  have "\<not> mentioned ''metrics-secure'' deployed_args"
    by (simp add: mentioned_def deployed_args_def manager_webhook_patch_def manager_metrics_patch_def
        manager_yaml_args_def scan_argument_def flag_arg_def)
  moreover have "map_of (flag_texts default_flags) ''metrics-secure'' = Some ''true''"
    by (simp add: flag_texts_def default_flags_eq show_bool_def)
  ultimately show ?thesis
    using command_line_read [of "\<lambda>n. None" "default_flags\<lparr>metricsAddr := ''--enable-http2''\<rparr>" deployed_args]
      parse_deployed [of "\<lambda>n. None"] by simp
qed

end
