(* ===== verification/SchemeSetup.thy ===== *)
theory SchemeSetup
  imports Wiring
begin

text \<open>
  The registration of the Go types with the runtime scheme: the group and version and the builder
  of \<open>groupversion_info.go\<close>, the \<open>init\<close> functions of the two type files, and the \<open>init\<close> of \<open>main.go\<close>,
  which fills the scheme of the manager and panics on an error. Adding types to a scheme is the
  work of \<open>k8s.io/apimachinery\<close>: it is a parameter, with its documented effect as \<open>scheme_laws\<close>.
\<close>

section \<open>The code\<close>

record GroupVersion =
  gv_group :: string
  gv_version :: string

definition GroupVersion_v1alpha1 :: GroupVersion where
  "GroupVersion_v1alpha1 = \<lparr>gv_group = ''registry.strimzi.io'', gv_version = ''v1alpha1''\<rparr>"

datatype api_type = TypeSchema | TypeSchemaList | TypeSchemaRegistry | TypeSchemaRegistryList

record Builder =
  sb_groupVersion :: GroupVersion
  sb_objects :: "api_type list"

definition SchemeBuilder :: Builder where
  "SchemeBuilder = \<lparr>sb_groupVersion = GroupVersion_v1alpha1, sb_objects = []\<rparr>"

definition Register :: "api_type list \<Rightarrow> Builder \<Rightarrow> Builder" where
  "Register objs b = b\<lparr>sb_objects := sb_objects b @ objs\<rparr>"

definition schema_types_init :: "Builder \<Rightarrow> Builder" where
  "schema_types_init b = Register [TypeSchema, TypeSchemaList] b"

definition schemaregistry_types_init :: "Builder \<Rightarrow> Builder" where
  "schemaregistry_types_init b = Register [TypeSchemaRegistry, TypeSchemaRegistryList] b"

text \<open>The files of a package are initialised in the order of their names.\<close>

definition v1alpha1_init :: Builder where
  "v1alpha1_init = schemaregistry_types_init (schema_types_init SchemeBuilder)"

text \<open>\<open>AddToScheme\<close> with the types the builder holds, and the \<open>init\<close> of \<open>main.go\<close>; \<open>None\<close> is a panic.\<close>

definition AddToScheme ::
  "(GroupVersion \<Rightarrow> api_type list \<Rightarrow> 's \<Rightarrow> go_error option \<times> 's) \<Rightarrow> 's \<Rightarrow> go_error option \<times> 's" where
  "AddToScheme add_types s = add_types (sb_groupVersion v1alpha1_init) (sb_objects v1alpha1_init) s"

definition main_init ::
  "('s \<Rightarrow> go_error option \<times> 's) \<Rightarrow>
    (GroupVersion \<Rightarrow> api_type list \<Rightarrow> 's \<Rightarrow> go_error option \<times> 's) \<Rightarrow> 's \<Rightarrow> 's option" where
  "main_init clientgo_add add_types s =
     (case clientgo_add s of
        (Some err, s1) \<Rightarrow> None
      | (None, s1) \<Rightarrow>
          (case AddToScheme add_types s1 of
             (Some err, s2) \<Rightarrow> None
           | (None, s2) \<Rightarrow> Some s2))"

section \<open>What the scheme has to know\<close>

definition core_v1 :: GroupVersion where
  "core_v1 = \<lparr>gv_group = [], gv_version = ''v1''\<rparr>"

fun type_kind :: "api_type \<Rightarrow> string" where
  "type_kind TypeSchema = ''Schema''"
| "type_kind TypeSchemaList = ''SchemaList''"
| "type_kind TypeSchemaRegistry = ''SchemaRegistry''"
| "type_kind TypeSchemaRegistryList = ''SchemaRegistryList''"

fun kind_gvk :: "object_kind \<Rightarrow> GroupVersion \<times> string" where
  "kind_gvk SchemaKind = (GroupVersion_v1alpha1, ''Schema'')"
| "kind_gvk SchemaRegistryKind = (GroupVersion_v1alpha1, ''SchemaRegistry'')"
| "kind_gvk SecretKind = (core_v1, ''Secret'')"

text \<open>The kinds the controllers and webhooks of the manager are set up for.\<close>

definition controller_kinds :: "'w controller \<Rightarrow> object_kind set" where
  "controller_kinds c = insert (ctl_for c) (set (map fst (ctl_watches c)))"

definition used_kinds :: "'w env \<Rightarrow> object_kind set" where
  "used_kinds E =
     controller_kinds (schema_SetupWithManager E) \<union> controller_kinds (registry_SetupWithManager E) \<union>
     {wh_for SetupSchemaWebhookWithManager, wh_for SetupSchemaRegistryWebhookWithManager}"

text \<open>
  \<open>known s\<close> are the kinds a scheme knows: adding types adds their kinds under the group and version
  and keeps the others, and the scheme of client-go knows the Secret.
\<close>

definition scheme_laws ::
  "('s \<Rightarrow> (GroupVersion \<times> string) set) \<Rightarrow> ('s \<Rightarrow> go_error option \<times> 's) \<Rightarrow>
    (GroupVersion \<Rightarrow> api_type list \<Rightarrow> 's \<Rightarrow> go_error option \<times> 's) \<Rightarrow> bool" where
  "scheme_laws known clientgo_add add_types \<longleftrightarrow>
     (\<forall>gv ts s s'. add_types gv ts s = (None, s') \<longrightarrow>
        known s' = known s \<union> {(gv, type_kind t) |t. t \<in> set ts}) \<and>
     (\<forall>s s'. clientgo_add s = (None, s') \<longrightarrow> (core_v1, ''Secret'') \<in> known s')"

lemma v1alpha1_types:
  "sb_groupVersion v1alpha1_init = GroupVersion_v1alpha1"
  "set (sb_objects v1alpha1_init) = UNIV"
proof -
  show "sb_groupVersion v1alpha1_init = GroupVersion_v1alpha1"
    by (simp add: v1alpha1_init_def schemaregistry_types_init_def schema_types_init_def Register_def SchemeBuilder_def)
  have "t \<in> set (sb_objects v1alpha1_init)" for t
    by (cases t) (simp_all add: v1alpha1_init_def schemaregistry_types_init_def schema_types_init_def
        Register_def SchemeBuilder_def)
  then show "set (sb_objects v1alpha1_init) = UNIV" by blast
qed

lemma main_init_known:
  assumes "scheme_laws known clientgo_add add_types" "main_init clientgo_add add_types s = Some s'"
  shows "(core_v1, ''Secret'') \<in> known s' \<and> (\<forall>t. (GroupVersion_v1alpha1, type_kind t) \<in> known s')"
proof -
  obtain s1 where c: "clientgo_add s = (None, s1)" and a: "AddToScheme add_types s1 = (None, s')"
    using assms(2) by (auto simp: main_init_def split: prod.splits option.splits)
  have "known s' = known s1 \<union> {(sb_groupVersion v1alpha1_init, type_kind t) |t. t \<in> set (sb_objects v1alpha1_init)}"
    using conjunct1 [OF assms(1) [unfolded scheme_laws_def], rule_format, OF a [unfolded AddToScheme_def]] .
  then have "known s' = known s1 \<union> {(GroupVersion_v1alpha1, type_kind t) |t. True}"
    by (simp add: v1alpha1_types)
  moreover have "(core_v1, ''Secret'') \<in> known s1" using assms(1) c unfolding scheme_laws_def by blast
  ultimately show ?thesis by blast
qed

section \<open>The kinds in use\<close>

text \<open>A scheme as the set of kinds it knows.\<close>

definition ref_clientgo_add ::
  "(GroupVersion \<times> string) set \<Rightarrow> go_error option \<times> (GroupVersion \<times> string) set" where
  "ref_clientgo_add s = (None, insert (core_v1, ''Secret'') s)"

definition ref_add_types ::
  "GroupVersion \<Rightarrow> api_type list \<Rightarrow> (GroupVersion \<times> string) set \<Rightarrow> go_error option \<times> (GroupVersion \<times> string) set" where
  "ref_add_types gv ts s = (None, s \<union> {(gv, type_kind t) |t. t \<in> set ts})"

text \<open>
  The scheme the manager gets knows every kind the two controllers reconcile or watch and every kind
  the two webhooks validate, and the list kinds their mapping functions list.
\<close>

lemma used_kinds_registered:
  assumes "scheme_laws known clientgo_add add_types" "main_init clientgo_add add_types s = Some s'"
  shows "kind_gvk ` used_kinds E \<subseteq> known s' \<and>
    {(GroupVersion_v1alpha1, ''SchemaList''), (GroupVersion_v1alpha1, ''SchemaRegistryList'')} \<subseteq> known s'"
proof -
  note k = main_init_known [OF assms]
  have t: "(GroupVersion_v1alpha1, type_kind t) \<in> known s'" for t using k by blast
  have "kind_gvk o' \<in> known s'" for o'
    using k t [of TypeSchema] t [of TypeSchemaRegistry] by (cases o') simp_all
  then show ?thesis using t [of TypeSchemaList] t [of TypeSchemaRegistryList] by auto
qed

lemma ref_scheme_laws: "scheme_laws (\<lambda>s. s) ref_clientgo_add ref_add_types"
  by (auto simp: scheme_laws_def ref_clientgo_add_def ref_add_types_def)

lemma ref_main_init: "\<exists>s'. main_init ref_clientgo_add ref_add_types {} = Some s'"
  by (simp add: main_init_def AddToScheme_def ref_clientgo_add_def ref_add_types_def)

end
