(* ===== verification/Rbac.thy ===== *)
theory Rbac
  imports SchemeSetup
begin

text \<open>
  The permissions of the operator: the \<open>+kubebuilder:rbac\<close> markers above the two reconcilers, the
  ClusterRole \<open>config/rbac/role.yaml\<close> made from them, and the API requests behind the calls of the
  operator. What a rule permits is the documented meaning of RBAC: one rule has to match verb, API
  group and resource, a subresource counts as a resource of its own, and \<open>*\<close> matches everything.
\<close>

section \<open>Rules and requests\<close>

record PolicyRule =
  pr_apiGroups :: "string list"
  pr_resources :: "string list"
  pr_verbs :: "string list"

record api_request =
  ar_verb :: string
  ar_group :: string
  ar_resource :: string

definition matches_any :: "string list \<Rightarrow> string \<Rightarrow> bool" where
  "matches_any xs x \<longleftrightarrow> ''*'' \<in> set xs \<or> x \<in> set xs"

definition rule_allows :: "api_request \<Rightarrow> PolicyRule \<Rightarrow> bool" where
  "rule_allows q r \<longleftrightarrow>
     matches_any (pr_verbs r) (ar_verb q) \<and> matches_any (pr_apiGroups r) (ar_group q) \<and>
     matches_any (pr_resources r) (ar_resource q)"

definition permits :: "PolicyRule list \<Rightarrow> api_request \<Rightarrow> bool" where
  "permits rules q \<longleftrightarrow> list_ex (rule_allows q) rules"

lemma permits_simps [simp]:
  "\<not> permits [] q"
  "permits (r # rs) q \<longleftrightarrow> rule_allows q r \<or> permits rs q"
  "permits (rs @ rs') q \<longleftrightarrow> permits rs q \<or> permits rs' q"
  by (simp_all add: permits_def)

section \<open>The role and the markers\<close>

definition manager_role :: "PolicyRule list" where
  "manager_role =
     [\<lparr>pr_apiGroups = [[]], pr_resources = [''secrets''], pr_verbs = [''get'', ''list'', ''watch'']\<rparr>,
      \<lparr>pr_apiGroups = [''registry.strimzi.io''], pr_resources = [''schemaregistries'', ''schemas''],
       pr_verbs = [''create'', ''delete'', ''get'', ''list'', ''patch'', ''update'', ''watch'']\<rparr>,
      \<lparr>pr_apiGroups = [''registry.strimzi.io''],
       pr_resources = [''schemaregistries/finalizers'', ''schemas/finalizers''], pr_verbs = [''update'']\<rparr>,
      \<lparr>pr_apiGroups = [''registry.strimzi.io''],
       pr_resources = [''schemaregistries/status'', ''schemas/status''],
       pr_verbs = [''get'', ''patch'', ''update'']\<rparr>]"

text \<open>A marker names the core group \<open>core\<close>; in a rule it is the empty string.\<close>

definition marker_rule :: "string \<Rightarrow> string \<Rightarrow> string list \<Rightarrow> PolicyRule" where
  "marker_rule groups resources verbs =
     \<lparr>pr_apiGroups = [if groups = ''core'' then [] else groups], pr_resources = [resources],
      pr_verbs = verbs\<rparr>"

definition schema_rbac :: "PolicyRule list" where
  "schema_rbac =
     [marker_rule ''registry.strimzi.io'' ''schemas''
        [''get'', ''list'', ''watch'', ''create'', ''update'', ''patch'', ''delete''],
      marker_rule ''registry.strimzi.io'' ''schemas/status'' [''get'', ''update'', ''patch''],
      marker_rule ''registry.strimzi.io'' ''schemas/finalizers'' [''update''],
      marker_rule ''registry.strimzi.io'' ''schemaregistries'' [''get'', ''list'', ''watch''],
      marker_rule ''core'' ''secrets'' [''get'', ''list'', ''watch'']]"

definition schemaregistry_rbac :: "PolicyRule list" where
  "schemaregistry_rbac =
     [marker_rule ''registry.strimzi.io'' ''schemaregistries''
        [''get'', ''list'', ''watch'', ''create'', ''update'', ''patch'', ''delete''],
      marker_rule ''registry.strimzi.io'' ''schemaregistries/status'' [''get'', ''update'', ''patch''],
      marker_rule ''registry.strimzi.io'' ''schemaregistries/finalizers'' [''update''],
      marker_rule ''core'' ''secrets'' [''get'', ''list'', ''watch'']]"

section \<open>The requests of the operator\<close>

text \<open>
  The client of the manager reads through a cache, which lists and watches the kind; so does a watch
  of a controller. A write is an update of the object or of its status.
\<close>

fun kind_resource :: "object_kind \<Rightarrow> string" where
  "kind_resource SchemaKind = ''schemas''"
| "kind_resource SchemaRegistryKind = ''schemaregistries''"
| "kind_resource SecretKind = ''secrets''"

definition kind_requests :: "string list \<Rightarrow> object_kind \<Rightarrow> string \<Rightarrow> api_request list" where
  "kind_requests verbs kind sub =
     map (\<lambda>v. \<lparr>ar_verb = v, ar_group = gv_group (fst (kind_gvk kind)), ar_resource = kind_resource kind @ sub\<rparr>) verbs"

definition read_requests :: "object_kind \<Rightarrow> api_request list" where
  "read_requests kind = kind_requests [''get'', ''list'', ''watch''] kind []"

fun event_requests :: "event \<Rightarrow> api_request list" where
  "event_requests (GotSchema k r) = read_requests SchemaKind"
| "event_requests (GotRegistry k r) = read_requests SchemaRegistryKind"
| "event_requests (GotSecret k r) = read_requests SecretKind"
| "event_requests (ListedSchemas ns r) = read_requests SchemaKind"
| "event_requests (ListedRegistries ns r) = read_requests SchemaRegistryKind"
| "event_requests (UpdatedSchema s u) = kind_requests [''update''] SchemaKind []"
| "event_requests (UpdatedSchemaStatus s u) = kind_requests [''update''] SchemaKind ''/status''"
| "event_requests (UpdatedRegistryStatus s u) = kind_requests [''update''] SchemaRegistryKind ''/status''"
| "event_requests (HttpDone c rq r) = []"

section \<open>What the role permits\<close>

lemmas rule_defs = rule_allows_def matches_any_def marker_rule_def

lemma role_of_markers: "permits manager_role q \<longleftrightarrow> permits (schema_rbac @ schemaregistry_rbac) q"
  by (simp add: manager_role_def schema_rbac_def schemaregistry_rbac_def rule_defs) argo

lemma role_permits_reads: "list_all (permits manager_role) (read_requests kind)"
  by (cases kind)
    (simp_all add: manager_role_def rule_defs read_requests_def kind_requests_def core_v1_def GroupVersion_v1alpha1_def)

lemma role_permits_events: "list_all (permits manager_role) (event_requests e)"
  by (cases e)
    (simp_all add: role_permits_reads,
     simp_all add: manager_role_def rule_defs kind_requests_def core_v1_def GroupVersion_v1alpha1_def)

lemma role_core: "permits manager_role q \<Longrightarrow> ar_group q = [] \<Longrightarrow>
    ar_resource q = ''secrets'' \<and> ar_verb q \<in> {''get'', ''list'', ''watch''}"
  by (auto simp: manager_role_def rule_defs)

lemma role_groups: "permits manager_role q \<Longrightarrow> ar_group q \<in> {[], ''registry.strimzi.io''}"
  by (auto simp: manager_role_def rule_defs)

section \<open>Property\<close>

text \<open>
  C39. The operator may do what it does, and little else. The scheme of the manager knows every kind
  the controllers and webhooks are set up for, and the list kinds. The ClusterRole permits exactly
  what the markers of the two reconcilers ask for; it permits every API request behind every call of
  a run, and getting, listing and watching each of those kinds. Of the core group it permits nothing
  but reading Secrets, and of any other group than the operator's own nothing at all.
\<close>

theorem operator_may_act:
  assumes "scheme_laws known clientgo_add add_types" "main_init clientgo_add add_types s = Some s'"
  shows "kind_gvk ` used_kinds E \<subseteq> known s' \<and>
    {(GroupVersion_v1alpha1, ''SchemaList''), (GroupVersion_v1alpha1, ''SchemaRegistryList'')} \<subseteq> known s' \<and>
    (permits manager_role q \<longleftrightarrow> permits (schema_rbac @ schemaregistry_rbac) q) \<and>
    list_all (permits manager_role) (event_requests e) \<and>
    (\<forall>kind \<in> used_kinds E. list_all (permits manager_role) (read_requests kind)) \<and>
    (permits manager_role q \<longrightarrow>
      ar_group q = [] \<and> ar_resource q = ''secrets'' \<and> ar_verb q \<in> {''get'', ''list'', ''watch''} \<or>
      ar_group q = gv_group GroupVersion_v1alpha1)"
  using used_kinds_registered [OF assms, of E] role_of_markers role_permits_events role_permits_reads
    role_core [of q] role_groups [of q]
  by (auto simp: GroupVersion_v1alpha1_def)

theorem operator_may_act_witness:
  "\<exists>s'. main_init ref_clientgo_add ref_add_types {} = Some s' \<and> (core_v1, ''Secret'') \<in> s' \<and>
    (GroupVersion_v1alpha1, ''SchemaRegistry'') \<in> s' \<and>
    \<not> permits (schema_rbac @ schemaregistry_rbac)
      \<lparr>ar_verb = ''update'', ar_group = [], ar_resource = ''secrets''\<rparr>"
proof -
  obtain s' where s': "main_init ref_clientgo_add ref_add_types {} = Some s'" using ref_main_init by blast
  have "SecretKind \<in> used_kinds E" "SchemaRegistryKind \<in> used_kinds E" for E :: "unit env"
    by (simp_all add: used_kinds_def controller_kinds_def registry_SetupWithManager_def)
  moreover have "\<not> permits manager_role \<lparr>ar_verb = ''update'', ar_group = [], ar_resource = ''secrets''\<rparr>"
    by (simp add: manager_role_def rule_defs)
  ultimately show ?thesis
    using operator_may_act [OF ref_scheme_laws s'] s' by (fastforce simp: image_subset_iff)
qed

end
