(* ===== verification/Spec2Isabelle.thy ===== *)
theory Spec2Isabelle
  imports SchemaOwnership StatusLimits RegistryProperties ClientProperties ApiProperties CopyProperties
    ManagerProperties Rbac
begin

text \<open>
  A verification development for schema-strimzi-operator, a Kubernetes operator that keeps
  schemas in a Confluent-compatible Schema Registry in step with \<open>Schema\<close> resources.

  The program. Two custom resources, \<open>Schema\<close> and \<open>SchemaRegistry\<close> (\<open>api/v1alpha1\<close>), are checked
  by two validating webhooks (\<open>internal/webhook/v1alpha1\<close>). Two reconcilers
  (\<open>internal/controller\<close>) act on them: the Schema reconciler registers the schema text of a
  resource through an HTTP client (\<open>internal/client/client.go\<close>), records the ID in the status and
  guards the resource with a finalizer until its subject is deleted; the SchemaRegistry
  reconciler probes a registry every five minutes and records whether it answers. Both load
  credentials from Secrets (\<open>internal/controller/helpers.go\<close>). Two mapping functions turn a
  changed SchemaRegistry or Secret into reconcile requests. \<open>cmd/main.go\<close> reads the command line, builds
  the server options from it and sets all of this up; the objects are passed around by the generated
  copy functions of \<open>api/v1alpha1/zz_generated.deepcopy.go\<close>.

  The model. A Go struct is a record, a pointer an option, \<open>int\<close> and \<open>time.Duration\<close> are 64-bit
  words, a string is the list of its bytes, an \<open>(T, error)\<close> result is a sum, and every early return is a
  branch. The Kubernetes API, the network, the clock and the functions of the libraries are the
  fields of an environment (\<open>World.env\<close>) over an arbitrary external state, so other actors may
  act between any two calls; a run appends each call with its outcome to a log. What the code
  relies on of \<open>controllerutil\<close>, \<open>meta.SetStatusCondition\<close> and \<open>List\<close> is stated as
  \<open>finalizer_laws\<close>, \<open>condition_laws\<close> and \<open>list_laws\<close>, and the properties that need one name it.
  C1 to C3, C14 and C15 speak of the stored objects and of the subjects of the registry: they assume
  \<open>api_laws\<close> and \<open>registry_laws\<close> (\<open>SchemaStore\<close>), by which reads are up to date and nobody else acts
  during the run. C16 assumes that the API server checks a status against the CRD (\<open>status_checked\<close>).

  The theories.
  \<^item> \<open>Prelude\<close>: Go integers, errors, decimal printing and parsing.
  \<^item> \<open>GoUtf8\<close>, \<open>GoBase64\<close>, \<open>GoJson\<close>, \<open>GoHttp\<close>: the parts of the standard library the source
    uses: quoting with \<open>%q\<close>, base64, JSON validation, decoding and marshalling, requests,
    headers, TLS settings; \<open>GoUrl\<close>: what \<open>url.Parse\<close> makes of the URL string of a request and what of
    it goes out in the request line; \<open>GoFlag\<close>: the parsing of a command line. The JSON parser carries the nesting limit of \<open>encoding/json\<close>, 10000;
    the bodies the client writes nest at most three deep.
  \<^item> \<open>ApiTypes\<close>: \<open>schema_types.go\<close> and \<open>schemaregistry_types.go\<close>; \<open>ApiJson\<close>: the JSON of their
    specifications by the struct tags, written and read, and \<open>StatusJson\<close> of their statuses; \<open>CrdSchema\<close>: the structural schemas of
    \<open>config/crd/bases\<close>, their defaults and their validation.
  \<^item> \<open>World\<close>: environment, log, the interfaces \<open>logged_op\<close> and \<open>bounded_op\<close>.
  \<^item> \<open>RegistryClient\<close>: \<open>client.go\<close>, each operation with its contract; \<open>RegistryRequests\<close> and
    \<open>Credentials\<close>: what the requests carry, the timeout, a reference definition of the loaded
    credentials; \<open>AuthLoader\<close>: \<open>helpers.go\<close>.
  \<^item> \<open>SchemaController\<close>: \<open>schema_controller.go\<close>; \<open>SchemaProtocol\<close>: the abstract protocol of a run,
    as a monitor over its calls, and the refinement; \<open>SchemaOrder\<close>: what an accepted sequence of
    calls looks like; \<open>SchemaTraffic\<close>: what a run sends and how it ends; \<open>SchemaFrame\<close>: how many
    calls it makes, when it stops and what its writes leave alone; \<open>SchemaStore\<close>: what its steps do to
    the stored Schemas and the subjects; \<open>SchemaEvidence\<close>: what the removal of the finalizer and the
    status after a registration rest on; \<open>SchemaOwnership\<close>: subjects that two Schemas name, or that a
    Schema leaves behind.
  \<^item> \<open>RegistryController\<close>: \<open>schemaregistry_controller.go\<close>; \<open>RegistryRun\<close>: the contract of a run.
  \<^item> \<open>Watches\<close>: the mapping functions, under the interface \<open>watch_map\<close>; \<open>Wiring\<close>: the four
    \<open>SetupWithManager\<close> functions, as the values they hand to controller-runtime.
  \<^item> \<open>Admission\<close>, \<open>SchemaWebhook\<close>, \<open>RegistryWebhook\<close>: the webhooks, under the interface \<open>admission\<close>.
  \<^item> \<open>Heap\<close>: an explicit store, pointers and slices, and the interface \<open>deep_copy\<close> of a copy function;
    \<open>DeepCopy\<close>: \<open>zz_generated.deepcopy.go\<close>, every function over that store, the structures with pointers
    and slices where the Go structs have them; \<open>DeepCopyCorrect\<close>: what a structure in memory stands
    for, and the contract of each function.
  \<^item> \<open>Manager\<close>: \<open>main.go\<close>, the flags and how they are read, the options built from them, the sequence
    of set-up calls, and the command line of the deployment; \<open>SchemeSetup\<close>: \<open>groupversion_info.go\<close> and
    the \<open>init\<close> functions; \<open>Rbac\<close>: the ClusterRole and the markers it is made from.
  \<^item> \<open>RefCluster\<close>: a concrete environment that keeps the laws; the witnesses evaluate runs in it.
  \<^item> \<open>SchemaConvergence\<close>, \<open>SchemaProperties\<close>, \<open>SchemaOwnership\<close>, \<open>StatusLimits\<close>, \<open>RegistryProperties\<close>,
    \<open>ClientProperties\<close>, \<open>AdmissionProperties\<close>, \<open>ApiProperties\<close>, \<open>CopyProperties\<close>, \<open>ManagerProperties\<close>,
    the end of \<open>Rbac\<close> and this theory: the properties C1 to C40.

  What the properties show. C1 to C3: what a run and a sequence of runs make of the stored Schema
  and of its subject. C4 to C13: the order, the number and the content of the calls of a Schema
  run, how it ends, the case in which the cleanup is given up, and that the operator's own writes
  pass its own webhook. C14 and C15: subjects that a deletion takes from another Schema or leaves
  behind. C16: a refusal too long for the status. C17 to C19: the health check. C20 to C28:
  results, bodies, credentials, URLs and timeout of the client, and (C27) an edit of the Schema
  during its registration. C29 to C32: the webhooks and the CRDs, and the storage of
  specifications and statuses. C33 and C34: the watches. C35: copies have the value of the original and share
  nothing with it. C36 to C38: the start of the manager and its command line. C39: the kinds it
  knows and what it is permitted. C40: subjects with characters that have a meaning in a URL, from
  the webhook through a run to the request line.

  Termination. Every operation is a total function of the environment: no reconciler loops, the
  loops over references and listings are structural, and the JSON parser terminates by the
  length of its input. No fuel is used. C8 bounds the number of calls of a Schema run by eleven.

  Abstractions. Logging is left out, as are request contexts. Admission warnings are nil on
  every path. A \<open>Get\<close> yields the stored object as a whole. A run is one sequence of calls; runs of
  the two controllers that overlap in time act on each other only through the external state,
  which the environment may change at every call, so what is proved of a run for every environment
  holds whatever else runs at the same time; a system of several runs is not modelled. A request
  keeps the URL string it was made from; whether \<open>http.NewRequest\<close> accepts it is the environment's,
  and \<open>GoUrl\<close> gives what it stands for. The laws of the registry name a subject by that string. \<open>resp.Body\<close> is what it yields and the error
  that ends it. The certificate functions of \<open>crypto/tls\<close> and \<open>crypto/x509\<close> are parameters.

  The reconcilers work on values: a fetched object is a copy of the cached one, and C35 is why a
  write to it is not seen elsewhere. In the store an array is one cell and a slice points to its
  start; the copy functions of \<open>metav1\<close> are parameters with the law \<open>library_laws\<close>, and the layout of
  \<open>ObjectMeta\<close> and \<open>ListMeta\<close> is a type parameter. Of the flags that libraries add to the command line it
  is known which values they accept, and each call on controller-runtime returns an error or none.

  The JSON of the types of \<open>k8s.io/apimachinery\<close> in a status is a parameter with the law \<open>codec_laws\<close>; the
  runs keep a status as a record, for which \<open>StatusLimits\<close> states the constraints of the CRD on a
  condition. What the API server makes of a structural schema, and of a ClusterRole, is its
  documented meaning.

  Not modelled: the set-up of the logger, the manifests under \<open>config\<close> other than the CRDs, the role of
  the manager and the arguments of its container, and the tests.
\<close>

section \<open>A subject with a fragment\<close>

definition with_subject :: "string \<Rightarrow> Schema \<Rightarrow> Schema" where
  "with_subject u s = s\<lparr>sch_spec := (sch_spec s)\<lparr>spec_subject := u\<rparr>\<rparr>"

text \<open>The Schema \<open>orders-value#old\<close> is being deleted.\<close>

definition fragment_world :: "cluster world" where
  "fragment_world =
     sample_world [with_subject ''orders-value#old'' deleted_schema] [sample_registry] [answer 200 []]"

definition fragment_run :: "(Result \<times> go_error option) \<times> cluster world" where
  "fragment_run = schema_reconcile ref_env sample_key fragment_world"

lemma fragment_run_eq:
  "schema_reconcile ref_env sample_key fragment_world = (fst fragment_run, snd fragment_run)"
  "log (snd fragment_run) = log fragment_world @ log (snd fragment_run)"
  by (simp_all add: fragment_run_def fragment_world_def sample_world_def)

section \<open>Subjects with reserved characters\<close>

text \<open>
  C40. What is written into a URL unescaped is read as part of its syntax. The webhook admits a
  subject \<open>u\<close> followed by any tail. If the subject of the Schema a run reads under its key is \<open>u\<close>
  followed by \<open>#x\<close>, every request of the run has the target of the subject \<open>u\<close> itself, of its
  configuration for a PUT: the registration does not reach the versions, and the DELETE deletes
  \<open>u\<close>. With \<open>?x\<close> the DELETE goes to \<open>u\<close> with the query \<open>x\<close>, and with \<open>/versions/latest\<close> to the
  latest version of \<open>u\<close>.
\<close>

theorem reserved_subject_reaches_other:
  assumes "condition_laws E" "schema_reconcile E key w = (r, w')" "log w' = log w @ es"
    and "HttpDone hc rq out \<in> set es"
    and "\<forall>s. GotSchema key (Inr s) \<in> set es \<longrightarrow> spec_subject (sch_spec s) = u @ tail"
  shows "(\<forall>s. schema_ValidateCreate s = None \<and> spec_subject (sch_spec s) = u \<longrightarrow>
      schema_ValidateCreate (with_subject (u @ tail) s) = None) \<and>
    (\<exists>sr c k. GotRegistry k (Inr sr) \<in> set es \<and> client_of sr c \<and> hc = c_httpClient c \<and>
      (\<forall>x. tail = CHR ''#'' # x \<longrightarrow> request_target (req_url rq) =
        request_target (if req_method rq = MethodPut then config_url c u else subject_url c u)) \<and>
      (\<forall>x. tail = CHR ''?'' # x \<and> CHR ''#'' \<notin> set x \<and> plain_base (c_baseURL c) \<and> plain_subject u \<and>
          req_method rq = MethodDelete \<longrightarrow> request_target (req_url rq) =
        map_option (\<lambda>(scheme, host, t). (scheme, host, t @ tail)) (request_target (subject_url c u))) \<and>
      (tail = ''/versions/latest'' \<and> req_method rq = MethodDelete \<longrightarrow> req_url rq = latest_url c u))"
proof -
  have adm: "schema_ValidateCreate (with_subject (u @ tail) s) = None"
    if "schema_ValidateCreate s = None" "spec_subject (sch_spec s) = u" for s
    using that by (simp add: with_subject_def schema_ValidateCreate_def validateSchemaSpec_None schema_ok_def)
  have "own_traffic key es" using run_emits [OF assms(1-3)] by (simp add: run_contract_def)
  then obtain s where s: "GotSchema key (Inr s) \<in> set es" "on_behalf_of s es (HttpDone hc rq out)"
    using assms(4) unfolding own_traffic_def is_http_def by fastforce
  then obtain sr c where c: "GotRegistry (registry_key s) (Inr sr) \<in> set es" "client_of sr c"
    "hc = c_httpClient c" "rq \<in> set (schema_requests c s)" by (auto simp: on_behalf_of_def)
  have sub: "spec_subject (sch_spec s) = u @ tail" using assms(5) s(1) by blast
  have url: "req_url rq \<in> {subject_url c (u @ tail), versions_url c (u @ tail), latest_url c (u @ tail)} \<and>
      req_method rq \<noteq> MethodPut \<or> req_url rq = config_url c (u @ tail) \<and> req_method rq = MethodPut"
    and del: "req_method rq = MethodDelete \<Longrightarrow> req_url rq = subject_url c (u @ tail)"
    using c(4) by (auto simp: schema_requests_def Let_def sub method_defs)
  have f: "request_target (req_url rq) =
      request_target (if req_method rq = MethodPut then config_url c u else subject_url c u)"
    if "tail = CHR ''#'' # x" for x
    using url subject_url_fragment [of c u x] that by auto
  have q: "request_target (req_url rq) =
      map_option (\<lambda>(scheme, host, t). (scheme, host, t @ tail)) (request_target (subject_url c u))"
    if "tail = CHR ''?'' # x" "CHR ''#'' \<notin> set x" "plain_base (c_baseURL c)" "plain_subject u"
      "req_method rq = MethodDelete" for x
    using subject_url_query [OF that(3,4,2)] del [OF that(5)] that(1) by simp
  have l: "req_url rq = latest_url c u"
    if "tail = ''/versions/latest''" "req_method rq = MethodDelete"
    using del [OF that(2)] that(1) subject_url_slash by simp
  show ?thesis
    by (intro conjI allI impI exI [of _ sr] exI [of _ c] exI [of _ "registry_key s"]) (use adm c f q l in auto)
qed

theorem reserved_subject_reaches_other_witness:
  "schema_ValidateCreate (with_subject ''orders-value#old'' sample_schema) = None \<and>
   fst fragment_run = (no_requeue, None) \<and>
   (\<exists>hc rq out. HttpDone hc rq out \<in> set (log (snd fragment_run)) \<and> req_method rq = MethodDelete \<and>
      request_target (req_url rq) = Some (''http'', ''registry:8081'', ''/subjects/orders-value''))"
proof -
  let ?es = "log (snd fragment_run)"
  have "case ?es ! 2 of HttpDone hc rq out \<Rightarrow> req_method rq = MethodDelete | _ \<Rightarrow> False" "length ?es = 4"
    by code_simp+
  then obtain hc rq out where e: "HttpDone hc rq out \<in> set ?es" "req_method rq = MethodDelete"
    by (auto split: event.splits) (metis nth_mem numeral_less_iff semiring_norm(76,77,78,79,80))
  have "list_all (\<lambda>e. case e of GotSchema k (Inr s) \<Rightarrow> spec_subject (sch_spec s) = ''orders-value'' @ ''#old''
      | GotRegistry k (Inr sr) \<Rightarrow> sr_url (sr_spec sr) = ''http://registry:8081'' | _ \<Rightarrow> True) ?es"
    by code_simp
  then have subj: "\<forall>s. GotSchema sample_key (Inr s) \<in> set ?es \<longrightarrow>
      spec_subject (sch_spec s) = ''orders-value'' @ ''#old''"
    and url: "\<forall>k sr. GotRegistry k (Inr sr) \<in> set ?es \<longrightarrow> sr_url (sr_spec sr) = ''http://registry:8081''"
    by (fastforce simp: list_all_iff)+
  note t = reserved_subject_reaches_other [OF ref_condition_laws fragment_run_eq e(1) subj]
  have "schema_ValidateCreate sample_schema = None" by code_simp
  moreover have "spec_subject (sch_spec sample_schema) = ''orders-value''" by (simp add: sample_schema_def)
  ultimately have "schema_ValidateCreate (with_subject ''orders-value#old'' sample_schema) = None"
    using t by fastforce
  moreover obtain c where "c_baseURL c = ''http://registry:8081''"
    "request_target (req_url rq) = request_target (subject_url c ''orders-value'')"
    using t url e(2) by (auto simp: client_of_def method_defs)
  moreover have "request_target (''http://registry:8081'' @ ''/subjects/'' @ ''orders-value'') =
      Some (''http'', ''registry:8081'', ''/subjects/orders-value'')" by code_simp
  moreover have "fst fragment_run = (no_requeue, None)" by code_simp
  ultimately show ?thesis using e by (auto simp: subject_url_def)
qed

end
